(* ===== verification/Prelude.thy ===== *)
theory Prelude
  imports Main "HOL-Library.Code_Target_Numeral"
begin

text \<open>
  Shared vocabulary of the development: the collections of rewrite rules the component proofs
  use, the types that name Go's data, and generic facts on lists and options.

  A Go \<^verbatim>\<open>string\<close> and a \<^verbatim>\<open>[]byte\<close> are both byte sequences, and so is an Isabelle \<open>string\<close>: a
  \<open>char\<close> is one byte and \<open>length\<close> is Go's \<^verbatim>\<open>len\<close>. A \<^verbatim>\<open>*string\<close> is a \<open>string option\<close>. Go errors
  that callers only test for nil are \<open>None\<close>; errors that callers tell apart are datatypes on the
  left of a sum.
\<close>

named_theorems go_str \<open>rewrite rules for the string functions of the Go library\<close>
named_theorems go_defs \<open>definitions of program operations that proofs unfold together\<close>

type_synonym rune = nat
type_synonym bytes = string

subsection \<open>Lists\<close>

lemma dropWhile_cons_hd:
  "dropWhile P xs = y # ys \<Longrightarrow> \<not> P y"
  by (induction xs) (auto split: if_splits)

lemma dropWhile_hd_id: "xs = [] \<or> \<not> P (hd xs) \<Longrightarrow> dropWhile P xs = xs"
  by (cases xs) auto

lemma dropWhile_suffix: "\<exists>ys. xs = ys @ dropWhile P xs \<and> (\<forall>y \<in> set ys. P y)"
proof -
  have "xs = takeWhile P xs @ dropWhile P xs" by simp
  moreover have "\<forall>y \<in> set (takeWhile P xs). P y" by (auto dest: set_takeWhileD)
  ultimately show ?thesis by blast
qed

definition trim_list :: "('a \<Rightarrow> bool) \<Rightarrow> 'a list \<Rightarrow> 'a list" where
  "trim_list P xs = rev (dropWhile P (rev (dropWhile P xs)))"

lemma trim_list_split:
  obtains us vs where "xs = us @ trim_list P xs @ vs"
    and "\<forall>u \<in> set us. P u" and "\<forall>v \<in> set vs. P v"
proof -
  obtain us where us: "xs = us @ dropWhile P xs" "\<forall>u \<in> set us. P u"
    using dropWhile_suffix [of xs P] by blast
  obtain ws where ws: "rev (dropWhile P xs) = ws @ dropWhile P (rev (dropWhile P xs))"
    "\<forall>w \<in> set ws. P w"
    using dropWhile_suffix [of "rev (dropWhile P xs)" P] by blast
  from arg_cong [OF ws(1), of rev] have "dropWhile P xs = trim_list P xs @ rev ws"
    by (simp add: trim_list_def)
  with us ws(2) show ?thesis
    by (intro that [of us "rev ws"]) auto
qed

lemma trim_list_hd: "trim_list P xs = [] \<or> \<not> P (hd (trim_list P xs))"
proof -
  obtain us where us: "rev (dropWhile P xs) = us @ dropWhile P (rev (dropWhile P xs))"
    using dropWhile_suffix [of "rev (dropWhile P xs)" P] by blast
  from arg_cong [OF this, of rev] have e: "dropWhile P xs = trim_list P xs @ rev us"
    by (simp add: trim_list_def)
  show ?thesis
  proof (cases "trim_list P xs")
    case (Cons y ys)
    with e have "dropWhile P xs = y # (ys @ rev us)" by simp
    then have "\<not> P y" by (rule dropWhile_cons_hd)
    with Cons show ?thesis by simp
  qed simp
qed

lemma trim_list_last: "trim_list P xs = [] \<or> \<not> P (last (trim_list P xs))"
proof (cases "dropWhile P (rev (dropWhile P xs))")
  case (Cons y ys)
  then have "\<not> P y" by (rule dropWhile_cons_hd)
  with Cons show ?thesis by (simp add: trim_list_def)
qed (simp add: trim_list_def)

lemma trim_list_id:
  assumes "xs = [] \<or> (\<not> P (hd xs) \<and> \<not> P (last xs))"
  shows "trim_list P xs = xs"
proof (cases xs)
  case (Cons y ys)
  with assms have "dropWhile P xs = xs" by (intro dropWhile_hd_id) simp
  moreover have "dropWhile P (rev xs) = rev xs"
    using assms Cons by (intro dropWhile_hd_id) (auto simp del: rev.simps simp: hd_rev)
  ultimately show ?thesis by (simp add: trim_list_def)
qed (simp add: trim_list_def)

lemma trim_list_idem [simp]: "trim_list P (trim_list P xs) = trim_list P xs"
  using trim_list_hd [of P xs] trim_list_last [of P xs] by (intro trim_list_id) blast

lemma trim_list_empty: "trim_list P xs = [] \<longleftrightarrow> (\<forall>x \<in> set xs. P x)"
proof
  assume e: "trim_list P xs = []"
  obtain us vs where "xs = us @ trim_list P xs @ vs" "\<forall>u \<in> set us. P u" "\<forall>v \<in> set vs. P v"
    by (rule trim_list_split)
  with e show "\<forall>x \<in> set xs. P x"
    by (metis UnE append_Nil set_append)
next
  assume "\<forall>x \<in> set xs. P x"
  then have "dropWhile P xs = []" by simp
  then show "trim_list P xs = []" unfolding trim_list_def by (simp only: rev.simps dropWhile.simps)
qed

lemma set_trim_list: "set (trim_list P xs) \<subseteq> set xs"
  by (rule trim_list_split [of xs P]) (metis Un_upper1 Un_upper2 set_append sup.coboundedI2)

end
