(* ===== verification/Go_Strings.thy ===== *)
theory Go_Strings
  imports Prelude Unicode_Tables
begin

text \<open>
  The part of Go's \<^verbatim>\<open>unicode/utf8\<close>, \<^verbatim>\<open>unicode\<close> and \<^verbatim>\<open>strings\<close> packages that the program uses. A
  string is a byte sequence; \<open>decode_rune\<close> is \<^verbatim>\<open>utf8.DecodeRuneInString\<close>, with its replacement
  rune of width one on an invalid sequence, and \<open>chunks\<close> is the iteration of \<^verbatim>\<open>for i, r := range s\<close>:
  the runes of a string, each with the bytes it was decoded from. The functions of \<^verbatim>\<open>strings\<close>
  that work on runes are defined over \<open>chunks\<close>, those that search for bytes over the bytes.
\<close>

section \<open>UTF-8\<close>

definition byte :: "char \<Rightarrow> nat" where
  "byte c = of_char c"

definition rune_error :: rune where
  "rune_error = 65533"

definition in_range :: "nat \<Rightarrow> nat \<Rightarrow> char \<Rightarrow> bool" where
  "in_range lo hi c \<longleftrightarrow> lo \<le> byte c \<and> byte c \<le> hi"

text \<open>A continuation byte is \<^verbatim>\<open>10xxxxxx\<close>.\<close>

definition cont :: "char \<Rightarrow> bool" where
  "cont c \<longleftrightarrow> in_range 128 191 c"

text \<open>The acceptable second bytes after a three- or four-byte leader.\<close>

definition accept2 :: "nat \<Rightarrow> char \<Rightarrow> bool" where
  "accept2 b0 c =
     (if b0 = 224 then in_range 160 191 c
      else if b0 = 237 then in_range 128 159 c
      else if b0 = 240 then in_range 144 191 c
      else if b0 = 244 then in_range 128 143 c
      else cont c)"

fun decode2 :: "nat \<Rightarrow> string \<Rightarrow> rune \<times> nat" where
  "decode2 b0 (c1 # _) =
     (if cont c1 then ((b0 mod 32) * 64 + byte c1 mod 64, 2) else (rune_error, 1))"
| "decode2 b0 _ = (rune_error, 1)"

fun decode3 :: "nat \<Rightarrow> string \<Rightarrow> rune \<times> nat" where
  "decode3 b0 (c1 # c2 # _) =
     (if accept2 b0 c1 \<and> cont c2
      then ((b0 mod 16) * 4096 + (byte c1 mod 64) * 64 + byte c2 mod 64, 3)
      else (rune_error, 1))"
| "decode3 b0 _ = (rune_error, 1)"

fun decode4 :: "nat \<Rightarrow> string \<Rightarrow> rune \<times> nat" where
  "decode4 b0 (c1 # c2 # c3 # _) =
     (if accept2 b0 c1 \<and> cont c2 \<and> cont c3
      then ((b0 mod 8) * 262144 + (byte c1 mod 64) * 4096 + (byte c2 mod 64) * 64 + byte c3 mod 64, 4)
      else (rune_error, 1))"
| "decode4 b0 _ = (rune_error, 1)"

fun decode_rune :: "string \<Rightarrow> rune \<times> nat" where
  "decode_rune [] = (rune_error, 0)"
| "decode_rune (c # s) =
     (let b0 = byte c in
      if b0 < 128 then (b0, 1)
      else if b0 < 194 \<or> 244 < b0 then (rune_error, 1)
      else if b0 < 224 then decode2 b0 s
      else if b0 < 240 then decode3 b0 s
      else decode4 b0 s)"

lemma byte_less: "byte c < 256"
  by (simp add: byte_def)

lemma decode2_cases: "decode2 b0 s = (rune_error, 1) \<or>
    (\<exists>c1 t. s = c1 # t \<and> cont c1 \<and> decode2 b0 s = ((b0 mod 32) * 64 + byte c1 mod 64, 2))"
  by (cases "(b0, s)" rule: decode2.cases) auto

lemma decode3_cases: "decode3 b0 s = (rune_error, 1) \<or>
    (\<exists>c1 c2 t. s = c1 # c2 # t \<and> accept2 b0 c1 \<and> cont c2 \<and>
       decode3 b0 s = ((b0 mod 16) * 4096 + (byte c1 mod 64) * 64 + byte c2 mod 64, 3))"
  by (cases "(b0, s)" rule: decode3.cases) auto

lemma decode4_cases: "decode4 b0 s = (rune_error, 1) \<or>
    (\<exists>c1 c2 c3 t. s = c1 # c2 # c3 # t \<and> accept2 b0 c1 \<and> cont c2 \<and> cont c3 \<and>
       decode4 b0 s = ((b0 mod 8) * 262144 + (byte c1 mod 64) * 4096 + (byte c2 mod 64) * 64
                        + byte c3 mod 64, 4))"
  by (cases "(b0, s)" rule: decode4.cases) auto

lemma accept2_cont: "accept2 b0 c \<Longrightarrow> cont c"
  by (auto simp: accept2_def cont_def in_range_def split: if_splits)

lemma decode_rune_width:
  assumes "s \<noteq> []"
  shows "1 \<le> snd (decode_rune s) \<and> snd (decode_rune s) \<le> length s"
proof (cases s)
  case (Cons c t)
  show ?thesis
    using decode2_cases [of "byte c" t] decode3_cases [of "byte c" t] decode4_cases [of "byte c" t]
    by (auto simp: Cons Let_def)
qed (use assms in simp)

text \<open>Bytes that cannot continue a sequence do not change how the bytes before them decode.\<close>

lemma decode_rune_append:
  assumes "a \<noteq> []" and b: "b = [] \<or> \<not> cont (hd b)"
  shows "decode_rune (a @ b) = decode_rune a"
proof (cases a)
  case (Cons c t)
  have acc: "b = y # z \<Longrightarrow> \<not> cont y \<and> \<not> accept2 (byte c) y" for y z
    using b by (auto dest: accept2_cont)
  have "decode2 (byte c) (t @ b) = decode2 (byte c) t"
    using b by (cases t; cases b) auto
  moreover have "decode3 (byte c) (t @ b) = decode3 (byte c) t"
    using acc by (cases t; cases "tl t"; cases b; cases "tl b") auto
  moreover have "decode4 (byte c) (t @ b) = decode4 (byte c) t"
    using acc
    by (cases t; cases "tl t"; cases "tl (tl t)"; cases b; cases "tl b"; cases "tl (tl b)") auto
  ultimately show ?thesis by (simp add: Cons Let_def)
qed (use assms in simp)

function chunks :: "string \<Rightarrow> (rune \<times> string) list" where
  "chunks s =
     (if s = [] then []
      else let (r, w) = decode_rune s in (r, take w s) # chunks (drop w s))"
  by pat_completeness auto
termination
proof (relation "measure length")
  fix s x r w
  assume "s \<noteq> []" and "x = decode_rune s" and "(r, w) = x"
  then show "(drop w s, s) \<in> measure length"
    using decode_rune_width [of s] by (cases "decode_rune s") auto
qed simp

declare chunks.simps [simp del]

lemma chunks_Nil [simp]: "chunks [] = []"
  by (simp add: chunks.simps)

lemma chunks_unfold:
  "s \<noteq> [] \<Longrightarrow> chunks s =
     (fst (decode_rune s), take (snd (decode_rune s)) s) # chunks (drop (snd (decode_rune s)) s)"
  by (subst chunks.simps) (simp add: case_prod_unfold Let_def)

lemma concat_chunks [simp]: "concat (map snd (chunks s)) = s"
proof (induction s rule: chunks.induct)
  case (1 s)
  show ?case
  proof (cases "s = []")
    case False
    with "1.IH" [OF False refl prod.collapse] show ?thesis
      by (simp add: chunks_unfold)
  qed simp
qed

lemma chunks_eq_Nil [simp]: "chunks s = [] \<longleftrightarrow> s = []"
  by (metis chunks_Nil chunks_unfold list.distinct(1))

lemma chunks_append:
  assumes "b = [] \<or> \<not> cont (hd b)"
  shows "chunks (a @ b) = chunks a @ chunks b"
proof (induction a rule: chunks.induct)
  case (1 a)
  show ?case
  proof (cases "a = []")
    case False
    let ?w = "snd (decode_rune a)"
    have w: "?w \<le> length a" and d: "decode_rune (a @ b) = decode_rune a"
      using decode_rune_width [OF False] decode_rune_append [OF False assms] by simp_all
    from "1.IH" [OF False refl prod.collapse] False w show ?thesis
      by (simp add: chunks_unfold d)
  qed simp
qed

text \<open>Cutting a string between two of its chunks.\<close>

lemma chunks_suffix:
  "chunks s = xs @ ys \<Longrightarrow> chunks (concat (map snd ys)) = ys"
proof (induction xs arbitrary: s)
  case Nil
  then show ?case by (metis append_Nil concat_chunks)
next
  case (Cons x xs)
  then have "s \<noteq> []" by auto
  with Cons.prems have "chunks (drop (snd (decode_rune s)) s) = xs @ ys"
    by (simp add: chunks_unfold)
  then show ?case by (rule Cons.IH)
qed

lemma chunk_hd_not_cont:
  "(r, bs) \<in> set (chunks s) \<Longrightarrow> r \<noteq> rune_error \<Longrightarrow> bs \<noteq> [] \<and> \<not> cont (hd bs)"
proof (induction s rule: chunks.induct)
  case (1 s)
  show ?case
  proof (cases s)
    case (Cons c t)
    let ?w = "snd (decode_rune s)"
    from Cons have ne: "s \<noteq> []" by simp
    from "1.prems"(1) consider "r = fst (decode_rune s)" "bs = take ?w s"
      | "(r, bs) \<in> set (chunks (drop ?w s))"
      using ne by (auto simp: chunks_unfold)
    then show ?thesis
    proof cases
      case 1
      have "\<not> cont c"
        using 1(1) \<open>r \<noteq> rune_error\<close>
        by (auto simp: Cons Let_def cont_def in_range_def rune_error_def split: if_splits)
      then show ?thesis
        using 1(2) decode_rune_width [OF ne] by (cases ?w) (auto simp: Cons)
    next
      case 2
      then show ?thesis
        using "1.IH" [OF ne refl prod.collapse] "1.prems"(2) by blast
    qed
  qed (use "1.prems" in simp)
qed

lemma concat_hd: "xs \<noteq> [] \<Longrightarrow> hd xs \<noteq> [] \<Longrightarrow> hd (concat xs) = hd (hd xs)"
  by (cases xs) auto

lemma chunks_prefix:
  assumes "chunks s = xs @ ys" and "ys = [] \<or> fst (hd ys) \<noteq> rune_error"
  shows "chunks (concat (map snd xs)) = xs"
proof -
  let ?a = "concat (map snd xs)" and ?b = "concat (map snd ys)"
  have s: "s = ?a @ ?b"
    using concat_chunks [of s] unfolding assms(1) by simp
  have "?b = [] \<or> \<not> cont (hd ?b)"
  proof (cases ys)
    case (Cons y ys')
    obtain r bs where y: "y = (r, bs)" by (cases y)
    have "(r, bs) \<in> set (chunks s)" using assms(1) Cons y by simp
    moreover have "r \<noteq> rune_error" using assms(2) Cons y by simp
    ultimately have "bs \<noteq> [] \<and> \<not> cont (hd bs)" by (rule chunk_hd_not_cont)
    then show ?thesis by (simp add: Cons y)
  qed simp
  then have "chunks s = chunks ?a @ chunks ?b"
    using chunks_append [of ?b ?a] s by simp
  moreover have "chunks ?b = ys" by (rule chunks_suffix [OF assms(1)])
  ultimately show ?thesis using assms(1) by simp
qed

text \<open>Strings of ASCII bytes are their own chunks.\<close>

definition ascii :: "string \<Rightarrow> bool" where
  "ascii s = list_all (\<lambda>c. byte c < 128) s"

lemma ascii_simps [simp]:
  "ascii []" "ascii (c # s) \<longleftrightarrow> byte c < 128 \<and> ascii s" "ascii (s @ t) \<longleftrightarrow> ascii s \<and> ascii t"
  by (auto simp: ascii_def)

lemma chunks_ascii_Cons: "byte c < 128 \<Longrightarrow> chunks (c # s) = (byte c, [c]) # chunks s"
  by (simp add: chunks_unfold Let_def)

lemma chunks_ascii: "ascii s \<Longrightarrow> chunks s = map (\<lambda>c. (byte c, [c])) s"
  by (induction s) (simp_all add: chunks_ascii_Cons)

lemma ascii_not_cont: "byte c < 128 \<Longrightarrow> \<not> cont c"
  by (simp add: cont_def in_range_def)

section \<open>Characters\<close>

text \<open>\<^verbatim>\<open>utf8.AppendRune\<close>.\<close>

definition encode_rune :: "rune \<Rightarrow> string" where
  "encode_rune r0 =
     (let r = (if 1114111 < r0 \<or> (55296 \<le> r0 \<and> r0 \<le> 57343) then rune_error else r0) in
      if r < 128 then [char_of r]
      else if r < 2048 then [char_of (192 + r div 64), char_of (128 + r mod 64)]
      else if r < 65536 then
        [char_of (224 + r div 4096), char_of (128 + (r div 64) mod 64), char_of (128 + r mod 64)]
      else
        [char_of (240 + r div 262144), char_of (128 + (r div 4096) mod 64),
         char_of (128 + (r div 64) mod 64), char_of (128 + r mod 64)])"

text \<open>\<^verbatim>\<open>unicode.IsSpace\<close>, \<^verbatim>\<open>IsDigit\<close>, \<^verbatim>\<open>IsLetter\<close>, \<^verbatim>\<open>ToLower\<close>, \<^verbatim>\<open>ToUpper\<close> and the simple case
  folding of \<^verbatim>\<open>SimpleFold\<close>.\<close>

definition IsSpace :: "rune \<Rightarrow> bool" where
  "IsSpace r \<longleftrightarrow>
     (9 \<le> r \<and> r \<le> 13) \<or> r = 32 \<or> r = 133 \<or> r = 160 \<or> r = 5760 \<or> (8192 \<le> r \<and> r \<le> 8202)
     \<or> r = 8232 \<or> r = 8233 \<or> r = 8239 \<or> r = 8287 \<or> r = 12288"

definition IsDigit :: "rune \<Rightarrow> bool" where
  "IsDigit r = (if r < 128 then 48 \<le> r \<and> r \<le> 57 else table_member digit_table r)"

definition IsLetter :: "rune \<Rightarrow> bool" where
  "IsLetter r =
     (if r < 128 then (65 \<le> r \<and> r \<le> 90) \<or> (97 \<le> r \<and> r \<le> 122) else table_member letter_table r)"

definition rune_lower :: "rune \<Rightarrow> rune" where
  "rune_lower r =
     (if r < 128 then (if 65 \<le> r \<and> r \<le> 90 then r + 32 else r) else table_map lower_table r)"

definition rune_upper :: "rune \<Rightarrow> rune" where
  "rune_upper r =
     (if r < 128 then (if 97 \<le> r \<and> r \<le> 122 then r - 32 else r) else table_map upper_table r)"

definition rune_fold :: "rune \<Rightarrow> rune" where
  "rune_fold r =
     (if r < 128 then (if 65 \<le> r \<and> r \<le> 90 then r + 32 else r) else table_map fold_table r)"

lemma IsSpace_not_error: "IsSpace r \<Longrightarrow> r \<noteq> rune_error"
  by (auto simp: IsSpace_def rune_error_def)

section \<open>Functions on runes\<close>

definition is_space_chunk :: "rune \<times> string \<Rightarrow> bool" where
  "is_space_chunk p = IsSpace (fst p)"

definition unchunk :: "(rune \<times> string) list \<Rightarrow> string" where
  "unchunk cs = concat (map snd cs)"

definition TrimSpace :: "string \<Rightarrow> string" where
  "TrimSpace s = unchunk (trim_list is_space_chunk (chunks s))"

fun fields_from :: "string \<Rightarrow> (rune \<times> string) list \<Rightarrow> string list" where
  "fields_from cur [] = (if cur = [] then [] else [cur])"
| "fields_from cur (p # cs) =
     (if is_space_chunk p
      then (if cur = [] then fields_from [] cs else cur # fields_from [] cs)
      else fields_from (cur @ snd p) cs)"

definition Fields :: "string \<Rightarrow> string list" where
  "Fields s = fields_from [] (chunks s)"

fun Join :: "string list \<Rightarrow> string \<Rightarrow> string" where
  "Join [] sep = []"
| "Join [w] sep = w"
| "Join (w # v # ws) sep = w @ sep @ Join (v # ws) sep"

definition ToLower :: "string \<Rightarrow> string" where
  "ToLower s = concat (map (\<lambda>p. encode_rune (rune_lower (fst p))) (chunks s))"

definition ToUpper :: "string \<Rightarrow> string" where
  "ToUpper s = concat (map (\<lambda>p. encode_rune (rune_upper (fst p))) (chunks s))"

definition EqualFold :: "string \<Rightarrow> string \<Rightarrow> bool" where
  "EqualFold s t \<longleftrightarrow> map (rune_fold \<circ> fst) (chunks s) = map (rune_fold \<circ> fst) (chunks t)"

text \<open>\<^verbatim>\<open>strings.IndexFunc(s, unicode.IsSpace)\<close> as the bytes before the first space, if there is one.\<close>

definition before_space :: "string \<Rightarrow> string option" where
  "before_space s =
     (if list_ex is_space_chunk (chunks s)
      then Some (unchunk (takeWhile (\<lambda>p. \<not> is_space_chunk p) (chunks s))) else None)"

section \<open>Functions on bytes\<close>

definition HasPrefix :: "string \<Rightarrow> string \<Rightarrow> bool" where
  "HasPrefix s p \<longleftrightarrow> take (length p) s = p"

definition HasSuffix :: "string \<Rightarrow> string \<Rightarrow> bool" where
  "HasSuffix s p \<longleftrightarrow> length p \<le> length s \<and> drop (length s - length p) s = p"

definition TrimPrefix :: "string \<Rightarrow> string \<Rightarrow> string" where
  "TrimPrefix s p = (if HasPrefix s p then drop (length p) s else s)"

definition TrimSuffix :: "string \<Rightarrow> string \<Rightarrow> string" where
  "TrimSuffix s p = (if HasSuffix s p then take (length s - length p) s else s)"

text \<open>\<^verbatim>\<open>strings.TrimLeft\<close> with a cutset of ASCII bytes.\<close>

definition TrimLeft :: "string \<Rightarrow> string \<Rightarrow> string" where
  "TrimLeft s cutset = dropWhile (\<lambda>c. c \<in> set cutset) s"

text \<open>\<^verbatim>\<open>strings.Index\<close> and \<^verbatim>\<open>strings.LastIndex\<close>; \<open>None\<close> is Go's \<^verbatim>\<open>-1\<close>.\<close>

fun Index :: "string \<Rightarrow> string \<Rightarrow> nat option" where
  "Index [] p = (if p = [] then Some 0 else None)"
| "Index (c # s) p = (if HasPrefix (c # s) p then Some 0 else map_option Suc (Index s p))"

fun LastIndex :: "string \<Rightarrow> string \<Rightarrow> nat option" where
  "LastIndex [] p = (if p = [] then Some 0 else None)"
| "LastIndex (c # s) p =
     (case LastIndex s p of
        Some i \<Rightarrow> Some (Suc i)
      | None \<Rightarrow> (if HasPrefix (c # s) p then Some 0 else None))"

definition Contains :: "string \<Rightarrow> string \<Rightarrow> bool" where
  "Contains s p \<longleftrightarrow> Index s p \<noteq> None"

text \<open>\<^verbatim>\<open>strings.ReplaceAll\<close>, \<^verbatim>\<open>strings.Split\<close> and \<^verbatim>\<open>strings.Count\<close> for a pattern of one byte.\<close>

definition ReplaceByte :: "string \<Rightarrow> char \<Rightarrow> char \<Rightarrow> string" where
  "ReplaceByte s a b = map (\<lambda>c. if c = a then b else c) s"

fun SplitByte :: "string \<Rightarrow> char \<Rightarrow> string list" where
  "SplitByte [] a = [[]]"
| "SplitByte (c # s) a =
     (if c = a then [] # SplitByte s a
      else case SplitByte s a of [] \<Rightarrow> [[c]] | w # ws \<Rightarrow> (c # w) # ws)"

definition CountByte :: "string \<Rightarrow> char \<Rightarrow> nat" where
  "CountByte s a = length (filter (\<lambda>c. c = a) s)"

section \<open>Laws of trimming\<close>

lemma unchunk_simps [simp]:
  "unchunk [] = []" "unchunk (p # cs) = snd p @ unchunk cs"
  "unchunk (cs @ ds) = unchunk cs @ unchunk ds"
  by (simp_all add: unchunk_def)

lemma unchunk_chunks [simp]: "unchunk (chunks s) = s"
  by (simp add: unchunk_def)

lemma chunk_nonempty: "p \<in> set (chunks s) \<Longrightarrow> snd p \<noteq> []"
proof (induction s rule: chunks.induct)
  case (1 s)
  show ?case
  proof (cases "s = []")
    case False
    with "1.IH" [OF False refl prod.collapse] "1.prems" decode_rune_width [OF False]
    show ?thesis by (auto simp: chunks_unfold)
  qed (use "1.prems" in simp)
qed

lemma unchunk_eq_Nil: "set cs \<subseteq> set (chunks s) \<Longrightarrow> unchunk cs = [] \<longleftrightarrow> cs = []"
  using chunk_nonempty [of _ s] by (cases cs) auto

lemma space_chunk_not_error: "is_space_chunk p \<Longrightarrow> fst p \<noteq> rune_error"
  by (simp add: is_space_chunk_def IsSpace_not_error)

lemma chunks_unchunk_middle:
  assumes "chunks s = xs @ ys @ zs" and "zs = [] \<or> is_space_chunk (hd zs)"
  shows "chunks (unchunk ys) = ys"
proof -
  have "chunks (concat (map snd (ys @ zs))) = ys @ zs"
    using assms(1) by (rule chunks_suffix)
  then show ?thesis
    unfolding unchunk_def using assms(2) by (auto intro: chunks_prefix dest: space_chunk_not_error)
qed

lemma chunks_TrimSpace: "chunks (TrimSpace s) = trim_list is_space_chunk (chunks s)"
proof -
  let ?t = "trim_list is_space_chunk (chunks s)"
  obtain us vs where e: "chunks s = us @ ?t @ vs" and vs: "\<forall>v \<in> set vs. is_space_chunk v"
    by (rule trim_list_split)
  have "vs = [] \<or> is_space_chunk (hd vs)" using vs by (cases vs) auto
  with e show ?thesis unfolding TrimSpace_def by (rule chunks_unchunk_middle)
qed

lemma TrimSpace_idem [simp]: "TrimSpace (TrimSpace s) = TrimSpace s"
  by (simp add: TrimSpace_def [of "TrimSpace s"] chunks_TrimSpace) (simp add: TrimSpace_def)

lemma TrimSpace_eq_Nil: "TrimSpace s = [] \<longleftrightarrow> list_all is_space_chunk (chunks s)"
  by (metis TrimSpace_def chunks_TrimSpace chunks_eq_Nil list_all_iff trim_list_empty)

lemma TrimSpace_Nil [simp]: "TrimSpace [] = []"
  by (simp add: TrimSpace_eq_Nil)

lemma TrimSpace_sublist: "\<exists>u v. s = u @ TrimSpace s @ v"
proof -
  obtain us vs where "chunks s = us @ trim_list is_space_chunk (chunks s) @ vs"
    by (rule trim_list_split)
  from arg_cong [OF this, of unchunk] show ?thesis
    by (auto simp: TrimSpace_def)
qed

lemma length_TrimSpace: "length (TrimSpace s) \<le> length s"
  using TrimSpace_sublist [of s] by (metis length_append le_add1 le_add2 le_trans)

lemma set_TrimSpace: "set (TrimSpace s) \<subseteq> set s"
  using TrimSpace_sublist [of s] by (metis Un_upper1 Un_upper2 order_trans set_append)

lemma TrimSpace_ascii:
  assumes "ascii s" shows "TrimSpace s = trim_list (\<lambda>c. IsSpace (byte c)) s"
proof -
  have "dropWhile is_space_chunk (map (\<lambda>c. (byte c, [c])) t)
      = map (\<lambda>c. (byte c, [c])) (dropWhile (\<lambda>c. IsSpace (byte c)) t)" for t
    by (induction t) (auto simp: is_space_chunk_def)
  then have "trim_list is_space_chunk (map (\<lambda>c. (byte c, [c])) s)
      = map (\<lambda>c. (byte c, [c])) (trim_list (\<lambda>c. IsSpace (byte c)) s)"
    by (simp add: trim_list_def rev_map)
  moreover have "unchunk (map (\<lambda>c. (byte c, [c])) t) = t" for t
    by (induction t) auto
  ultimately show ?thesis by (simp add: TrimSpace_def chunks_ascii [OF assms])
qed

section \<open>Laws of splitting into words\<close>

definition word :: "string \<Rightarrow> bool" where
  "word w \<longleftrightarrow> w \<noteq> [] \<and> list_all (\<lambda>p. \<not> is_space_chunk p) (chunks w)"

lemma fields_from_words:
  assumes "chunks s = pre @ cur @ cs" and "list_all (\<lambda>p. \<not> is_space_chunk p) cur"
  shows "list_all word (fields_from (unchunk cur) cs)"
  using assms
proof (induction cs arbitrary: pre cur)
  case Nil
  then have "chunks (unchunk cur) = cur" by (intro chunks_unchunk_middle [of s pre cur "[]"]) auto
  with Nil.prems(2) show ?case by (simp add: word_def)
next
  case (Cons p cs)
  show ?case
  proof (cases "is_space_chunk p")
    case True
    with Cons.prems(1) have c: "chunks (unchunk cur) = cur"
      by (intro chunks_unchunk_middle [of s pre cur "p # cs"]) auto
    have "list_all word (fields_from (unchunk []) cs)"
      using Cons.prems(1) by (intro Cons.IH [of "pre @ cur @ [p]" "[]"]) auto
    moreover have "unchunk cur \<noteq> [] \<Longrightarrow> word (unchunk cur)"
      using c Cons.prems(2) by (simp add: word_def)
    ultimately show ?thesis using True by simp
  next
    case False
    have "list_all word (fields_from (unchunk (cur @ [p])) cs)"
      using Cons.prems False by (intro Cons.IH [of pre "cur @ [p]"]) auto
    with False show ?thesis by simp
  qed
qed

lemma Fields_words: "list_all word (Fields s)"
  using fields_from_words [of s "[]" "[]" "chunks s"] by (simp add: Fields_def)

lemma Fields_wordD: "w \<in> set (Fields s) \<Longrightarrow> word w"
  using Fields_words by (simp add: list_all_iff)

lemma fields_from_word:
  "list_all (\<lambda>p. \<not> is_space_chunk p) cs \<Longrightarrow>
     fields_from cur (cs @ ds) = fields_from (cur @ unchunk cs) ds"
  by (induction cs arbitrary: cur) auto

lemma space_byte: "byte (CHR '' '') = 32"
  by (simp add: byte_def)

lemma chunks_space: "chunks (CHR '' '' # s) = (32, '' '') # chunks s"
  using chunks_ascii_Cons [of "CHR '' ''" s] by (simp add: space_byte)

lemma Fields_word [simp]: "word w \<Longrightarrow> Fields w = [w]"
  using fields_from_word [of "chunks w" "[]" "[]"] by (simp add: Fields_def word_def)

lemma Fields_word_space:
  assumes "word w" shows "Fields (w @ CHR '' '' # s) = w # Fields s"
proof -
  have "chunks (w @ CHR '' '' # s) = chunks w @ chunks (CHR '' '' # s)"
    by (rule chunks_append) (simp add: ascii_not_cont space_byte)
  then show ?thesis
    using assms fields_from_word [of "chunks w" "[]" "chunks (CHR '' '' # s)"]
    by (simp add: Fields_def word_def chunks_space is_space_chunk_def IsSpace_def)
qed

lemma Join_Cons: "Join (w # ws) sep = w @ (if ws = [] then [] else sep @ Join ws sep)"
  by (cases ws) auto

lemma Fields_Join: "list_all word ws \<Longrightarrow> Fields (Join ws '' '') = ws"
proof (induction ws)
  case Nil
  then show ?case by (simp add: Fields_def)
next
  case (Cons w ws)
  then show ?case by (cases "ws = []") (simp_all add: Join_Cons Fields_word_space)
qed

lemma Fields_Join_Fields: "Fields (Join (Fields s) '' '') = Fields s"
  by (rule Fields_Join [OF Fields_words])

lemma length_Join_fields_from:
  "list_all (\<lambda>p. snd p \<noteq> []) cs \<Longrightarrow>
     length (Join (fields_from cur cs) '' '') \<le> length cur + length (unchunk cs)"
proof (induction cs arbitrary: cur)
  case (Cons p cs)
  have "1 \<le> length (snd p)" using Cons.prems by (cases "snd p") auto
  then show ?case
    using Cons.IH [of "[]"] Cons.IH [of "cur @ snd p"] Cons.prems by (auto simp: Join_Cons)
qed simp

lemma length_Join_Fields: "length (Join (Fields s) '' '') \<le> length s"
  using length_Join_fields_from [of "chunks s" "[]"] chunk_nonempty [of _ s]
  by (auto simp: Fields_def list_all_iff)

lemma length_before_space:
  assumes "before_space s = Some b" shows "length b < length s"
proof -
  let ?P = "\<lambda>p. \<not> is_space_chunk p"
  have "dropWhile ?P (chunks s) \<noteq> []"
    using assms by (auto simp: before_space_def list_ex_iff split: if_splits)
  then obtain p cs where d: "dropWhile ?P (chunks s) = p # cs" by (cases "dropWhile ?P (chunks s)") auto
  then have "p \<in> set (chunks s)" by (metis list.set_intros(1) set_dropWhileD)
  then have "snd p \<noteq> []" by (rule chunk_nonempty)
  moreover have "s = b @ snd p @ unchunk cs"
  proof -
    have "unchunk (takeWhile ?P (chunks s) @ dropWhile ?P (chunks s)) = s" by simp
    then show ?thesis using assms d by (simp add: before_space_def split: if_splits)
  qed
  ultimately show ?thesis by (cases "snd p") auto
qed

lemma word_TrimSpace: "word w \<Longrightarrow> TrimSpace w = w"
proof -
  assume w: "word w"
  then have "chunks w = [] \<or> (\<not> is_space_chunk (hd (chunks w)) \<and> \<not> is_space_chunk (last (chunks w)))"
    by (simp add: word_def list_all_iff)
  then have "trim_list is_space_chunk (chunks w) = chunks w" by (rule trim_list_id)
  then show ?thesis by (simp add: TrimSpace_def)
qed

lemma ascii_word:
  "ascii w \<Longrightarrow> w \<noteq> [] \<Longrightarrow> list_all (\<lambda>c. \<not> IsSpace (byte c)) w \<Longrightarrow> word w"
  by (auto simp: word_def chunks_ascii list_all_iff is_space_chunk_def)

lemma before_space_word:
  assumes "word w" shows "before_space (w @ CHR '' '' # s) = Some w"
proof -
  have c: "chunks (w @ CHR '' '' # s) = chunks w @ (32, '' '') # chunks s"
    using chunks_append [of "CHR '' '' # s" w] by (simp add: ascii_not_cont space_byte chunks_space)
  have sp: "is_space_chunk (32, '' '')" by (simp add: is_space_chunk_def IsSpace_def)
  have "takeWhile (\<lambda>p. \<not> is_space_chunk p) (chunks w @ (32, '' '') # chunks s) = chunks w"
    using assms sp by (simp add: word_def list_all_iff takeWhile_append)
  then show ?thesis using sp by (simp add: before_space_def c)
qed

lemma TrimSpace_word_space:
  assumes "word w"
  shows "TrimSpace (w @ CHR '' '' # s) = w \<or> (\<exists>r. TrimSpace (w @ CHR '' '' # s) = w @ CHR '' '' # r)"
proof -
  let ?P = is_space_chunk and ?z = "(32, '' '') # chunks s"
  have c: "chunks (w @ CHR '' '' # s) = chunks w @ ?z"
    using chunks_append [of "CHR '' '' # s" w] by (simp add: ascii_not_cont space_byte chunks_space)
  have ends: "chunks w \<noteq> []" "\<not> ?P (hd (chunks w))" "\<not> ?P (last (chunks w))"
    using assms by (auto simp: word_def list_all_iff)
  have l: "dropWhile ?P (chunks w @ ?z) = chunks w @ ?z"
    using ends by (intro dropWhile_hd_id) simp
  have r: "dropWhile ?P (rev (chunks w)) = rev (chunks w)"
    using ends by (intro dropWhile_hd_id) (simp add: hd_rev)
  show ?thesis
  proof (cases "dropWhile ?P (rev ?z) = []")
    case True
    then have "dropWhile ?P (rev ?z @ rev (chunks w)) = dropWhile ?P (rev (chunks w))"
      by (intro dropWhile_append2) (simp only: dropWhile_eq_Nil_conv)
    then have "trim_list ?P (chunks w @ ?z) = chunks w"
      unfolding trim_list_def l rev_append by (simp only: r rev_rev_ident)
    then show ?thesis by (simp add: TrimSpace_def c)
  next
    case False
    obtain us where "rev ?z = us @ dropWhile ?P (rev ?z)"
      using dropWhile_suffix [of "rev ?z" ?P] by blast
    from arg_cong [OF this, of rev] have e: "?z = rev (dropWhile ?P (rev ?z)) @ rev us"
      by (simp del: rev.simps)
    obtain d ds where ds: "rev (dropWhile ?P (rev ?z)) = d # ds"
      using False by (cases "rev (dropWhile ?P (rev ?z))") (simp_all del: rev.simps)
    from e have d: "d = (32, '' '')" unfolding ds by simp
    have "dropWhile ?P (rev ?z @ rev (chunks w)) = dropWhile ?P (rev ?z) @ rev (chunks w)"
      using False by (metis dropWhile_append1 dropWhile_eq_Nil_conv)
    then have "trim_list ?P (chunks w @ ?z) = chunks w @ (32, '' '') # ds"
      unfolding trim_list_def l rev_append by (simp only: rev_append rev_rev_ident ds d)
    then show ?thesis by (simp add: TrimSpace_def c)
  qed
qed

section \<open>Encoding and decoding\<close>

definition valid_rune :: "rune \<Rightarrow> bool" where
  "valid_rune r \<longleftrightarrow> r < 55296 \<or> (57343 < r \<and> r \<le> 1114111)"

lemma byte_char_of: "n < 256 \<Longrightarrow> byte (char_of n) = n"
  by (simp add: byte_def)

lemma cont_char_of [simp]:
  assumes "x < 64"
  shows "cont (char_of (128 + x))" "byte (char_of (128 + x)) mod 64 = x"
  using assms by (simp_all add: cont_def in_range_def byte_char_of mod_add_eq [symmetric, of 128])

lemma lead_mod: "x < k \<Longrightarrow> (a * k + x) mod k = x" for x k a :: nat
  by simp

lemma cont_mod [simp]: "x < 64 \<Longrightarrow> (128 + x) mod 64 = x" for x :: nat
  using lead_mod [of x 64 2] by simp

lemma div_div_64: "r div 64 div 64 = r div 4096" "r div 4096 div 64 = r div 262144" for r :: nat
  by (simp_all add: div_mult2_eq [symmetric])

lemma decode_encode1: "r < 128 \<Longrightarrow> decode_rune (encode_rune r @ s) = (r, 1)"
  by (simp add: encode_rune_def Let_def byte_char_of)

lemma decode_encode2:
  assumes "128 \<le> r" "r < 2048"
  shows "decode_rune (encode_rune r @ s) = (r, 2)"
proof -
  let ?h = "r div 64" and ?l = "r mod 64"
  have h: "2 \<le> ?h" "?h < 32" using assms by simp_all
  have "(192 + ?h) mod 32 = ?h" using lead_mod [of ?h 32 6] h by simp
  moreover have "?l < 64" by simp
  ultimately show ?thesis
    using assms h by (simp add: encode_rune_def Let_def byte_char_of)
qed

lemma accept2_lead3:
  "h < 16 \<Longrightarrow> m < 64 \<Longrightarrow> (h = 0 \<Longrightarrow> 32 \<le> m) \<Longrightarrow> (h = 13 \<Longrightarrow> m < 32) \<Longrightarrow>
     accept2 (224 + h) (char_of (128 + m))" for m :: nat
  by (auto simp: accept2_def in_range_def byte_char_of)

lemma accept2_lead4:
  "h < 5 \<Longrightarrow> m < 64 \<Longrightarrow> (h = 0 \<Longrightarrow> 16 \<le> m) \<Longrightarrow> (h = 4 \<Longrightarrow> m < 16) \<Longrightarrow>
     accept2 (240 + h) (char_of (128 + m))" for m :: nat
  by (auto simp: accept2_def in_range_def byte_char_of)

lemma decode_encode3:
  assumes "2048 \<le> r" "r < 65536" "r < 55296 \<or> 57343 < r"
  shows "decode_rune (encode_rune r @ s) = (r, 3)"
proof -
  let ?h = "r div 4096" and ?m = "r div 64 mod 64" and ?l = "r mod 64"
  have h: "?h < 16" using assms by simp
  have rest: "r = ?h * 4096 + ?m * 64 + ?l"
    using div_mult_mod_eq [of r 64] div_mult_mod_eq [of "r div 64" 64] unfolding div_div_64 by linarith
  have m: "?m < 64" "?l < 64" by simp_all
  have "(224 + ?h) mod 16 = ?h" using lead_mod [of ?h 16 14] h by simp
  moreover have "accept2 (224 + ?h) (char_of (128 + ?m))"
  proof -
    have e0: "?h = 0 \<Longrightarrow> 32 \<le> ?m" using assms(1) rest m by linarith
    have ed: "?h = 13 \<Longrightarrow> ?m < 32" using assms(3) rest m by linarith
    show ?thesis by (rule accept2_lead3 [OF h m(1) e0 ed])
  qed
  moreover have "encode_rune r = [char_of (224 + ?h), char_of (128 + ?m), char_of (128 + ?l)]"
    using assms by (auto simp: encode_rune_def)
  ultimately show ?thesis
    using h m by (simp add: byte_char_of rest [symmetric])
qed

lemma decode_encode4:
  assumes "65536 \<le> r" "r \<le> 1114111"
  shows "decode_rune (encode_rune r @ s) = (r, 4)"
proof -
  let ?h = "r div 262144" and ?n = "r div 4096 mod 64" and ?m = "r div 64 mod 64" and ?l = "r mod 64"
  have h: "?h < 5" using assms by simp
  have rest: "r = ?h * 262144 + ?n * 4096 + ?m * 64 + ?l"
    using div_mult_mod_eq [of r 64] div_mult_mod_eq [of "r div 64" 64]
      div_mult_mod_eq [of "r div 4096" 64] unfolding div_div_64 by linarith
  have m: "?n < 64" "?m < 64" "?l < 64" by simp_all
  have "(240 + ?h) mod 8 = ?h" using lead_mod [of ?h 8 30] h by simp
  moreover have "accept2 (240 + ?h) (char_of (128 + ?n))"
  proof -
    have f0: "?h = 0 \<Longrightarrow> 16 \<le> ?n" using assms(1) rest m by linarith
    have f4: "?h = 4 \<Longrightarrow> ?n < 16" using assms(2) rest m by linarith
    show ?thesis by (rule accept2_lead4 [OF h m(1) f0 f4])
  qed
  ultimately show ?thesis
    using assms h m by (simp add: encode_rune_def Let_def byte_char_of rest [symmetric])
qed

lemma decode_encode:
  "valid_rune r \<Longrightarrow> decode_rune (encode_rune r @ s) = (r, length (encode_rune r))"
proof -
  assume v: "valid_rune r"
  consider "r < 128" | "128 \<le> r" "r < 2048" | "2048 \<le> r" "r < 65536" | "65536 \<le> r" by linarith
  then show ?thesis
    using v by cases
      (simp_all add: decode_encode1 decode_encode2 decode_encode3 decode_encode4 valid_rune_def,
       auto simp: encode_rune_def)
qed

lemma chunks_encode:
  assumes "valid_rune r"
  shows "chunks (encode_rune r @ s) = (r, encode_rune r) # chunks s"
proof -
  have "encode_rune r \<noteq> []" by (auto simp: encode_rune_def Let_def)
  then show ?thesis by (simp add: chunks_unfold decode_encode [OF assms])
qed

lemma valid_rune_error: "valid_rune rune_error"
  by (simp add: valid_rune_def rune_error_def)

lemma decode3_valid:
  assumes "accept2 b0 c1" "cont c2" "224 \<le> b0" "b0 < 240"
  shows "valid_rune ((b0 mod 16) * 4096 + (byte c1 mod 64) * 64 + byte c2 mod 64)"
proof -
  have m: "byte c1 mod 64 < 64" "byte c2 mod 64 < 64" "b0 mod 16 < 16" by simp_all
  have h: "b0 = 224 + b0 mod 16" using assms(3,4) mod_add_eq [of 224 16 "b0 - 224"] by simp
  have "b0 = 237 \<Longrightarrow> byte c1 mod 64 < 32"
  proof -
    assume "b0 = 237"
    with assms(1) have "byte c1 = 128 + (byte c1 - 128)" "byte c1 - 128 < 32"
      by (auto simp: accept2_def in_range_def)
    then show ?thesis using cont_mod [of "byte c1 - 128"] by simp
  qed
  then have "b0 mod 16 = 13 \<Longrightarrow> byte c1 mod 64 < 32" using h by simp
  then have s: "b0 mod 16 = 13 \<Longrightarrow> byte c1 mod 64 \<le> 31" by simp
  consider "b0 mod 16 < 13" | "b0 mod 16 = 13" | "13 < b0 mod 16" by linarith
  then show ?thesis
    unfolding valid_rune_def using m s by cases linarith+
qed

lemma decode4_valid:
  assumes "accept2 b0 c1" "cont c2" "cont c3" "240 \<le> b0" "b0 \<le> 244"
  shows "valid_rune ((b0 mod 8) * 262144 + (byte c1 mod 64) * 4096 + (byte c2 mod 64) * 64 + byte c3 mod 64)"
proof -
  have m: "byte c1 mod 64 < 64" "byte c2 mod 64 < 64" "byte c3 mod 64 < 64" by simp_all
  from assms(4,5) consider "b0 = 240" | "b0 = 241" | "b0 = 242" | "b0 = 243" | "b0 = 244" by linarith
  then show ?thesis
  proof cases
    case 1
    with assms(1) have "byte c1 = 128 + (byte c1 - 128)" "byte c1 - 128 < 64" "16 \<le> byte c1 - 128"
      by (auto simp: accept2_def in_range_def)
    then have "16 \<le> byte c1 mod 64" by (metis cont_mod)
    with 1 m show ?thesis by (simp add: valid_rune_def)
  next
    case 5
    with assms(1) have "byte c1 = 128 + (byte c1 - 128)" "byte c1 - 128 < 16"
      by (auto simp: accept2_def in_range_def)
    then have "byte c1 mod 64 < 16"
      using cont_mod [of "byte c1 - 128"] by simp
    with 5 m show ?thesis by (simp add: valid_rune_def)
  qed (use m in \<open>simp_all add: valid_rune_def\<close>)
qed

lemma decode_rune_valid: "valid_rune (fst (decode_rune s))"
proof (cases s)
  case (Cons c t)
  have 2: "valid_rune (fst (decode2 (byte c) t))"
  proof -
    have "(byte c mod 32) * 64 + x mod 64 < 55296" for x
    proof -
      have "byte c mod 32 < 32" "x mod 64 < 64" by simp_all
      then show ?thesis by linarith
    qed
    then show ?thesis
      using decode2_cases [of "byte c" t] by (auto simp: valid_rune_error) (simp add: valid_rune_def)
  qed
  have 3: "224 \<le> byte c \<Longrightarrow> byte c < 240 \<Longrightarrow> valid_rune (fst (decode3 (byte c) t))"
    using decode3_cases [of "byte c" t] decode3_valid by (auto simp: valid_rune_error)
  have 4: "240 \<le> byte c \<Longrightarrow> byte c \<le> 244 \<Longrightarrow> valid_rune (fst (decode4 (byte c) t))"
    using decode4_cases [of "byte c" t] decode4_valid by (auto simp: valid_rune_error)
  show ?thesis
    using 2 3 4 by (auto simp: Cons Let_def valid_rune_error) (simp add: valid_rune_def)
qed (simp add: valid_rune_error)

lemma chunk_valid: "p \<in> set (chunks s) \<Longrightarrow> valid_rune (fst p)"
proof (induction s rule: chunks.induct)
  case (1 s)
  show ?case
  proof (cases "s = []")
    case False
    with "1.IH" [OF False refl prod.collapse] "1.prems" decode_rune_valid [of s]
    show ?thesis by (auto simp: chunks_unfold)
  qed (use "1.prems" in simp)
qed

text \<open>Only an ASCII byte decodes to a rune below 128.\<close>

lemma cont_sub: "cont c \<Longrightarrow> byte c mod 64 = byte c - 128"
  using cont_mod [of "byte c - 128"] by (auto simp: cont_def in_range_def)

lemma decode_rune_ascii:
  assumes "s \<noteq> []" and "fst (decode_rune s) < 128"
  shows "byte (hd s) < 128"
proof (rule ccontr)
  obtain c t where s: "s = c # t" using assms(1) by (cases s) auto
  assume "\<not> byte (hd s) < 128"
  then have c: "128 \<le> byte c" by (simp add: s)
  have e: "128 \<le> rune_error" by (simp add: rune_error_def)
  have 2: "194 \<le> byte c \<Longrightarrow> byte c < 224 \<Longrightarrow> 128 \<le> fst (decode2 (byte c) t)"
  proof -
    assume b: "194 \<le> byte c" "byte c < 224"
    then have "byte c mod 32 = byte c - 192" using lead_mod [of "byte c - 192" 32 6] by simp
    with b show ?thesis using decode2_cases [of "byte c" t] e by auto
  qed
  have 3: "224 \<le> byte c \<Longrightarrow> byte c < 240 \<Longrightarrow> 128 \<le> fst (decode3 (byte c) t)"
  proof -
    assume b: "224 \<le> byte c" "byte c < 240"
    then have "byte c mod 16 = byte c - 224" using lead_mod [of "byte c - 224" 16 14] by simp
    moreover have "2 \<le> byte x mod 64" if "accept2 224 x" for x
      using that cont_sub [OF accept2_cont [OF that]] by (auto simp: accept2_def in_range_def)
    ultimately show ?thesis
      using decode3_cases [of "byte c" t] e b by (cases "byte c = 224") fastforce+
  qed
  have 4: "240 \<le> byte c \<Longrightarrow> byte c \<le> 244 \<Longrightarrow> 128 \<le> fst (decode4 (byte c) t)"
  proof -
    assume b: "240 \<le> byte c" "byte c \<le> 244"
    then have "byte c mod 8 = byte c - 240" using lead_mod [of "byte c - 240" 8 30] by simp
    moreover have "1 \<le> byte x mod 64" if "accept2 240 x" for x
      using that cont_sub [OF accept2_cont [OF that]] by (auto simp: accept2_def in_range_def)
    ultimately show ?thesis
      using decode4_cases [of "byte c" t] e b by (cases "byte c = 240") fastforce+
  qed
  have "128 \<le> fst (decode_rune s)"
    using c e 2 3 4 by (auto simp: s Let_def)
  with assms(2) show False by simp
qed

lemma ascii_chunks: "list_all (\<lambda>p. fst p < 128) (chunks s) \<Longrightarrow> ascii s"
proof (induction s)
  case (Cons c s)
  have "byte c < 128"
    using Cons.prems decode_rune_ascii [of "c # s"] by (simp add: chunks_unfold)
  with Cons show ?case by (simp add: chunks_ascii_Cons)
qed simp

lemma encode_ascii: "r < 128 \<Longrightarrow> encode_rune r = [char_of r]"
  by (simp add: encode_rune_def)

definition byte_lower :: "char \<Rightarrow> char" where
  "byte_lower c = (if 65 \<le> byte c \<and> byte c \<le> 90 then char_of (byte c + 32) else c)"

definition byte_upper :: "char \<Rightarrow> char" where
  "byte_upper c = (if 97 \<le> byte c \<and> byte c \<le> 122 then char_of (byte c - 32) else c)"

lemma char_of_byte [simp]: "char_of (byte c) = c"
  by (simp add: byte_def)

lemma ToLower_ascii: "ascii s \<Longrightarrow> ToLower s = map byte_lower s"
  by (simp add: ToLower_def chunks_ascii comp_def)
    (induction s, auto simp: rune_lower_def byte_lower_def encode_ascii)

lemma ToUpper_ascii: "ascii s \<Longrightarrow> ToUpper s = map byte_upper s"
  by (simp add: ToUpper_def chunks_ascii comp_def)
    (induction s, auto simp: rune_upper_def byte_upper_def encode_ascii)

lemma ToLower_Nil [simp]: "ToLower [] = []"
  by (simp add: ToLower_def)

lemma ToUpper_Nil [simp]: "ToUpper [] = []"
  by (simp add: ToUpper_def)

lemma HasPrefix_conv: "HasPrefix s p \<longleftrightarrow> (\<exists>t. s = p @ t)"
  by (metis HasPrefix_def append_eq_conv_conj append_take_drop_id)

section \<open>Searching\<close>

lemma HasPrefix_append [simp]: "HasPrefix (p @ s) p"
  by (simp add: HasPrefix_def)

lemma HasPrefix_length: "HasPrefix s p \<Longrightarrow> length p \<le> length s"
  by (auto simp: HasPrefix_conv)

lemma Index_Some:
  "Index s p = Some i \<Longrightarrow> i + length p \<le> length s \<and> HasPrefix (drop i s) p"
proof (induction s arbitrary: i)
  case (Cons c s)
  show ?case
  proof (cases "HasPrefix (c # s) p")
    case True
    with Cons.prems HasPrefix_length [OF True] show ?thesis by simp
  next
    case False
    with Cons show ?thesis by auto
  qed
qed (auto split: if_splits simp: HasPrefix_def)

lemma Index_None: "Index s p = None \<Longrightarrow> \<not> HasPrefix (drop i s) p"
proof (induction s arbitrary: i)
  case Nil
  then show ?case by (auto split: if_splits simp: HasPrefix_def)
next
  case (Cons c s)
  then show ?case by (cases i) (auto split: if_splits)
qed

lemma Index_first: "Index s p = Some i \<Longrightarrow> j < i \<Longrightarrow> \<not> HasPrefix (drop j s) p"
proof (induction s arbitrary: i j)
  case (Cons c s)
  then show ?case by (cases j) (auto split: if_splits)
qed (auto split: if_splits)

lemma Contains_conv: "Contains s p \<longleftrightarrow> (\<exists>u v. s = u @ p @ v)"
proof
  assume "Contains s p"
  then obtain i where "Index s p = Some i" by (auto simp: Contains_def)
  from Index_Some [OF this] have "\<exists>v. drop i s = p @ v" by (simp add: HasPrefix_conv)
  then show "\<exists>u v. s = u @ p @ v" by (metis append_take_drop_id)
next
  assume "\<exists>u v. s = u @ p @ v"
  then obtain u v where "s = u @ p @ v" by blast
  then have "HasPrefix (drop (length u) s) p" by simp
  then show "Contains s p" using Index_None [of s p "length u"] by (auto simp: Contains_def)
qed

lemma Contains_sublist: "Contains s p \<Longrightarrow> Contains (u @ s @ v) p"
  unfolding Contains_conv by (metis append.assoc)

lemma LastIndex_Some:
  "LastIndex s p = Some i \<Longrightarrow> i + length p \<le> length s \<and> HasPrefix (drop i s) p"
proof (induction s arbitrary: i)
  case (Cons c s)
  then show ?case by (auto split: option.splits if_splits dest: HasPrefix_length)
qed (auto split: if_splits simp: HasPrefix_def)

lemma LastIndex_last: "LastIndex s p = Some i \<Longrightarrow> i < j \<Longrightarrow> p \<noteq> [] \<Longrightarrow> \<not> HasPrefix (drop j s) p"
  and LastIndex_None: "LastIndex s p = None \<Longrightarrow> p \<noteq> [] \<Longrightarrow> \<not> HasPrefix (drop k s) p"
proof (induction s arbitrary: i j k)
  case Nil
  { case 1 then show ?case by (auto split: if_splits) }
  { case 2 then show ?case by (auto simp: HasPrefix_def) }
next
  case (Cons c s)
  { case 1
    show ?case
    proof (cases j)
      case (Suc m)
      with 1 Cons show ?thesis by (auto split: option.splits if_splits)
    qed (use 1 in simp) }
  { case 2
    then show ?case using Cons by (cases k) (auto split: option.splits if_splits) }
qed

lemma LastIndex_append: "p \<noteq> [] \<Longrightarrow> length p = 1 \<Longrightarrow> LastIndex (s @ p) p = Some (length s)"
  by (induction s) (auto simp: HasPrefix_def length_Suc_conv)

end
