(* ===== verification/Go_Time.thy ===== *)
theory Go_Time
  imports Go_Strings
begin

text \<open>
  Decimal numerals (\<^verbatim>\<open>strconv.Itoa\<close>, \<^verbatim>\<open>strconv.Atoi\<close>) and the part of Go's \<^verbatim>\<open>time\<close> package that the
  program uses: \<^verbatim>\<open>time.Parse\<close> and \<^verbatim>\<open>Time.Format\<close> for layouts made of days, months, years and
  literal text. A layout string is cut into its elements as \<^verbatim>\<open>nextStdChunk\<close> does, for the elements
  that occur in the program's layouts (\<^verbatim>\<open>January\<close>, \<^verbatim>\<open>Jan\<close>, \<^verbatim>\<open>01\<close>, \<^verbatim>\<open>1\<close>, \<^verbatim>\<open>02\<close>, \<^verbatim>\<open>2\<close>, \<^verbatim>\<open>2006\<close>, \<^verbatim>\<open>06\<close>),
  and a value is read element by element. A parse error is \<open>None\<close>.
\<close>

section \<open>Decimal numerals\<close>

definition is_digit :: "char \<Rightarrow> bool" where
  "is_digit c = in_range 48 57 c"

definition digit_val :: "char \<Rightarrow> nat" where
  "digit_val c = byte c - 48"

definition digit_char :: "nat \<Rightarrow> char" where
  "digit_char n = char_of (48 + n)"

fun dec :: "nat \<Rightarrow> string" where
  "dec n = (if n < 10 then [digit_char n] else dec (n div 10) @ [digit_char (n mod 10)])"

declare dec.simps [simp del]

definition dec_val :: "string \<Rightarrow> nat" where
  "dec_val s = foldl (\<lambda>a c. 10 * a + digit_val c) 0 s"

definition pad :: "nat \<Rightarrow> nat \<Rightarrow> string" where
  "pad w n = replicate (w - length (dec n)) (CHR ''0'') @ dec n"

text \<open>\<^verbatim>\<open>time.appendInt\<close>.\<close>

definition append_int :: "int \<Rightarrow> nat \<Rightarrow> string" where
  "append_int x w = (if x < 0 then ''-'' else []) @ pad w (nat \<bar>x\<bar>)"

text \<open>The internal \<^verbatim>\<open>atoi\<close> of package \<^verbatim>\<open>time\<close>: an optional sign, then digits only.\<close>

definition unsign :: "string \<Rightarrow> bool \<times> string" where
  "unsign s =
     (case s of
        [] \<Rightarrow> (False, [])
      | c # t \<Rightarrow> if c = CHR ''-'' then (True, t) else if c = CHR ''+'' then (False, t) else (False, s))"

definition atoi :: "string \<Rightarrow> int option" where
  "atoi s =
     (let (neg, t) = unsign s in
      if list_all is_digit t then Some (if neg then - int (dec_val t) else int (dec_val t)) else None)"

lemma byte_digit_char: "n < 10 \<Longrightarrow> byte (digit_char n) = 48 + n"
  by (simp add: byte_def digit_char_def)

lemma is_digit_digit_char [simp]: "n < 10 \<Longrightarrow> is_digit (digit_char n)"
  by (simp add: is_digit_def in_range_def byte_digit_char)

lemma digit_val_digit_char [simp]: "n < 10 \<Longrightarrow> digit_val (digit_char n) = n"
  by (simp add: digit_val_def byte_digit_char)

lemma digit_val_less: "is_digit c \<Longrightarrow> digit_val c < 10"
  by (auto simp: is_digit_def in_range_def digit_val_def)

lemma digit_char_val [simp]: "is_digit c \<Longrightarrow> digit_char (digit_val c) = c"
  by (auto simp: is_digit_def in_range_def digit_val_def digit_char_def byte_def)

lemma digit_val_inj: "is_digit c \<Longrightarrow> is_digit d \<Longrightarrow> digit_val c = digit_val d \<Longrightarrow> c = d"
  by (metis digit_char_val)

lemma digit_ascii: "is_digit c \<Longrightarrow> byte c < 128"
  by (auto simp: is_digit_def in_range_def)

lemma digit_not_space: "is_digit c \<Longrightarrow> \<not> IsSpace (byte c)"
  by (auto simp: is_digit_def in_range_def IsSpace_def)

lemma dec_digits: "list_all is_digit (dec n)"
proof (induction n rule: dec.induct)
  case (1 n)
  then show ?case by (subst dec.simps) auto
qed

lemma dec_nonempty [simp]: "dec n \<noteq> []"
  by (subst dec.simps) simp

lemma dec_val_append1: "dec_val (s @ [c]) = 10 * dec_val s + digit_val c"
  by (simp add: dec_val_def)

lemma dec_val_dec [simp]: "dec_val (dec n) = n"
proof (induction n rule: dec.induct)
  case (1 n)
  show ?case
  proof (cases "n < 10")
    case True
    then show ?thesis by (subst dec.simps) (simp add: dec_val_def)
  next
    case False
    with "1.IH" show ?thesis by (subst dec.simps) (simp add: dec_val_append1)
  qed
qed

lemma dec_inj: "dec m = dec n \<Longrightarrow> m = n"
  by (metis dec_val_dec)

lemma digit_char_0: "digit_char 0 = CHR ''0''"
  by code_simp

lemma replicate_2_3: "replicate 2 x = [x, x]" "replicate 3 x = [x, x, x]"
  by (simp_all add: numeral_eq_Suc)

lemma pad_2: "n < 100 \<Longrightarrow> pad 2 n = [digit_char (n div 10), digit_char (n mod 10)]"
  by (auto simp: pad_def dec.simps [of n] dec.simps [of "n div 10"] digit_char_0)

lemma pad_4:
  assumes "n < 10000"
  shows "pad 4 n = [digit_char (n div 1000), digit_char (n div 100 mod 10),
                    digit_char (n div 10 mod 10), digit_char (n mod 10)]"
proof -
  have d: "n div 10 div 10 = n div 100" "n div 100 div 10 = n div 1000"
    by (simp_all add: div_mult2_eq [symmetric])
  consider "n < 10" | "10 \<le> n" "n < 100" | "100 \<le> n" "n < 1000" | "1000 \<le> n"
    by linarith
  then show ?thesis
  proof cases
    case 1
    then show ?thesis by (simp add: pad_def dec.simps [of n] digit_char_0 replicate_2_3)
  next
    case 2
    then have "n div 10 < 10" by simp
    with 2 show ?thesis
      by (simp add: pad_def dec.simps [of n] dec.simps [of "n div 10"] digit_char_0 replicate_2_3)
  next
    case 3
    then have "n div 100 < 10" and "\<not> n div 10 < 10" by simp_all
    with 3 have "dec n = [digit_char (n div 100), digit_char (n div 10 mod 10), digit_char (n mod 10)]"
      by (simp add: dec.simps [of n] dec.simps [of "n div 10"] dec.simps [of "n div 100"] d)
    with 3 show ?thesis by (simp add: pad_def digit_char_0)
  next
    case 4
    with assms have "\<not> n div 100 < 10" and "\<not> n div 10 < 10" and "n div 1000 < 10" by simp_all
    with 4 have "dec n = [digit_char (n div 1000), digit_char (n div 100 mod 10),
        digit_char (n div 10 mod 10), digit_char (n mod 10)]"
      by (simp add: dec.simps [of n] dec.simps [of "n div 10"] dec.simps [of "n div 100"]
          dec.simps [of "n div 1000"] d)
    then show ?thesis by (simp add: pad_def)
  qed
qed

section \<open>Layouts\<close>

datatype std = StdLongMonth | StdMonth | StdZeroMonth | StdNumMonth | StdZeroDay | StdDay
  | StdLongYear | StdYear

datatype layout_item = Lit string | Std std

definition starts_lower :: "string \<Rightarrow> bool" where
  "starts_lower s = (case s of [] \<Rightarrow> False | c # _ \<Rightarrow> in_range 97 122 c)"

definition next_std :: "string \<Rightarrow> (std \<times> nat) option" where
  "next_std l =
     (if HasPrefix l ''January'' then Some (StdLongMonth, 7)
      else if HasPrefix l ''Jan'' \<and> \<not> starts_lower (drop 3 l) then Some (StdMonth, 3)
      else if HasPrefix l ''01'' then Some (StdZeroMonth, 2)
      else if HasPrefix l ''02'' then Some (StdZeroDay, 2)
      else if HasPrefix l ''06'' then Some (StdYear, 2)
      else if HasPrefix l ''1'' then Some (StdNumMonth, 1)
      else if HasPrefix l ''2006'' then Some (StdLongYear, 4)
      else if HasPrefix l ''2'' then Some (StdDay, 1)
      else None)"

definition cons_lit :: "char \<Rightarrow> layout_item list \<Rightarrow> layout_item list" where
  "cons_lit c is = (case is of Lit p # js \<Rightarrow> Lit (c # p) # js | _ \<Rightarrow> Lit [c] # is)"

function layout_items :: "string \<Rightarrow> layout_item list" where
  "layout_items [] = []"
| "layout_items (c # l) =
     (case next_std (c # l) of
        Some (k, n) \<Rightarrow> Std k # layout_items (drop n (c # l))
      | None \<Rightarrow> cons_lit c (layout_items l))"
  by pat_completeness auto
termination
proof (relation "measure length")
  fix c l p k n
  assume "next_std (c # l) = Some p" and "(k, n) = p"
  then have "0 < n" by (auto simp: next_std_def split: if_splits)
  then show "(drop n (c # l), c # l) \<in> measure length" by simp
qed simp_all

section \<open>Parsing\<close>

text \<open>\<^verbatim>\<open>time.skip\<close>: a space in the layout matches any run of spaces, or the end of the value.\<close>

definition cutspace :: "string \<Rightarrow> string" where
  "cutspace s = dropWhile (\<lambda>c. c = CHR '' '') s"

lemma length_cutspace: "length (cutspace s) \<le> length s"
  by (simp add: cutspace_def length_dropWhile_le)

function skip :: "string \<Rightarrow> string \<Rightarrow> string option" where
  "skip v [] = Some v"
| "skip v (c # p) =
     (if c = CHR '' '' then
        (if v \<noteq> [] \<and> hd v \<noteq> CHR '' '' then None else skip (cutspace v) (cutspace p))
      else if v = [] \<or> hd v \<noteq> c then None
      else skip (tl v) p)"
  by pat_completeness auto
termination
  by (relation "measure (\<lambda>(v, p). length p)") (auto simp: length_cutspace less_Suc_eq_le)

text \<open>\<^verbatim>\<open>time.getnum\<close>: one or two digits, exactly two when \<open>fixed\<close>.\<close>

fun getnum :: "string \<Rightarrow> bool \<Rightarrow> (nat \<times> string) option" where
  "getnum [] fixed = None"
| "getnum [c] fixed = (if is_digit c \<and> \<not> fixed then Some (digit_val c, []) else None)"
| "getnum (c # d # s) fixed =
     (if \<not> is_digit c then None
      else if \<not> is_digit d then (if fixed then None else Some (digit_val c, d # s))
      else Some (digit_val c * 10 + digit_val d, s))"

text \<open>\<^verbatim>\<open>time.match\<close>: equality of ASCII letters up to case, on strings of one length.\<close>

definition byte_or_20 :: "char \<Rightarrow> nat" where
  "byte_or_20 c = (if byte c div 32 mod 2 = 1 then byte c else byte c + 32)"

definition match_byte :: "char \<Rightarrow> char \<Rightarrow> bool" where
  "match_byte c d \<longleftrightarrow>
     c = d \<or> (byte_or_20 c = byte_or_20 d \<and> 97 \<le> byte_or_20 c \<and> byte_or_20 c \<le> 122)"

fun lookup_name :: "string list \<Rightarrow> string \<Rightarrow> (nat \<times> string) option" where
  "lookup_name [] v = None"
| "lookup_name (n # ns) v =
     (if length n \<le> length v \<and> list_all2 match_byte (take (length n) v) n
      then Some (0, drop (length n) v)
      else map_option (\<lambda>(i, r). (Suc i, r)) (lookup_name ns v))"

definition longMonthNames :: "string list" where
  "longMonthNames = [''January'', ''February'', ''March'', ''April'', ''May'', ''June'', ''July'',
     ''August'', ''September'', ''October'', ''November'', ''December'']"

definition shortMonthNames :: "string list" where
  "shortMonthNames = [''Jan'', ''Feb'', ''Mar'', ''Apr'', ''May'', ''Jun'', ''Jul'', ''Aug'',
     ''Sep'', ''Oct'', ''Nov'', ''Dec'']"

text \<open>The date read so far; Go starts month and day at \<^verbatim>\<open>-1\<close>, here \<open>None\<close>, and the year at 0.\<close>

record date_acc =
  acc_year :: int
  acc_month :: "nat option"
  acc_day :: "nat option"

definition parse_std :: "std \<Rightarrow> string \<Rightarrow> date_acc \<Rightarrow> (string \<times> date_acc) option" where
  "parse_std k v a =
     (case k of
        StdYear \<Rightarrow>
          (if length v < 2 then None
           else case atoi (take 2 v) of
             None \<Rightarrow> None
           | Some y \<Rightarrow> Some (drop 2 v, a\<lparr>acc_year := (if 69 \<le> y then y + 1900 else y + 2000)\<rparr>))
      | StdLongYear \<Rightarrow>
          (if length v < 4 \<or> \<not> is_digit (hd v) then None
           else case atoi (take 4 v) of
             None \<Rightarrow> None
           | Some y \<Rightarrow> Some (drop 4 v, a\<lparr>acc_year := y\<rparr>))
      | StdMonth \<Rightarrow>
          map_option (\<lambda>(i, r). (r, a\<lparr>acc_month := Some (i + 1)\<rparr>)) (lookup_name shortMonthNames v)
      | StdLongMonth \<Rightarrow>
          map_option (\<lambda>(i, r). (r, a\<lparr>acc_month := Some (i + 1)\<rparr>)) (lookup_name longMonthNames v)
      | StdDay \<Rightarrow> map_option (\<lambda>(n, r). (r, a\<lparr>acc_day := Some n\<rparr>)) (getnum v False)
      | StdZeroDay \<Rightarrow> map_option (\<lambda>(n, r). (r, a\<lparr>acc_day := Some n\<rparr>)) (getnum v True)
      | _ \<Rightarrow>
          (case getnum v (k = StdZeroMonth) of
             None \<Rightarrow> None
           | Some (n, r) \<Rightarrow> if n = 0 \<or> 12 < n then None else Some (r, a\<lparr>acc_month := Some n\<rparr>)))"

fun parse_items :: "layout_item list \<Rightarrow> string \<Rightarrow> date_acc \<Rightarrow> date_acc option" where
  "parse_items [] v a = (if v = [] then Some a else None)"
| "parse_items (Lit p # is) v a =
     (case skip v p of None \<Rightarrow> None | Some v' \<Rightarrow> parse_items is v' a)"
| "parse_items (Std k # is) v a =
     (case parse_std k v a of None \<Rightarrow> None | Some (v', a') \<Rightarrow> parse_items is v' a')"

definition isLeap :: "int \<Rightarrow> bool" where
  "isLeap y \<longleftrightarrow> y mod 4 = 0 \<and> (y mod 100 \<noteq> 0 \<or> y mod 400 = 0)"

definition daysIn :: "nat \<Rightarrow> int \<Rightarrow> nat" where
  "daysIn m y =
     (if m = 2 then (if isLeap y then 29 else 28)
      else 30 + (m + m div 8) mod 2)"

record date =
  year :: int
  month :: nat
  day :: nat

definition valid_date :: "date \<Rightarrow> bool" where
  "valid_date t \<longleftrightarrow>
     0 \<le> year t \<and> year t \<le> 9999 \<and> 1 \<le> month t \<and> month t \<le> 12
     \<and> 1 \<le> day t \<and> day t \<le> daysIn (month t) (year t)"

definition time_Parse :: "string \<Rightarrow> string \<Rightarrow> date option" where
  "time_Parse layout v =
     (case parse_items (layout_items layout) v \<lparr>acc_year = 0, acc_month = None, acc_day = None\<rparr> of
        None \<Rightarrow> None
      | Some a \<Rightarrow>
          (let m = (case acc_month a of None \<Rightarrow> 1 | Some m \<Rightarrow> m);
               d = (case acc_day a of None \<Rightarrow> 1 | Some d \<Rightarrow> d) in
           if d < 1 \<or> daysIn m (acc_year a) < d then None
           else Some \<lparr>year = acc_year a, month = m, day = d\<rparr>))"

text \<open>\<^verbatim>\<open>Time.Format\<close>, for the elements above.\<close>

definition format_std :: "std \<Rightarrow> date \<Rightarrow> string" where
  "format_std k t =
     (case k of
        StdLongYear \<Rightarrow> append_int (year t) 4
      | StdYear \<Rightarrow> append_int (year t mod 100) 2
      | StdZeroMonth \<Rightarrow> pad 2 (month t)
      | StdNumMonth \<Rightarrow> dec (month t)
      | StdMonth \<Rightarrow> shortMonthNames ! (month t - 1)
      | StdLongMonth \<Rightarrow> longMonthNames ! (month t - 1)
      | StdZeroDay \<Rightarrow> pad 2 (day t)
      | StdDay \<Rightarrow> dec (day t))"

fun format_items :: "layout_item list \<Rightarrow> date \<Rightarrow> string" where
  "format_items [] t = []"
| "format_items (Lit p # is) t = p @ format_items is t"
| "format_items (Std k # is) t = format_std k t @ format_items is t"

definition time_Format :: "string \<Rightarrow> date \<Rightarrow> string" where
  "time_Format layout t = format_items (layout_items layout) t"

section \<open>Parsed dates are calendar dates\<close>

definition acc_ok :: "date_acc \<Rightarrow> bool" where
  "acc_ok a \<longleftrightarrow>
     0 \<le> acc_year a \<and> acc_year a \<le> 9999
     \<and> (\<forall>m. acc_month a = Some m \<longrightarrow> 1 \<le> m \<and> m \<le> 12)"

lemma dec_val_bound: "list_all is_digit s \<Longrightarrow> dec_val s < 10 ^ length s"
proof (induction s rule: rev_induct)
  case (snoc c s)
  then have "dec_val s < 10 ^ length s" and "digit_val c < 10"
    by (auto dest: digit_val_less)
  then show ?case by (simp add: dec_val_append1)
qed (simp add: dec_val_def)

lemma atoi_bound:
  assumes "atoi s = Some y" shows "\<bar>y\<bar> < 10 ^ length s"
proof -
  obtain neg t where u: "unsign s = (neg, t)" by (cases "unsign s")
  then have le: "length t \<le> length s"
    by (auto simp: unsign_def split: list.splits if_splits)
  from assms u have "list_all is_digit t" and y: "\<bar>y\<bar> = int (dec_val t)"
    by (auto simp: atoi_def split: if_splits)
  from dec_val_bound [OF this(1)] have "int (dec_val t) < int (10 ^ length t)"
    by (simp only: of_nat_less_iff)
  also have "\<dots> \<le> 10 ^ length s" using le by (simp add: power_increasing)
  finally show ?thesis by (simp add: y)
qed

lemma atoi_digit_hd:
  assumes "s \<noteq> []" and "is_digit (hd s)"
  shows "atoi s = (if list_all is_digit s then Some (int (dec_val s)) else None)"
proof -
  have "hd s \<noteq> CHR ''-'' \<and> hd s \<noteq> CHR ''+''"
    using assms(2) by (auto simp: is_digit_def in_range_def byte_def)
  with assms(1) have "unsign s = (False, s)"
    by (cases s) (auto simp: unsign_def)
  then show ?thesis by (simp add: atoi_def)
qed

lemma lookup_name_bound: "lookup_name ns v = Some (i, r) \<Longrightarrow> i < length ns"
  by (induction ns v arbitrary: i r rule: lookup_name.induct) (auto split: if_splits)

lemma length_monthNames: "length longMonthNames = 12" "length shortMonthNames = 12"
  by (simp_all add: longMonthNames_def shortMonthNames_def)

lemma parse_std_ok:
  assumes p: "parse_std k v a = Some (v', a')" and a: "acc_ok a"
  shows "acc_ok a'"
proof -
  have short: "0 \<le> (if 69 \<le> y then y + 1900 else y + 2000) \<and>
      (if 69 \<le> y then y + 1900 else y + 2000) \<le> 9999"
    if "atoi (take 2 v) = Some y" and "2 \<le> length v" for y
  proof -
    have "length (take 2 v) = 2" using that(2) by simp
    with atoi_bound [OF that(1)] show ?thesis by auto
  qed
  have long: "0 \<le> y \<and> y \<le> 9999"
    if "atoi (take 4 v) = Some y" and "4 \<le> length v" and "is_digit (hd v)" for y
  proof -
    have "length (take 4 v) = 4" using that(2) by simp
    moreover have "0 \<le> y"
      using atoi_digit_hd [of "take 4 v"] that by (cases v) (auto split: if_splits)
    ultimately show ?thesis using atoi_bound [OF that(1)] by simp
  qed
  show ?thesis
    using p a short long lookup_name_bound [of longMonthNames v] lookup_name_bound [of shortMonthNames v]
    by (cases k)
      (auto simp: parse_std_def acc_ok_def length_monthNames not_less
        split: option.splits if_splits prod.splits)
qed

lemma parse_items_ok: "parse_items is v a = Some a' \<Longrightarrow> acc_ok a \<Longrightarrow> acc_ok a'"
  by (induction "is" v a rule: parse_items.induct)
    (auto split: option.splits if_splits dest: parse_std_ok)

lemma time_Parse_valid:
  assumes "time_Parse layout v = Some t" shows "valid_date t"
proof -
  let ?z = "\<lparr>acc_year = 0, acc_month = None, acc_day = None\<rparr>"
  obtain a where a: "parse_items (layout_items layout) v ?z = Some a"
    using assms by (auto simp: time_Parse_def split: option.splits)
  have "acc_ok ?z" by (simp add: acc_ok_def)
  with a have "acc_ok a" by (rule parse_items_ok)
  with assms a show ?thesis
    by (auto simp: time_Parse_def valid_date_def acc_ok_def Let_def split: if_splits option.splits)
qed

section \<open>Reading back a formatted date\<close>

lemma layout_iso: "layout_items ''2006-01-02'' = [Std StdLongYear, Lit ''-'', Std StdZeroMonth, Lit ''-'', Std StdZeroDay]"
  by (simp add: next_std_def HasPrefix_def cons_lit_def starts_lower_def)

lemma layout_iso_month: "layout_items ''2006-01'' = [Std StdLongYear, Lit ''-'', Std StdZeroMonth]"
  by (simp add: next_std_def HasPrefix_def cons_lit_def starts_lower_def)

lemma layout_numeric:
  "layout_items ''02/01/2006'' = [Std StdZeroDay, Lit ''/'', Std StdZeroMonth, Lit ''/'', Std StdLongYear]"
  "layout_items ''2/1/2006'' = [Std StdDay, Lit ''/'', Std StdNumMonth, Lit ''/'', Std StdLongYear]"
  "layout_items ''02/01/06'' = [Std StdZeroDay, Lit ''/'', Std StdZeroMonth, Lit ''/'', Std StdYear]"
  "layout_items ''2/1/06'' = [Std StdDay, Lit ''/'', Std StdNumMonth, Lit ''/'', Std StdYear]"
  "layout_items ''2006/01/02'' = [Std StdLongYear, Lit ''/'', Std StdZeroMonth, Lit ''/'', Std StdZeroDay]"
  "layout_items ''2006/1/2'' = [Std StdLongYear, Lit ''/'', Std StdNumMonth, Lit ''/'', Std StdDay]"
  by (simp_all add: next_std_def HasPrefix_def cons_lit_def starts_lower_def)

lemma layout_month:
  "layout_items ''2006/01'' = [Std StdLongYear, Lit ''/'', Std StdZeroMonth]"
  "layout_items ''2006/1'' = [Std StdLongYear, Lit ''/'', Std StdNumMonth]"
  "layout_items ''01/2006'' = [Std StdZeroMonth, Lit ''/'', Std StdLongYear]"
  "layout_items ''1/2006'' = [Std StdNumMonth, Lit ''/'', Std StdLongYear]"
  "layout_items ''01/06'' = [Std StdZeroMonth, Lit ''/'', Std StdYear]"
  "layout_items ''1/06'' = [Std StdNumMonth, Lit ''/'', Std StdYear]"
  "layout_items ''January 2006'' = [Std StdLongMonth, Lit '' '', Std StdLongYear]"
  "layout_items ''Jan 2006'' = [Std StdMonth, Lit '' '', Std StdLongYear]"
  "layout_items ''January/2006'' = [Std StdLongMonth, Lit ''/'', Std StdLongYear]"
  "layout_items ''Jan/2006'' = [Std StdMonth, Lit ''/'', Std StdLongYear]"
  by (simp_all add: next_std_def HasPrefix_def cons_lit_def starts_lower_def in_range_def byte_def)

definition year4 :: "int \<Rightarrow> string" where
  "year4 y = append_int y 4"

lemma year4_digits:
  assumes "0 \<le> y" and "y \<le> 9999"
  obtains a b c d where "year4 y = [a, b, c, d]"
    and "is_digit a" "is_digit b" "is_digit c" "is_digit d" and "int (dec_val [a, b, c, d]) = y"
proof -
  let ?n = "nat y"
  have n: "?n < 10000" using assms by simp
  have d: "k div 10 div 10 = k div 100" "k div 100 div 10 = k div 1000" for k :: nat
    by (simp_all add: div_mult2_eq [symmetric])
  have "1000 * (k div 1000) + 100 * (k div 100 mod 10) + 10 * (k div 10 mod 10) + k mod 10 = k"
    for k :: nat
    using div_mult_mod_eq [of k 10] div_mult_mod_eq [of "k div 10" 10]
      div_mult_mod_eq [of "k div 100" 10] unfolding d by linarith
  then have "dec_val [digit_char (?n div 1000), digit_char (?n div 100 mod 10),
      digit_char (?n div 10 mod 10), digit_char (?n mod 10)] = ?n"
    using n by (simp add: dec_val_def)
  moreover have "?n div 1000 < 10" using n by simp
  ultimately show ?thesis
    using n assms
    by (intro that [of "digit_char (?n div 1000)" "digit_char (?n div 100 mod 10)"
          "digit_char (?n div 10 mod 10)" "digit_char (?n mod 10)"])
      (simp_all add: year4_def append_int_def pad_4)
qed

lemma pad2_digits:
  assumes "n < 100"
  obtains a b where "pad 2 n = [a, b]" and "is_digit a" "is_digit b"
    and "digit_val a * 10 + digit_val b = n"
  using assms
  by (intro that [of "digit_char (n div 10)" "digit_char (n mod 10)"]) (simp_all add: pad_2)

lemma valid_date_bounds:
  assumes "valid_date t" shows "month t < 100" "day t < 100"
proof -
  have "day t \<le> 31"
    using assms by (auto simp: valid_date_def daysIn_def split: if_splits)
  then show "day t < 100" by simp
  show "month t < 100" using assms by (simp add: valid_date_def)
qed

end
