(* ===== verification/Normalize.thy ===== *)
theory Normalize
  imports Go_Time
begin

text \<open>
  Package \<^verbatim>\<open>internal/normalize\<close>: digit extraction, the Brazilian identifiers CPF, CNPJ and CEP with
  their check digits, and the reading of dates. A Go \<^verbatim>\<open>int\<close> sum of at most thirteen products of
  digits stays below 1200, so the sums are natural numbers.
\<close>

section \<open>Operations\<close>

definition DigitsOnly :: "string \<Rightarrow> string" where
  "DigitsOnly s = filter is_digit s"

definition Deref :: "string option \<Rightarrow> string" where
  "Deref p = (case p of None \<Rightarrow> [] | Some s \<Rightarrow> s)"

definition allSameDigits :: "string \<Rightarrow> bool" where
  "allSameDigits s = list_all (\<lambda>i. s ! i = s ! 0) [1..<length s]"

text \<open>\<^verbatim>\<open>for i := 0; i < n; i++ { sum += d[i] * w[i] }\<close>\<close>

definition weighted_sum :: "nat list \<Rightarrow> nat list \<Rightarrow> nat" where
  "weighted_sum d w = sum_list (map2 (*) d w)"

definition digits_of :: "string \<Rightarrow> nat list" where
  "digits_of s = map digit_val s"

definition ValidCPF :: "string \<Rightarrow> bool" where
  "ValidCPF s0 =
     (let s = DigitsOnly s0 in
      if length s \<noteq> 11 \<or> allSameDigits s then False
      else
        let d = digits_of s;
            r1 = (weighted_sum (take 9 d) (map (\<lambda>i. 10 - i) [0..<9]) * 10) mod 11;
            r1 = (if r1 = 10 then 0 else r1) in
        if r1 \<noteq> d ! 9 then False
        else
          let r2 = (weighted_sum (take 10 d) (map (\<lambda>i. 11 - i) [0..<10]) * 10) mod 11;
              r2 = (if r2 = 10 then 0 else r2) in
          r2 = d ! 10)"

definition ValidCNPJ :: "string \<Rightarrow> bool" where
  "ValidCNPJ s0 =
     (let s = DigitsOnly s0 in
      if length s \<noteq> 14 \<or> allSameDigits s then False
      else
        let d = digits_of s;
            r = weighted_sum (take 12 d) [5, 4, 3, 2, 9, 8, 7, 6, 5, 4, 3, 2] mod 11;
            dv1 = (if 2 \<le> r then 11 - r else 0) in
        if dv1 \<noteq> d ! 12 then False
        else
          let r = weighted_sum (take 13 d) [6, 5, 4, 3, 2, 9, 8, 7, 6, 5, 4, 3, 2] mod 11;
              dv2 = (if 2 \<le> r then 11 - r else 0) in
          dv2 = d ! 13)"

definition CPF :: "string \<Rightarrow> string" where
  "CPF s = (let d = DigitsOnly s in if \<not> ValidCPF d then [] else d)"

definition CNPJ :: "string \<Rightarrow> string" where
  "CNPJ s = (let d = DigitsOnly s in if \<not> ValidCNPJ d then [] else d)"

definition CEP :: "string \<Rightarrow> string" where
  "CEP s = (let d = DigitsOnly s in if length d \<noteq> 8 then [] else d)"

definition collapseSpaces :: "string \<Rightarrow> string" where
  "collapseSpaces s = Join (Fields s) '' ''"

definition slashes :: "string \<Rightarrow> string" where
  "slashes s = collapseSpaces (ReplaceByte (ReplaceByte s (CHR ''.'') (CHR ''/'')) (CHR ''-'') (CHR ''/''))"

definition layouts :: "string list" where
  "layouts = [''02/01/2006'', ''2/1/2006'', ''02/01/06'', ''2/1/06'', ''2006/01/02'', ''2006/1/2'']"

text \<open>The loop over the layouts: the first one that parses.\<close>

fun parse_first :: "string list \<Rightarrow> string \<Rightarrow> date option" where
  "parse_first [] s = None"
| "parse_first (l # ls) s =
     (case time_Parse l s of Some t \<Rightarrow> Some t | None \<Rightarrow> parse_first ls s)"

lemma length_slashes: "length (slashes s) \<le> length s"
  using length_Join_Fields [of "ReplaceByte (ReplaceByte s (CHR ''.'') (CHR ''/'')) (CHR ''-'') (CHR ''/'')"]
  by (simp add: slashes_def collapseSpaces_def ReplaceByte_def)

function DateToISO :: "string \<Rightarrow> string option" where
  "DateToISO s0 =
     (let s = TrimSpace s0 in
      if s = [] then None
      else
        let s = slashes s in
        case parse_first layouts s of
          Some t \<Rightarrow> Some (time_Format ''2006-01-02'' t)
        | None \<Rightarrow>
            (case before_space s of
               Some p \<Rightarrow> (if p \<noteq> [] then DateToISO p else None)
             | None \<Rightarrow> None))"
  by pat_completeness auto
termination
proof (relation "measure length")
  fix s0 s s' p
  assume "s = TrimSpace s0" and "s' = slashes s" and "before_space s' = Some p"
  then have "length p < length s0"
    using length_before_space [of s' p] length_slashes [of s] length_TrimSpace [of s0] by simp
  then show "(p, s0) \<in> measure length" by simp
qed simp

declare DateToISO.simps [simp del]

section \<open>Digits\<close>

lemma DigitsOnly_idem [simp]: "DigitsOnly (DigitsOnly s) = DigitsOnly s"
  by (simp add: DigitsOnly_def)

lemma DigitsOnly_digits: "list_all is_digit (DigitsOnly s)"
  by (auto simp: DigitsOnly_def list_all_iff)

lemma DigitsOnly_id: "list_all is_digit s \<Longrightarrow> DigitsOnly s = s"
  by (simp add: DigitsOnly_def list_all_iff)

lemma DigitsOnly_Nil [simp]: "DigitsOnly [] = []"
  by (simp add: DigitsOnly_def)

section \<open>Identifiers with two modulo-11 check digits\<close>

text \<open>
  The published rule for both identifiers: a check digit is 11 minus the weighted sum of the
  digits before it modulo 11, or 0 when that remainder is 0 or 1.
\<close>

definition check_digit :: "nat list \<Rightarrow> nat list \<Rightarrow> nat" where
  "check_digit w d = (let r = weighted_sum d w mod 11 in if r < 2 then 0 else 11 - r)"

definition mod11_rule :: "nat \<Rightarrow> nat list \<Rightarrow> nat list \<Rightarrow> string \<Rightarrow> bool" where
  "mod11_rule n w1 w2 s \<longleftrightarrow>
     length s = n + 2 \<and> \<not> allSameDigits s
     \<and> digits_of s ! n = check_digit w1 (take n (digits_of s))
     \<and> digits_of s ! (n + 1) = check_digit w2 (take (n + 1) (digits_of s))"

lemma check_digit_less: "check_digit w d < 10"
  by (auto simp: check_digit_def Let_def)

text \<open>The rule as CPF code writes it: ten times the sum modulo 11, with ten read as zero.\<close>

lemma mod11_times10: "(let r = (s * 10) mod 11 in if r = 10 then 0 else r) =
    (let r = s mod 11 in if r < 2 then 0 else 11 - r)" for s :: nat
proof -
  have "list_all (\<lambda>r. (if (r * 10) mod 11 = 10 then 0 else (r * 10) mod 11) =
      (if r < 2 then 0 else 11 - r)) [0..<11::nat]"
    by code_simp
  moreover have "s mod 11 \<in> set [0..<11]" by simp
  ultimately have "(if ((s mod 11) * 10) mod 11 = 10 then 0 else ((s mod 11) * 10) mod 11) =
      (if s mod 11 < 2 then 0 else 11 - s mod 11)"
    unfolding list_all_iff by blast
  then show ?thesis unfolding mod_mult_left_eq by (simp add: Let_def)
qed

lemma mod11_rule_append:
  "mod11_rule (length b) w1 w2 (b @ [x, y]) \<longleftrightarrow>
     \<not> allSameDigits (b @ [x, y])
     \<and> digit_val x = check_digit w1 (digits_of b)
     \<and> digit_val y = check_digit w2 (digits_of b @ [digit_val x])"
proof -
  have "length (digits_of b) = length b" by (simp add: digits_of_def)
  then show ?thesis by (auto simp: mod11_rule_def nth_append digits_of_def)
qed

locale mod11_identifier =
  fixes valid :: "string \<Rightarrow> bool" and clean :: "string \<Rightarrow> string"
    and n :: nat and w1 w2 :: "nat list"
  assumes valid_iff: "valid s \<longleftrightarrow> mod11_rule n w1 w2 (DigitsOnly s)"
    and clean_eq: "clean s = (if valid (DigitsOnly s) then DigitsOnly s else [])"
begin

lemma valid_clean: "clean s \<noteq> [] \<Longrightarrow> valid (clean s)"
  by (simp add: clean_eq split: if_splits)

lemma clean_digits: "list_all is_digit (clean s)"
  by (simp add: clean_eq DigitsOnly_digits)

lemma clean_length: "clean s = [] \<or> length (clean s) = n + 2"
  by (simp add: clean_eq valid_iff mod11_rule_def)

lemma clean_idem: "clean (clean s) = clean s"
  by (simp add: clean_eq)

lemma clean_complete: "list_all is_digit s \<Longrightarrow> valid s \<Longrightarrow> clean s = s"
  by (simp add: clean_eq DigitsOnly_id)

text \<open>The base digits determine the check digits.\<close>

lemma completion_unique:
  assumes "list_all is_digit b" "list_all is_digit u" "list_all is_digit v"
    and "length b = n" "length u = 2" "length v = 2"
    and "valid (b @ u)" "valid (b @ v)"
  shows "u = v"
proof -
  obtain u1 u2 where u: "u = [u1, u2]" using assms(5) by (auto simp: numeral_2_eq_2 length_Suc_conv)
  obtain v1 v2 where v: "v = [v1, v2]" using assms(6) by (auto simp: numeral_2_eq_2 length_Suc_conv)
  have d: "DigitsOnly (b @ u) = b @ u" "DigitsOnly (b @ v) = b @ v"
    using assms(1-3) by (simp_all add: DigitsOnly_id)
  have "mod11_rule n w1 w2 (b @ u)" "mod11_rule n w1 w2 (b @ v)"
    using assms(7,8) by (simp_all add: valid_iff d)
  then have "digit_val u1 = digit_val v1" and "digit_val u2 = digit_val v2"
    unfolding u v assms(4) [symmetric] mod11_rule_append by simp_all
  then show ?thesis
    using assms(2,3) by (auto simp: u v intro: digit_val_inj)
qed

text \<open>Every base that does not repeat one digit can be completed.\<close>

lemma completion_exists:
  assumes "list_all is_digit b" and "length b = n" and "\<not> allSameDigits b" and "0 < n"
  shows "\<exists>u. list_all is_digit u \<and> length u = 2 \<and> valid (b @ u)"
proof -
  let ?c1 = "check_digit w1 (digits_of b)"
  let ?c2 = "check_digit w2 (digits_of b @ [?c1])"
  let ?u = "[digit_char ?c1, digit_char ?c2]"
  have u: "list_all is_digit ?u" by (simp add: check_digit_less)
  then have d: "DigitsOnly (b @ ?u) = b @ ?u" using assms(1) by (simp add: DigitsOnly_id)
  obtain i where "1 \<le> i" "i < length b" "b ! i \<noteq> b ! 0"
    using assms(3) by (auto simp: allSameDigits_def list_all_iff)
  then have "\<not> allSameDigits (b @ ?u)"
    by (auto simp: allSameDigits_def list_all_iff nth_append intro!: bexI [of _ i])
  then have "valid (b @ ?u)"
    unfolding valid_iff d assms(2) [symmetric] mod11_rule_append by (simp add: check_digit_less)
  with u show ?thesis by (intro exI [of _ ?u]) simp
qed

end

interpretation cpf: mod11_identifier ValidCPF CPF 9 "map (\<lambda>i. 10 - i) [0..<9]" "map (\<lambda>i. 11 - i) [0..<10]"
proof
  fix s
  show "ValidCPF s = mod11_rule 9 (map (\<lambda>i. 10 - i) [0..<9]) (map (\<lambda>i. 11 - i) [0..<10]) (DigitsOnly s)"
    unfolding ValidCPF_def mod11_rule_def check_digit_def mod11_times10 [symmetric]
    by (auto simp: Let_def)
  show "CPF s = (if ValidCPF (DigitsOnly s) then DigitsOnly s else [])"
    by (simp add: CPF_def Let_def)
qed

interpretation cnpj: mod11_identifier ValidCNPJ CNPJ 12
  "[5, 4, 3, 2, 9, 8, 7, 6, 5, 4, 3, 2]" "[6, 5, 4, 3, 2, 9, 8, 7, 6, 5, 4, 3, 2]"
proof
  fix s
  show "ValidCNPJ s = mod11_rule 12 [5, 4, 3, 2, 9, 8, 7, 6, 5, 4, 3, 2]
      [6, 5, 4, 3, 2, 9, 8, 7, 6, 5, 4, 3, 2] (DigitsOnly s)"
    unfolding ValidCNPJ_def mod11_rule_def check_digit_def
    by (auto simp: Let_def)
  show "CNPJ s = (if ValidCNPJ (DigitsOnly s) then DigitsOnly s else [])"
    by (simp add: CNPJ_def Let_def)
qed

section \<open>Dates\<close>

text \<open>The strings a date is written with: digits and one separator.\<close>

definition iso_date :: "date \<Rightarrow> string" where
  "iso_date t = year4 (year t) @ ''-'' @ pad 2 (month t) @ ''-'' @ pad 2 (day t)"

definition br_date :: "date \<Rightarrow> string" where
  "br_date t = pad 2 (day t) @ ''/'' @ pad 2 (month t) @ ''/'' @ year4 (year t)"

definition date_char :: "char \<Rightarrow> bool" where
  "date_char c \<longleftrightarrow> is_digit c \<or> c = CHR ''/'' \<or> c = CHR ''-''"

lemma format_iso: "time_Format ''2006-01-02'' t = iso_date t"
  by (simp add: time_Format_def layout_iso format_std_def iso_date_def year4_def del: layout_items.simps)

lemma date_char_byte: "date_char c \<Longrightarrow> byte c < 128 \<and> \<not> IsSpace (byte c)"
  by (auto simp: date_char_def digit_ascii digit_not_space) (simp_all add: byte_def IsSpace_def)

lemma date_chars_word:
  assumes "w \<noteq> []" and "list_all date_char w"
  shows "word w"
  using assms by (intro ascii_word) (auto simp: ascii_def list_all_iff dest: date_char_byte)

lemma collapse_word [simp]: "word w \<Longrightarrow> collapseSpaces w = w"
  by (simp add: collapseSpaces_def)

lemma collapseSpaces_idem [simp]: "collapseSpaces (collapseSpaces s) = collapseSpaces s"
  by (simp add: collapseSpaces_def Fields_Join_Fields)

lemma date_char_replace:
  "list_all date_char w \<Longrightarrow> list_all date_char (ReplaceByte (ReplaceByte w (CHR ''.'') (CHR ''/'')) (CHR ''-'') (CHR ''/''))"
  by (auto simp: ReplaceByte_def list_all_iff date_char_def)

lemma digit_not_sep: "is_digit c \<Longrightarrow> c \<noteq> CHR ''.'' \<and> c \<noteq> CHR ''-'' \<and> c \<noteq> CHR ''/''"
  by (auto simp: is_digit_def in_range_def byte_def)

lemma slashes_date:
  assumes "w \<noteq> []" and "list_all date_char w"
  shows "slashes w = map (\<lambda>c. if c = CHR ''-'' then CHR ''/'' else c) w"
proof -
  let ?r = "ReplaceByte (ReplaceByte w (CHR ''.'') (CHR ''/'')) (CHR ''-'') (CHR ''/'')"
  have "word ?r"
    using assms date_char_replace by (intro date_chars_word) (auto simp: ReplaceByte_def)
  moreover have "?r = map (\<lambda>c. if c = CHR ''-'' then CHR ''/'' else c) w"
    using assms(2) by (auto simp: ReplaceByte_def date_char_def list_all_iff dest: digit_not_sep)
  ultimately show ?thesis by (simp add: slashes_def)
qed

text \<open>The value printed as \<^verbatim>\<open>YYYY/MM/DD\<close> is read by the fifth layout only.\<close>

lemma parse_first_iso:
  assumes v: "valid_date t"
  shows "parse_first layouts (year4 (year t) @ ''/'' @ pad 2 (month t) @ ''/'' @ pad 2 (day t)) = Some t"
proof -
  from v have y: "0 \<le> year t" "year t \<le> 9999" by (auto simp: valid_date_def)
  obtain a b c d where Y: "year4 (year t) = [a, b, c, d]" "is_digit a" "is_digit b" "is_digit c"
    "is_digit d" "int (dec_val [a, b, c, d]) = year t"
    by (rule year4_digits [OF y])
  obtain e f where M: "pad 2 (month t) = [e, f]" "is_digit e" "is_digit f"
    "digit_val e * 10 + digit_val f = month t"
    by (rule pad2_digits [OF valid_date_bounds(1) [OF v]])
  obtain g h where D: "pad 2 (day t) = [g, h]" "is_digit g" "is_digit h"
    "digit_val g * 10 + digit_val h = day t"
    by (rule pad2_digits [OF valid_date_bounds(2) [OF v]])
  have "c \<noteq> CHR ''/''" using Y(4) digit_not_sep by blast
  moreover have "atoi [a, b, c, d] = Some (year t)"
    using Y by (simp add: atoi_digit_hd)
  ultimately show ?thesis
    using Y M D v
    by (simp add: layouts_def time_Parse_def layout_numeric parse_std_def valid_date_def
        not_less Suc_le_eq del: layout_items.simps)
qed

lemma parse_first_br:
  assumes v: "valid_date t"
  shows "parse_first layouts (br_date t) = Some t"
proof -
  from v have y: "0 \<le> year t" "year t \<le> 9999" by (auto simp: valid_date_def)
  obtain a b c d where Y: "year4 (year t) = [a, b, c, d]" "is_digit a" "is_digit b" "is_digit c"
    "is_digit d" "int (dec_val [a, b, c, d]) = year t"
    by (rule year4_digits [OF y])
  obtain e f where M: "pad 2 (month t) = [e, f]" "is_digit e" "is_digit f"
    "digit_val e * 10 + digit_val f = month t"
    by (rule pad2_digits [OF valid_date_bounds(1) [OF v]])
  obtain g h where D: "pad 2 (day t) = [g, h]" "is_digit g" "is_digit h"
    "digit_val g * 10 + digit_val h = day t"
    by (rule pad2_digits [OF valid_date_bounds(2) [OF v]])
  have "atoi [a, b, c, d] = Some (year t)"
    using Y by (simp add: atoi_digit_hd)
  then show ?thesis
    using Y M D v
    by (simp add: br_date_def layouts_def time_Parse_def layout_numeric parse_std_def valid_date_def
        not_less Suc_le_eq del: layout_items.simps)
qed

text \<open>Numeric layouts accept no space.\<close>

fun numeric_item :: "layout_item \<Rightarrow> bool" where
  "numeric_item (Lit p) = (CHR '' '' \<notin> set p)"
| "numeric_item (Std k) = (k \<noteq> StdMonth \<and> k \<noteq> StdLongMonth)"

lemma skip_Some: "skip v p = Some v' \<Longrightarrow> CHR '' '' \<notin> set p \<Longrightarrow> v = p @ v'"
proof (induction v p rule: skip.induct)
  case (2 v c p)
  then show ?case by (cases v) (auto split: if_splits)
qed simp

lemma space_not_digit: "\<not> is_digit (CHR '' '')"
  by (simp add: is_digit_def in_range_def byte_def)

lemma getnum_Some: "getnum v fixed = Some (n, v') \<Longrightarrow> \<exists>u. v = u @ v' \<and> CHR '' '' \<notin> set u"
proof (cases "(v, fixed)" rule: getnum.cases)
  case (2 c f)
  then show "getnum v fixed = Some (n, v') \<Longrightarrow> ?thesis"
    using space_not_digit by (intro exI [of _ "[c]"]) (auto split: if_splits)
next
  case (3 c d s f)
  assume "getnum v fixed = Some (n, v')"
  with 3 space_not_digit show ?thesis
    by (cases "is_digit d") (auto split: if_splits intro: exI [of _ "[c]"] exI [of _ "[c, d]"])
qed simp

lemma atoi_no_space: "atoi s = Some y \<Longrightarrow> CHR '' '' \<notin> set s"
  using space_not_digit
  by (cases s) (auto simp: atoi_def unsign_def list_all_iff split: if_splits)

lemma parse_std_no_space:
  assumes "parse_std k v a = Some (v', a')" and "numeric_item (Std k)"
  shows "\<exists>u. v = u @ v' \<and> CHR '' '' \<notin> set u"
proof -
  have "\<exists>u. v = u @ drop i v \<and> CHR '' '' \<notin> set u" if "atoi (take i v) = Some y" for i y
    using atoi_no_space [OF that] by (intro exI [of _ "take i v"]) simp
  with assms getnum_Some [of v] show ?thesis
    by (cases k) (auto simp: parse_std_def split: option.splits if_splits)
qed

lemma parse_items_no_space:
  "parse_items is v a = Some a' \<Longrightarrow> list_all numeric_item is \<Longrightarrow> CHR '' '' \<notin> set v"
proof (induction "is" v a rule: parse_items.induct)
  case (2 p "is" v a)
  then show ?case by (auto split: option.splits dest: skip_Some)
next
  case (3 k "is" v a)
  then show ?case by (fastforce split: option.splits dest!: parse_std_no_space)
qed (simp split: if_splits)

lemma layouts_numeric: "list_all (\<lambda>l. list_all numeric_item (layout_items l)) layouts"
  unfolding layouts_def by (simp add: layout_numeric del: layout_items.simps)

lemma parse_first_None: "(\<And>l. l \<in> set ls \<Longrightarrow> time_Parse l s = None) \<Longrightarrow> parse_first ls s = None"
  by (induction ls) auto

lemma parse_first_space:
  assumes "CHR '' '' \<in> set s" shows "parse_first layouts s = None"
proof (rule parse_first_None)
  fix l assume "l \<in> set layouts"
  then have "list_all numeric_item (layout_items l)"
    using layouts_numeric by (simp add: list_all_iff)
  with assms parse_items_no_space show "time_Parse l s = None"
    by (auto simp: time_Parse_def split: option.splits)
qed

lemma parse_first_valid: "parse_first ls s = Some t \<Longrightarrow> valid_date t"
  by (induction ls) (auto split: option.splits dest: time_Parse_valid)

lemma date_strings:
  assumes "valid_date t"
  shows "list_all date_char (iso_date t)" "list_all date_char (br_date t)"
    "iso_date t \<noteq> []" "br_date t \<noteq> []" "CHR ''-'' \<notin> set (br_date t)"
    "map (\<lambda>c. if c = CHR ''-'' then CHR ''/'' else c) (iso_date t) =
       year4 (year t) @ ''/'' @ pad 2 (month t) @ ''/'' @ pad 2 (day t)"
proof -
  from assms have y: "0 \<le> year t" "year t \<le> 9999" by (auto simp: valid_date_def)
  obtain a b c d where Y: "year4 (year t) = [a, b, c, d]" "is_digit a" "is_digit b" "is_digit c"
    "is_digit d" "int (dec_val [a, b, c, d]) = year t"
    by (rule year4_digits [OF y])
  obtain e f where M: "pad 2 (month t) = [e, f]" "is_digit e" "is_digit f"
    "digit_val e * 10 + digit_val f = month t"
    by (rule pad2_digits [OF valid_date_bounds(1) [OF assms]])
  obtain g h where D: "pad 2 (day t) = [g, h]" "is_digit g" "is_digit h"
    "digit_val g * 10 + digit_val h = day t"
    by (rule pad2_digits [OF valid_date_bounds(2) [OF assms]])
  note facts = Y(1-5) M(1-3) D(1-3)
  show "list_all date_char (iso_date t)" "list_all date_char (br_date t)"
    "iso_date t \<noteq> []" "br_date t \<noteq> []"
    using facts by (auto simp: iso_date_def br_date_def date_char_def)
  show "CHR ''-'' \<notin> set (br_date t)"
    "map (\<lambda>c. if c = CHR ''-'' then CHR ''/'' else c) (iso_date t) =
       year4 (year t) @ ''/'' @ pad 2 (month t) @ ''/'' @ pad 2 (day t)"
    using facts digit_not_sep by (auto simp: iso_date_def br_date_def)
qed

lemma DateToISO_result: "DateToISO s = Some r \<Longrightarrow> \<exists>t. valid_date t \<and> r = iso_date t"
proof (induction s rule: DateToISO.induct)
  case (1 s)
  then show ?case
    by (subst (asm) (2) DateToISO.simps)
      (auto simp: Let_def format_iso split: if_splits option.splits dest: parse_first_valid)
qed

lemma DateToISO_word:
  assumes "word w" and "parse_first layouts (slashes w) = Some t"
  shows "DateToISO w = Some (iso_date t)"
  using assms by (subst DateToISO.simps) (simp add: word_TrimSpace word_def format_iso Let_def)

lemma DateToISO_iso:
  assumes "valid_date t" shows "DateToISO (iso_date t) = Some (iso_date t)"
  using date_strings [OF assms] parse_first_iso [OF assms]
  by (intro DateToISO_word date_chars_word) (simp_all add: slashes_date)

lemma slashes_br:
  assumes "valid_date t" shows "slashes (br_date t) = br_date t"
proof -
  have "map (\<lambda>c. if c = CHR ''-'' then CHR ''/'' else c) (br_date t) = br_date t"
    using date_strings(5) [OF assms] by (intro map_idI) auto
  with date_strings [OF assms] show ?thesis by (simp add: slashes_date)
qed

lemma DateToISO_br:
  assumes "valid_date t" shows "DateToISO (br_date t) = Some (iso_date t)"
  using date_strings [OF assms] parse_first_br [OF assms]
  by (intro DateToISO_word date_chars_word) (simp_all add: slashes_br [OF assms])

lemma replace_word_br:
  assumes "valid_date t"
  shows "ReplaceByte (ReplaceByte (br_date t @ CHR '' '' # r) (CHR ''.'') (CHR ''/'')) (CHR ''-'') (CHR ''/'')
    = br_date t @ CHR '' '' # ReplaceByte (ReplaceByte r (CHR ''.'') (CHR ''/'')) (CHR ''-'') (CHR ''/'')"
proof -
  have "CHR ''.'' \<notin> set (br_date t)"
    using date_strings(2) [OF assms] by (auto simp: list_all_iff date_char_def dest!: digit_not_sep)
  with date_strings(5) [OF assms]
  have "map (\<lambda>c. if c = CHR ''.'' then CHR ''/'' else c) (br_date t) = br_date t"
    and "map (\<lambda>c. if c = CHR ''-'' then CHR ''/'' else c) (br_date t) = br_date t"
    by (auto intro: map_idI)
  then show ?thesis unfolding ReplaceByte_def map_append by simp
qed

lemma DateToISO_br_text:
  assumes "valid_date t" shows "DateToISO (br_date t @ CHR '' '' # s) = Some (iso_date t)"
proof -
  let ?w = "br_date t" and ?s = "br_date t @ CHR '' '' # s"
  have w: "word ?w" using date_strings [OF assms] by (intro date_chars_word)
  have ne: "TrimSpace ?s \<noteq> []" using TrimSpace_word_space [OF w, of s] w by (auto simp: word_def)
  have "slashes (TrimSpace ?s) = ?w \<or> (\<exists>q. slashes (TrimSpace ?s) = ?w @ CHR '' '' # q)"
    using TrimSpace_word_space [OF w, of s]
  proof
    assume "\<exists>r. TrimSpace ?s = ?w @ CHR '' '' # r"
    then show ?thesis
      by (auto simp: slashes_def replace_word_br [OF assms] collapseSpaces_def
          Fields_word_space [OF w] Join_Cons split: if_splits)
  qed (simp add: slashes_br [OF assms])
  then show ?thesis
  proof
    assume "slashes (TrimSpace ?s) = ?w"
    then show ?thesis
      using ne parse_first_br [OF assms] by (subst DateToISO.simps) (simp add: format_iso Let_def)
  next
    assume "\<exists>q. slashes (TrimSpace ?s) = ?w @ CHR '' '' # q"
    then obtain q where q: "slashes (TrimSpace ?s) = ?w @ CHR '' '' # q" by blast
    have "parse_first layouts (?w @ CHR '' '' # q) = None" by (rule parse_first_space) simp
    with q ne show ?thesis
      using before_space_word [OF w, of q] date_strings(4) [OF assms] DateToISO_br [OF assms]
      by (subst DateToISO.simps) (simp add: Let_def)
  qed
qed

section \<open>Properties\<close>

text \<open>
  C9: The validators of the code accept exactly the strings whose digits satisfy the published
  rule: the right number of digits, not all equal, and each of the two check digits equal to the
  modulo-11 check digit of the digits before it. The CPF code writes the rule differently (ten times
  the sum, ten read as zero), and both validators ignore everything that is not a digit.
\<close>

theorem identifiers_follow_mod11:
  "ValidCPF s = mod11_rule 9 [10, 9, 8, 7, 6, 5, 4, 3, 2] [11, 10, 9, 8, 7, 6, 5, 4, 3, 2] (DigitsOnly s)
   \<and> ValidCNPJ s = mod11_rule 12 [5, 4, 3, 2, 9, 8, 7, 6, 5, 4, 3, 2]
        [6, 5, 4, 3, 2, 9, 8, 7, 6, 5, 4, 3, 2] (DigitsOnly s)"
  using cpf.valid_iff [of s] cnpj.valid_iff [of s] by (simp add: upt_conv_Cons)

text \<open>
  Nine digits that are not all equal are the beginning of exactly one CPF: one pair of check
  digits makes \<open>ValidCPF\<close> accept, so a change of the check digits alone is always detected.
\<close>

theorem ValidCPF_unique_completion:
  assumes "list_all is_digit b" and "length b = 9" and "\<not> allSameDigits b"
  shows "\<exists>!u. list_all is_digit u \<and> length u = 2 \<and> ValidCPF (b @ u)"
  using cpf.completion_exists [OF assms zero_less_numeral] cpf.completion_unique [OF assms(1) _ _ assms(2)] by blast

theorem ValidCPF_unique_completion_witness:
  "\<exists>!u. list_all is_digit u \<and> length u = 2 \<and> ValidCPF (''529982247'' @ u)"
  by (rule ValidCPF_unique_completion) (code_simp+)

text \<open>
  C40: \<open>DateToISO\<close> returns only calendar dates between the years 0 and 9999, written as
  \<open>YYYY-MM-DD\<close>, and reading its own result gives the result back.
\<close>

theorem DateToISO_normal_form:
  "case DateToISO s of
     None \<Rightarrow> True
   | Some r \<Rightarrow> \<exists>t. valid_date t \<and> r = iso_date t \<and> DateToISO r = Some r"
  using DateToISO_result DateToISO_iso by (fastforce split: option.split)

text \<open>
  Every calendar date written the Brazilian way (\<open>DD/MM/YYYY\<close>) is read as that date, alone or
  followed by a blank and arbitrary text.
\<close>

theorem DateToISO_brazilian:
  assumes "valid_date t"
  shows "DateToISO (br_date t) = Some (iso_date t)
    \<and> DateToISO (br_date t @ CHR '' '' # rest) = Some (iso_date t)"
  using assms by (simp add: DateToISO_br DateToISO_br_text)

theorem DateToISO_brazilian_witness:
  "DateToISO ''29/02/2024'' = Some ''2024-02-29''
   \<and> DateToISO ''29/02/2024 (quinta-feira)'' = Some ''2024-02-29''"
proof -
  let ?t = "\<lparr>year = 2024, month = 2, day = 29\<rparr>"
  have v: "valid_date ?t" by code_simp
  have "br_date ?t = ''29/02/2024''" and "iso_date ?t = ''2024-02-29''" by code_simp+
  with DateToISO_brazilian [OF v, of "''(quinta-feira)''"] show ?thesis by simp
qed

end
