(* ===== verification/Doc_Types.thy ===== *)
theory Doc_Types
  imports Normalize "HOL-Library.Word"
begin

text \<open>
  The field structures and \<^verbatim>\<open>Normalize\<close> methods of the document types \<^verbatim>\<open>address_proof\<close>,
  \<^verbatim>\<open>identity_document\<close> and \<^verbatim>\<open>invoice_nf\<close> (\<^verbatim>\<open>internal/doctypes\<close>); the curriculum has its own theory.
  A \<^verbatim>\<open>float64\<close> is carried through unchanged by this code, so it is kept as its bit pattern.
\<close>

section \<open>address\_proof\<close>

record address =
  ap_nome :: string
  ap_logradouro :: string
  ap_numero :: string
  ap_bairro :: string
  ap_cidade :: string
  ap_uf :: string
  ap_cep :: string
  ap_emissor :: string
  ap_data :: "string option"

definition canonicalizeUF :: "string \<Rightarrow> string" where
  "canonicalizeUF s =
     (let uf = ToUpper (TrimSpace s) in
      if length uf \<noteq> 2 then []
      else if list_ex (\<lambda>p. fst p < 65 \<or> 90 < fst p) (chunks uf) then []
      else uf)"

definition normalize_address :: "address \<Rightarrow> address" where
  "normalize_address r =
     \<lparr>ap_nome = TrimSpace (ap_nome r),
      ap_logradouro = TrimSpace (ap_logradouro r),
      ap_numero = TrimSpace (ap_numero r),
      ap_bairro = TrimSpace (ap_bairro r),
      ap_cidade = TrimSpace (ap_cidade r),
      ap_uf = canonicalizeUF (ap_uf r),
      ap_cep = CEP (ap_cep r),
      ap_emissor = TrimSpace (ap_emissor r),
      ap_data = DateToISO (Deref (ap_data r))\<rparr>"

section \<open>identity\_document\<close>

record identity =
  id_tipo :: string
  id_nome :: string
  id_cpf :: string
  id_numero_documento :: string
  id_data_nascimento :: "string option"
  id_orgao_emissor :: string
  id_validade :: "string option"

definition canonicalizeTipo :: "string \<Rightarrow> string" where
  "canonicalizeTipo s =
     (let u = ToUpper (TrimSpace s) in
      if u = ''CNH'' \<or> u = ''CNH-E'' \<or> u = ''CNHE'' then ''CNH''
      else if u = ''RG'' then ''RG''
      else if u = [] then []
      else ''outro'')"

definition normalize_identity :: "identity \<Rightarrow> identity" where
  "normalize_identity r =
     \<lparr>id_tipo = canonicalizeTipo (id_tipo r),
      id_nome = TrimSpace (id_nome r),
      id_cpf = CPF (TrimSpace (id_cpf r)),
      id_numero_documento = DigitsOnly (id_numero_documento r),
      id_data_nascimento = DateToISO (Deref (id_data_nascimento r)),
      id_orgao_emissor = TrimSpace (id_orgao_emissor r),
      id_validade = DateToISO (Deref (id_validade r))\<rparr>"

section \<open>invoice\_nf\<close>

type_synonym float64 = "64 word"

record party =
  pt_nome :: string
  pt_cnpj :: string
  pt_cpf :: string

record item =
  it_descricao :: string
  it_quantidade :: float64
  it_valor :: float64

text \<open>A nil slice of items is \<open>None\<close>.\<close>

record invoice =
  nf_numero :: string
  nf_serie :: string
  nf_emitente :: party
  nf_destinatario :: party
  nf_valor_total :: float64
  nf_data_emissao :: "string option"
  nf_itens :: "item list option"

definition normalizeParty :: "party \<Rightarrow> party" where
  "normalizeParty p =
     p\<lparr>pt_nome := TrimSpace (pt_nome p), pt_cnpj := CNPJ (pt_cnpj p), pt_cpf := CPF (pt_cpf p)\<rparr>"

definition normalize_invoice :: "invoice \<Rightarrow> invoice" where
  "normalize_invoice r =
     r\<lparr>nf_numero := TrimSpace (nf_numero r),
       nf_serie := TrimSpace (nf_serie r),
       nf_emitente := normalizeParty (nf_emitente r),
       nf_destinatario := normalizeParty (nf_destinatario r),
       nf_data_emissao := DateToISO (Deref (nf_data_emissao r)),
       nf_itens := (case nf_itens r of None \<Rightarrow> Some [] | Some is \<Rightarrow> Some is)\<rparr>"

section \<open>Normal forms\<close>

lemma CEP_idem [simp]: "CEP (CEP s) = CEP s"
  by (simp add: CEP_def Let_def)

lemma Deref_date_idem [simp]:
  "DateToISO (Deref (DateToISO s)) = DateToISO s"
proof (cases "DateToISO s")
  case None
  then show ?thesis by (simp add: Deref_def DateToISO.simps [of "[]"] Let_def)
next
  case (Some r)
  then obtain t where "valid_date t" and "r = iso_date t" using DateToISO_result by blast
  then show ?thesis by (simp add: Some Deref_def DateToISO_iso)
qed

lemma capital_ascii:
  assumes "list_all (\<lambda>p. 65 \<le> fst p \<and> fst p \<le> 90) (chunks s)"
  shows "ascii s \<and> list_all (\<lambda>c. 65 \<le> byte c \<and> byte c \<le> 90) s"
proof -
  have a: "ascii s"
    using assms by (intro ascii_chunks) (auto simp: list_all_iff)
  with assms show ?thesis by (auto simp: chunks_ascii list_all_iff)
qed

lemma canonicalizeUF_shape:
  "canonicalizeUF s = [] \<or>
     (length (canonicalizeUF s) = 2 \<and> ascii (canonicalizeUF s)
      \<and> list_all (\<lambda>c. 65 \<le> byte c \<and> byte c \<le> 90) (canonicalizeUF s))"
proof -
  let ?u = "ToUpper (TrimSpace s)"
  have "list_all (\<lambda>p. 65 \<le> fst p \<and> fst p \<le> 90) (chunks ?u)"
    if "\<not> list_ex (\<lambda>p. fst p < 65 \<or> 90 < fst p) (chunks ?u)"
    using that by (auto simp: list_all_iff list_ex_iff not_less)
  then show ?thesis
    using capital_ascii [of ?u] by (auto simp: canonicalizeUF_def Let_def)
qed

lemma capitals_fixed:
  assumes "ascii s" and "list_all (\<lambda>c. 65 \<le> byte c \<and> byte c \<le> 90) s"
  shows "ToUpper (TrimSpace s) = s"
proof -
  have "TrimSpace s = s"
  proof (cases "s = []")
    case False
    have "list_all (\<lambda>c. \<not> IsSpace (byte c)) s"
      using assms(2) by (auto simp: list_all_iff IsSpace_def)
    with assms(1) False have "word s" by (rule ascii_word)
    then show ?thesis by (rule word_TrimSpace)
  qed simp
  moreover have "map byte_upper s = s"
    using assms(2) by (intro map_idI) (auto simp: list_all_iff byte_upper_def)
  ultimately show ?thesis using assms(1) by (simp add: ToUpper_ascii)
qed

lemma canonicalizeUF_idem [simp]: "canonicalizeUF (canonicalizeUF s) = canonicalizeUF s"
proof (cases "canonicalizeUF s = []")
  case True
  then show ?thesis by (simp add: canonicalizeUF_def [of "[]"])
next
  case False
  let ?u = "canonicalizeUF s"
  from False canonicalizeUF_shape [of s]
  have u: "length ?u = 2" "ascii ?u" "list_all (\<lambda>c. 65 \<le> byte c \<and> byte c \<le> 90) ?u" by auto
  then have "\<not> list_ex (\<lambda>p. fst p < 65 \<or> 90 < fst p) (chunks ?u)"
    by (auto simp: chunks_ascii list_ex_iff list_all_iff)
  with u show ?thesis by (simp add: canonicalizeUF_def [of ?u] capitals_fixed Let_def)
qed

lemma canonicalizeTipo_range: "canonicalizeTipo s \<in> {''CNH'', ''RG'', [], ''outro''}"
  by (simp add: canonicalizeTipo_def Let_def)

lemma canonicalizeTipo_values:
  "canonicalizeTipo ''CNH'' = ''CNH''" "canonicalizeTipo ''RG'' = ''RG''"
  "canonicalizeTipo [] = []" "canonicalizeTipo ''outro'' = ''outro''"
  by code_simp+

lemma canonicalizeTipo_idem [simp]: "canonicalizeTipo (canonicalizeTipo s) = canonicalizeTipo s"
  using canonicalizeTipo_range [of s] canonicalizeTipo_values by auto

lemma digits_word: "list_all is_digit w \<Longrightarrow> w \<noteq> [] \<Longrightarrow> word w"
  by (intro date_chars_word) (auto simp: list_all_iff date_char_def)

lemma TrimSpace_digits: "list_all is_digit w \<Longrightarrow> TrimSpace w = w"
  by (cases "w = []") (simp_all add: digits_word word_TrimSpace)

lemma TrimSpace_CPF [simp]: "TrimSpace (CPF s) = CPF s"
  by (rule TrimSpace_digits [OF cpf.clean_digits])

lemma normalize_address_idem: "normalize_address (normalize_address r) = normalize_address r"
  by (simp add: normalize_address_def)

lemma normalize_identity_idem: "normalize_identity (normalize_identity r) = normalize_identity r"
  by (simp add: normalize_identity_def cpf.clean_idem)

lemma normalizeParty_idem [simp]: "normalizeParty (normalizeParty p) = normalizeParty p"
  by (simp add: normalizeParty_def cpf.clean_idem cnpj.clean_idem)

lemma normalize_invoice_idem: "normalize_invoice (normalize_invoice r) = normalize_invoice r"
  by (simp add: normalize_invoice_def split: option.splits)

section \<open>Properties\<close>

text \<open>
  A normalised proof of address is a fixed point of \<open>Normalize\<close>; its UF is empty or two ASCII
  capitals and its CEP is empty or eight digits.
\<close>

theorem normalize_address_fixed:
  "normalize_address (normalize_address r) = normalize_address r
   \<and> (ap_uf (normalize_address r) = []
      \<or> length (ap_uf (normalize_address r)) = 2
        \<and> list_all (\<lambda>c. 65 \<le> byte c \<and> byte c \<le> 90) (ap_uf (normalize_address r)))
   \<and> (ap_cep (normalize_address r) = []
      \<or> length (ap_cep (normalize_address r)) = 8 \<and> list_all is_digit (ap_cep (normalize_address r)))"
  using canonicalizeUF_shape [of "ap_uf r"] DigitsOnly_digits [of "ap_cep r"]
  by (auto simp: normalize_address_idem) (auto simp: normalize_address_def CEP_def Let_def split: if_splits)

text \<open>
  A normalised identity document is a fixed point of \<open>Normalize\<close>; its kind is CNH, RG, outro or
  empty, and its CPF is empty or eleven digits that \<open>ValidCPF\<close> accepts.
\<close>

theorem normalize_identity_fixed:
  "normalize_identity (normalize_identity r) = normalize_identity r
   \<and> id_tipo (normalize_identity r) \<in> {''CNH'', ''RG'', [], ''outro''}
   \<and> (id_cpf (normalize_identity r) = []
      \<or> length (id_cpf (normalize_identity r)) = 11 \<and> list_all is_digit (id_cpf (normalize_identity r))
        \<and> ValidCPF (id_cpf (normalize_identity r)))"
  using cpf.clean_length [of "TrimSpace (id_cpf r)"] cpf.clean_digits [of "TrimSpace (id_cpf r)"]
    cpf.valid_clean [of "TrimSpace (id_cpf r)"] canonicalizeTipo_range [of "id_tipo r"]
  by (simp add: normalize_identity_idem) (auto simp: normalize_identity_def)

text \<open>
  A normalised invoice is a fixed point of \<open>Normalize\<close>, never has a nil slice of items, keeps
  the amounts, and the issuer's CNPJ is empty or fourteen digits that \<open>ValidCNPJ\<close> accepts.
\<close>

theorem normalize_invoice_fixed:
  "normalize_invoice (normalize_invoice r) = normalize_invoice r
   \<and> nf_itens (normalize_invoice r) = Some (case nf_itens r of None \<Rightarrow> [] | Some is \<Rightarrow> is)
   \<and> nf_valor_total (normalize_invoice r) = nf_valor_total r
   \<and> (let c = pt_cnpj (nf_emitente (normalize_invoice r)) in
      c = [] \<or> length c = 14 \<and> list_all is_digit c \<and> ValidCNPJ c)"
  using cnpj.clean_length [of "pt_cnpj (nf_emitente r)"] cnpj.clean_digits [of "pt_cnpj (nf_emitente r)"]
    cnpj.valid_clean [of "pt_cnpj (nf_emitente r)"]
  by (simp add: normalize_invoice_idem)
    (auto simp: normalize_invoice_def normalizeParty_def Let_def split: option.split)

end
