(* ===== verification/Curriculum_Vitae.thy ===== *)
theory Curriculum_Vitae
  imports Doc_Types
begin

text \<open>
  Package \<^verbatim>\<open>internal/doctypes/curriculum_vitae\<close>: the structures of a curriculum and its
  \<^verbatim>\<open>Normalize\<close> method with every helper it calls. Go ranges over a map in an unspecified order;
  the one loop of this kind here (the Portuguese month names of \<^verbatim>\<open>normalizeCVDate\<close>) takes the order
  as an argument. The library function \<^verbatim>\<open>mail.ParseAddress\<close> is a parameter: the address it reads,
  or \<open>None\<close> for an error.
\<close>

section \<open>Structures\<close>

record language =
  lg_name :: string
  lg_level :: string

record experience =
  ex_company :: string
  ex_title :: string
  ex_location :: string
  ex_start_date :: string
  ex_end_date :: "string option"
  ex_current :: bool
  ex_highlights :: "string list"

record education =
  ed_institution :: string
  ed_degree :: string
  ed_field :: string
  ed_start_date :: string
  ed_end_date :: string
  ed_details :: string

record certification =
  ce_name :: string
  ce_issuer :: string
  ce_date :: string

record skill_group =
  sg_category :: string
  sg_items :: "string list"

type_synonym skills = "skill_group list"

record curriculum =
  cv_full_name :: string
  cv_headline :: string
  cv_email :: string
  cv_phone :: string
  cv_location :: string
  cv_linkedin :: string
  cv_github :: string
  cv_website :: string
  cv_summary :: string
  cv_skills :: skills
  cv_languages :: "language list"
  cv_experience :: "experience list"
  cv_education :: "education list"
  cv_certifications :: "certification list"

section \<open>Text, e-mail and telephone\<close>

definition collapse :: "string \<Rightarrow> string" where
  "collapse s = Join (Fields (TrimSpace s)) '' ''"

definition normalizeEmail :: "(string \<Rightarrow> string option) \<Rightarrow> string \<Rightarrow> string" where
  "normalizeEmail parse_address s0 =
     (let s = TrimSpace s0 in
      if s = [] then []
      else case parse_address s of
        None \<Rightarrow> []
      | Some a \<Rightarrow> ToLower (TrimSpace a))"

text \<open>The loop of \<^verbatim>\<open>normalizePhone\<close>; the flag says that the byte index is still 0.\<close>

fun phone_keep :: "bool \<Rightarrow> (rune \<times> string) list \<Rightarrow> string" where
  "phone_keep at0 [] = []"
| "phone_keep at0 (p # ps) =
     (if IsDigit (fst p) then encode_rune (fst p)
      else if fst p = 43 \<and> at0 then encode_rune (fst p)
      else []) @ phone_keep False ps"

definition normalizePhone :: "string \<Rightarrow> string" where
  "normalizePhone s0 =
     (let s = TrimSpace s0 in
      if s = [] then []
      else
        let d = phone_keep True (chunks s) in
        if length (DigitsOnly d) < 8 then [] else d)"

section \<open>Lists of strings and skills\<close>

fun clean_strings_from :: "string list \<Rightarrow> string list \<Rightarrow> string list" where
  "clean_strings_from seen [] = []"
| "clean_strings_from seen (s0 # ss) =
     (let s = collapse s0 in
      if s = [] then clean_strings_from seen ss
      else
        let key = ToLower s in
        if key \<in> set seen then clean_strings_from seen ss
        else s # clean_strings_from (key # seen) ss)"

definition cleanStrings :: "string list \<Rightarrow> string list" where
  "cleanStrings xs = clean_strings_from [] xs"

definition skillCategoryOrder :: "string list" where
  "skillCategoryOrder =
     [''frontend'', ''backend'', ''mobile'', ''devops'', ''cloud'', ''data'', ''tools'', ''soft'', ''other'']"

definition skillCategoryAliases :: "(string \<times> string) list" where
  "skillCategoryAliases = [
     (''frontend'', ''frontend''), (''front-end'', ''frontend''), (''front end'', ''frontend''),
     (''front'', ''frontend''), (''ui'', ''frontend''), (''web'', ''frontend''),
     (''backend'', ''backend''), (''back-end'', ''backend''), (''back end'', ''backend''),
     (''back'', ''backend''), (''server'', ''backend''), (''api'', ''backend''),
     (''mobile'', ''mobile''), (''android'', ''mobile''), (''ios'', ''mobile''),
     (''devops'', ''devops''), (''sre'', ''devops''), (''infra'', ''devops''),
     (''infrastructure'', ''devops''), (''ops'', ''devops''), (''platform'', ''devops''),
     (''cloud'', ''cloud''), (''aws'', ''cloud''), (''gcp'', ''cloud''), (''azure'', ''cloud''),
     (''data'', ''data''), (''ml'', ''data''), (''ai'', ''data''), (''analytics'', ''data''),
     (''database'', ''data''), (''databases'', ''data''),
     (''tools'', ''tools''), (''tooling'', ''tools''), (''productivity'', ''tools''),
     (''soft'', ''soft''), (''soft skills'', ''soft''), (''softskills'', ''soft''),
     (''interpersonal'', ''soft''),
     (''other'', ''other''), (''misc'', ''other''), (''general'', ''other''), (''languages'', ''other''),
     (''programming languages'', ''other''), (''linguagens'', ''other'')]"

definition canonicalizeSkillCategory :: "string \<Rightarrow> string" where
  "canonicalizeSkillCategory s =
     (let key = ToLower (collapse s) in
      if key = [] then ''other''
      else case map_of skillCategoryAliases key of
        Some canon \<Rightarrow> canon
      | None \<Rightarrow>
          (case find (\<lambda>known. Contains key known) skillCategoryOrder of
             Some known \<Rightarrow> known
           | None \<Rightarrow> ''other''))"

text \<open>The two maps of \<^verbatim>\<open>cleanSkills\<close>: the items merged per category and the keys seen there.\<close>

record skill_acc =
  merged :: "string \<Rightarrow> string list"
  seenInCat :: "string \<Rightarrow> string list"

definition add_skill :: "string \<Rightarrow> string \<Rightarrow> skill_acc \<Rightarrow> skill_acc" where
  "add_skill cat item a =
     (let key = ToLower item in
      if key \<in> set (seenInCat a cat) then a
      else a\<lparr>merged := (merged a)(cat := merged a cat @ [item]),
             seenInCat := (seenInCat a)(cat := key # seenInCat a cat)\<rparr>)"

definition add_group :: "skill_group \<Rightarrow> skill_acc \<Rightarrow> skill_acc" where
  "add_group g a =
     (let cat = canonicalizeSkillCategory (sg_category g) in
      fold (add_skill cat) (cleanStrings (sg_items g)) a)"

definition cleanSkills :: "skills \<Rightarrow> skills" where
  "cleanSkills gs =
     (let a = fold add_group gs \<lparr>merged = (\<lambda>_. []), seenInCat = (\<lambda>_. [])\<rparr> in
      map (\<lambda>cat. \<lparr>sg_category = cat, sg_items = merged a cat\<rparr>)
        (filter (\<lambda>cat. merged a cat \<noteq> []) skillCategoryOrder))"

section \<open>Dates of a curriculum\<close>

definition monthLayouts :: "string list" where
  "monthLayouts = [''2006/01'', ''2006/1'', ''01/2006'', ''1/2006'', ''01/06'', ''1/06'',
     ''January 2006'', ''Jan 2006'', ''January/2006'', ''Jan/2006'']"

definition ptMonths :: "(string \<times> string) list" where
  "ptMonths = [
     (''janeiro'', ''January''), (''fevereiro'', ''February''),
     (''mar'' @ [CHR 0xC3, CHR 0xA7] @ ''o'', ''March''), (''marco'', ''March''),
     (''abril'', ''April''), (''maio'', ''May''), (''junho'', ''June''), (''julho'', ''July''),
     (''agosto'', ''August''), (''setembro'', ''September''), (''outubro'', ''October''),
     (''novembro'', ''November''), (''dezembro'', ''December''),
     (''jan'', ''Jan''), (''fev'', ''Feb''), (''mar'', ''Mar''), (''abr'', ''Apr''),
     (''mai'', ''May''), (''jun'', ''Jun''), (''jul'', ''Jul''), (''ago'', ''Aug''),
     (''set'', ''Sep''), (''out'', ''Oct''), (''nov'', ''Nov''), (''dez'', ''Dec'')]"

definition pt_month_try :: "string \<Rightarrow> string \<times> string \<Rightarrow> date option" where
  "pt_month_try lower p =
     (if \<not> HasPrefix lower (fst p) then None
      else
        let rest = TrimSpace (TrimPrefix lower (fst p));
            rest = TrimLeft rest '' /.-'';
            try = snd p @ '' '' @ rest in
        parse_first [''January 2006'', ''Jan 2006''] try)"

fun pt_month_loop :: "(string \<times> string) list \<Rightarrow> string \<Rightarrow> string" where
  "pt_month_loop [] lower = []"
| "pt_month_loop (p # ps) lower =
     (case pt_month_try lower p of
        Some t \<Rightarrow> time_Format ''2006-01'' t
      | None \<Rightarrow> pt_month_loop ps lower)"

definition normalizeCVDate_in :: "(string \<times> string) list \<Rightarrow> string \<Rightarrow> string" where
  "normalizeCVDate_in pt s0 =
     (let s = TrimSpace s0 in
      if s = [] then []
      else case DateToISO s of
        Some d \<Rightarrow> d
      | None \<Rightarrow>
          (let s = slashes s in
           case parse_first monthLayouts s of
             Some t \<Rightarrow> time_Format ''2006-01'' t
           | None \<Rightarrow> pt_month_loop pt (ToLower s)))"

definition normalizeCVDate :: "string \<Rightarrow> string" where
  "normalizeCVDate s = normalizeCVDate_in ptMonths s"

section \<open>Sections of a curriculum\<close>

fun cleanLanguages :: "language list \<Rightarrow> language list" where
  "cleanLanguages [] = []"
| "cleanLanguages (l # ls) =
     (let name = collapse (lg_name l) in
      if name = [] then cleanLanguages ls
      else \<lparr>lg_name = name, lg_level = collapse (lg_level l)\<rparr> # cleanLanguages ls)"

fun cleanExperience :: "experience list \<Rightarrow> experience list" where
  "cleanExperience [] = []"
| "cleanExperience (e # es) =
     (let company = collapse (ex_company e); title = collapse (ex_title e) in
      if company = [] \<and> title = [] then cleanExperience es
      else
        let end_date =
          (if ex_current e then None
           else case ex_end_date e of
             None \<Rightarrow> None
           | Some d \<Rightarrow> (let n = normalizeCVDate d in if n \<noteq> [] then Some n else None)) in
        \<lparr>ex_company = company, ex_title = title, ex_location = collapse (ex_location e),
         ex_start_date = normalizeCVDate (ex_start_date e), ex_end_date = end_date,
         ex_current = ex_current e, ex_highlights = cleanStrings (ex_highlights e)\<rparr>
        # cleanExperience es)"

fun cleanEducation :: "education list \<Rightarrow> education list" where
  "cleanEducation [] = []"
| "cleanEducation (e # es) =
     (let inst = collapse (ed_institution e); degree = collapse (ed_degree e) in
      if inst = [] \<and> degree = [] then cleanEducation es
      else
        \<lparr>ed_institution = inst, ed_degree = degree, ed_field = collapse (ed_field e),
         ed_start_date = normalizeCVDate (ed_start_date e),
         ed_end_date = normalizeCVDate (ed_end_date e), ed_details = collapse (ed_details e)\<rparr>
        # cleanEducation es)"

fun cleanCertifications :: "certification list \<Rightarrow> certification list" where
  "cleanCertifications [] = []"
| "cleanCertifications (c # cs) =
     (let name = collapse (ce_name c) in
      if name = [] then cleanCertifications cs
      else
        \<lparr>ce_name = name, ce_issuer = collapse (ce_issuer c), ce_date = normalizeCVDate (ce_date c)\<rparr>
        # cleanCertifications cs)"

definition normalize_curriculum :: "(string \<Rightarrow> string option) \<Rightarrow> curriculum \<Rightarrow> curriculum" where
  "normalize_curriculum parse_address r =
     \<lparr>cv_full_name = collapse (cv_full_name r),
      cv_headline = collapse (cv_headline r),
      cv_email = normalizeEmail parse_address (cv_email r),
      cv_phone = normalizePhone (cv_phone r),
      cv_location = collapse (cv_location r),
      cv_linkedin = collapse (cv_linkedin r),
      cv_github = collapse (cv_github r),
      cv_website = collapse (cv_website r),
      cv_summary = collapse (cv_summary r),
      cv_skills = cleanSkills (cv_skills r),
      cv_languages = cleanLanguages (cv_languages r),
      cv_experience = cleanExperience (cv_experience r),
      cv_education = cleanEducation (cv_education r),
      cv_certifications = cleanCertifications (cv_certifications r)\<rparr>"

end
