(* ===== verification/Curriculum_Laws.thy ===== *)
theory Curriculum_Laws
  imports Curriculum_Vitae
begin

text \<open>
  What the normalisation of a curriculum guarantees: the cleaned string lists and skill groups,
  the dates with the unspecified order of the month table, the telephone number, and the normal
  form of the whole structure.
\<close>

section \<open>Laws of the string lists\<close>

lemma Join_words_ends:
  assumes "list_all word ws" and "ws \<noteq> []"
  shows "chunks (Join ws '' '') \<noteq> [] \<and> \<not> is_space_chunk (hd (chunks (Join ws '' '')))
    \<and> \<not> is_space_chunk (last (chunks (Join ws '' '')))"
  using assms
proof (induction ws)
  case (Cons w ws)
  have w: "chunks w \<noteq> []" "\<not> is_space_chunk (hd (chunks w))" "\<not> is_space_chunk (last (chunks w))"
    using Cons.prems(1) by (auto simp: word_def list_all_iff)
  show ?case
  proof (cases "ws = []")
    case True
    with w show ?thesis by simp
  next
    case False
    have "chunks (w @ CHR '' '' # Join ws '' '') = chunks w @ (32, '' '') # chunks (Join ws '' '')"
      using chunks_append [of "CHR '' '' # Join ws '' ''" w]
      by (simp add: ascii_not_cont space_byte chunks_space)
    moreover have "\<not> is_space_chunk (last (chunks (Join ws '' '')))" "chunks (Join ws '' '') \<noteq> []"
      using Cons.IH Cons.prems(1) False by auto
    ultimately show ?thesis using w False by (simp add: Join_Cons)
  qed
qed simp

lemma collapse_idem [simp]: "collapse (collapse s) = collapse s"
proof -
  let ?ws = "Fields (TrimSpace s)"
  have "TrimSpace (Join ?ws '' '') = Join ?ws '' ''"
  proof (cases "?ws = []")
    case False
    have "trim_list is_space_chunk (chunks (Join ?ws '' '')) = chunks (Join ?ws '' '')"
      using Join_words_ends [OF Fields_words False] by (intro trim_list_id) blast
    then show ?thesis unfolding TrimSpace_def by simp
  qed simp
  then show ?thesis by (simp add: collapse_def Fields_Join_Fields)
qed

lemma collapse_Nil [simp]: "collapse [] = []"
  by (simp add: collapse_def Fields_def)

definition clean_items :: "string list \<Rightarrow> bool" where
  "clean_items xs \<longleftrightarrow> (\<forall>x \<in> set xs. collapse x = x \<and> x \<noteq> []) \<and> distinct (map ToLower xs)"

lemma clean_strings_from_items:
  "clean_items (clean_strings_from seen xs) \<and>
     ToLower ` set (clean_strings_from seen xs) \<inter> set seen = {}"
proof (induction seen xs rule: clean_strings_from.induct)
  case (2 seen s0 ss)
  let ?s = "collapse s0"
  show ?case
  proof (cases "?s = [] \<or> ToLower ?s \<in> set seen")
    case True
    then show ?thesis using "2.IH"(1,2) by (auto simp: Let_def)
  next
    case False
    let ?r = "clean_strings_from (ToLower ?s # seen) ss"
    have r: "clean_items ?r" "ToLower ` set ?r \<inter> set (ToLower ?s # seen) = {}"
      using "2.IH"(3) False by auto
    moreover have "?s \<noteq> []" using False by blast
    ultimately have "clean_items (?s # ?r)" by (auto simp: clean_items_def)
    moreover have "ToLower ` set (?s # ?r) \<inter> set seen = {}" using r(2) False by auto
    ultimately show ?thesis using False by (simp add: Let_def)
  qed
qed (simp add: clean_items_def)

lemma clean_strings_from_keys:
  "ToLower ` set (clean_strings_from seen xs) =
     {ToLower (collapse x) | x. x \<in> set xs \<and> collapse x \<noteq> []} - set seen"
proof (induction seen xs rule: clean_strings_from.induct)
  case (2 seen s0 ss)
  then show ?case by (auto simp: Let_def)
qed simp

lemma clean_strings_from_fixed:
  "clean_items xs \<Longrightarrow> ToLower ` set xs \<inter> set seen = {} \<Longrightarrow> clean_strings_from seen xs = xs"
  by (induction seen xs rule: clean_strings_from.induct) (auto simp: clean_items_def Let_def)

lemma cleanStrings_clean: "clean_items (cleanStrings xs)"
  by (simp add: cleanStrings_def clean_strings_from_items)

lemma cleanStrings_keys:
  "ToLower ` set (cleanStrings xs) = {ToLower (collapse x) | x. x \<in> set xs \<and> collapse x \<noteq> []}"
  by (simp add: cleanStrings_def clean_strings_from_keys)

lemma cleanStrings_fixed: "clean_items xs \<Longrightarrow> cleanStrings xs = xs"
  by (simp add: cleanStrings_def clean_strings_from_fixed)

lemma cleanStrings_idem [simp]: "cleanStrings (cleanStrings xs) = cleanStrings xs"
  by (rule cleanStrings_fixed [OF cleanStrings_clean])

section \<open>Laws of the skills\<close>

definition skill_keys :: "skills \<Rightarrow> string \<Rightarrow> string set" where
  "skill_keys gs cat =
     {ToLower (collapse x) | x g. g \<in> set gs \<and> x \<in> set (sg_items g) \<and> collapse x \<noteq> []
        \<and> canonicalizeSkillCategory (sg_category g) = cat}"

definition skill_inv :: "skill_acc \<Rightarrow> bool" where
  "skill_inv a \<longleftrightarrow>
     (\<forall>cat. clean_items (merged a cat) \<and> set (seenInCat a cat) = ToLower ` set (merged a cat))"

lemma add_skill_inv:
  "skill_inv a \<Longrightarrow> collapse x = x \<Longrightarrow> x \<noteq> [] \<Longrightarrow> skill_inv (add_skill cat x a)"
  by (auto simp: skill_inv_def add_skill_def Let_def clean_items_def)

lemma add_skill_keys:
  "skill_inv a \<Longrightarrow> ToLower ` set (merged (add_skill cat x a) c) =
     ToLower ` set (merged a c) \<union> (if c = cat then {ToLower x} else {})"
  by (auto simp: skill_inv_def add_skill_def Let_def)

lemma fold_add_skill:
  assumes "skill_inv a" and "\<forall>x \<in> set xs. collapse x = x \<and> x \<noteq> []"
  shows "skill_inv (fold (add_skill cat) xs a) \<and>
    (\<forall>c. ToLower ` set (merged (fold (add_skill cat) xs a) c) =
       ToLower ` set (merged a c) \<union> (if c = cat then ToLower ` set xs else {}))"
  using assms
proof (induction xs arbitrary: a)
  case (Cons x xs)
  then have "skill_inv (add_skill cat x a)" by (simp add: add_skill_inv)
  with Cons.IH [OF this] Cons.prems show ?case by (auto simp: add_skill_keys)
qed simp

lemma add_group_inv:
  assumes "skill_inv a"
  shows "skill_inv (add_group g a) \<and>
    (\<forall>c. ToLower ` set (merged (add_group g a) c) = ToLower ` set (merged a c) \<union> skill_keys [g] c)"
proof -
  let ?cat = "canonicalizeSkillCategory (sg_category g)" and ?xs = "cleanStrings (sg_items g)"
  have "\<forall>x \<in> set ?xs. collapse x = x \<and> x \<noteq> []"
    using cleanStrings_clean [of "sg_items g"] by (simp add: clean_items_def)
  from fold_add_skill [OF assms this, of ?cat] show ?thesis
    by (auto simp: add_group_def Let_def cleanStrings_keys skill_keys_def)
qed

lemma fold_add_group:
  assumes "skill_inv a"
  shows "skill_inv (fold add_group gs a) \<and>
    (\<forall>c. ToLower ` set (merged (fold add_group gs a) c) = ToLower ` set (merged a c) \<union> skill_keys gs c)"
  using assms
proof (induction gs arbitrary: a)
  case Nil
  then show ?case by (simp add: skill_keys_def)
next
  case (Cons g gs)
  have "skill_keys (g # gs) c = skill_keys [g] c \<union> skill_keys gs c" for c
    by (auto simp: skill_keys_def)
  with Cons.IH [of "add_group g a"] add_group_inv [OF Cons.prems, of g] show ?case
    by (simp add: Un_assoc)
qed

definition empty_acc :: skill_acc where
  "empty_acc = \<lparr>merged = (\<lambda>_. []), seenInCat = (\<lambda>_. [])\<rparr>"

lemma empty_acc_inv: "skill_inv empty_acc" "merged empty_acc c = []" "seenInCat empty_acc c = []"
  by (simp_all add: skill_inv_def clean_items_def empty_acc_def)

lemma cleanSkills_unfold:
  "cleanSkills gs =
     map (\<lambda>cat. \<lparr>sg_category = cat, sg_items = merged (fold add_group gs empty_acc) cat\<rparr>)
       (filter (\<lambda>cat. merged (fold add_group gs empty_acc) cat \<noteq> []) skillCategoryOrder)"
  by (simp add: cleanSkills_def empty_acc_def Let_def)

lemma cleanSkills_merged:
  "clean_items (merged (fold add_group gs empty_acc) c)"
  "ToLower ` set (merged (fold add_group gs empty_acc) c) = skill_keys gs c"
  "merged (fold add_group gs empty_acc) c = [] \<longleftrightarrow> skill_keys gs c = {}"
proof -
  have *: "skill_inv (fold add_group gs empty_acc) \<and>
    (\<forall>c. ToLower ` set (merged (fold add_group gs empty_acc) c) = skill_keys gs c)"
    using fold_add_group [OF empty_acc_inv(1), of gs] by (simp add: empty_acc_inv)
  then show "clean_items (merged (fold add_group gs empty_acc) c)" by (simp add: skill_inv_def)
  from * show k: "ToLower ` set (merged (fold add_group gs empty_acc) c) = skill_keys gs c" by simp
  show "merged (fold add_group gs empty_acc) c = [] \<longleftrightarrow> skill_keys gs c = {}"
    unfolding k [symmetric] by simp
qed

lemma cleanSkills_categories:
  "map sg_category (cleanSkills gs) = filter (\<lambda>c. skill_keys gs c \<noteq> {}) skillCategoryOrder"
  by (simp add: cleanSkills_unfold comp_def cleanSkills_merged(3))

lemma cleanSkills_group:
  "g \<in> set (cleanSkills gs) \<Longrightarrow>
     sg_items g \<noteq> [] \<and> clean_items (sg_items g) \<and> ToLower ` set (sg_items g) = skill_keys gs (sg_category g)
     \<and> sg_category g \<in> set skillCategoryOrder"
  using cleanSkills_merged(2) [of gs "sg_category g"]
  by (auto simp: cleanSkills_unfold cleanSkills_merged(1))

lemma canonical_category_fixed:
  "c \<in> set skillCategoryOrder \<Longrightarrow> canonicalizeSkillCategory c = c"
proof -
  have "list_all (\<lambda>c. canonicalizeSkillCategory c = c) skillCategoryOrder" by code_simp
  then show "c \<in> set skillCategoryOrder \<Longrightarrow> canonicalizeSkillCategory c = c"
    by (simp add: list_all_iff)
qed

lemma canonical_category_known: "canonicalizeSkillCategory s \<in> set skillCategoryOrder"
proof -
  have "list_all (\<lambda>p. snd p \<in> set skillCategoryOrder) skillCategoryAliases" by code_simp
  then have "map_of skillCategoryAliases k = Some v \<Longrightarrow> v \<in> set skillCategoryOrder" for k v
    by (auto simp: list_all_iff dest!: map_of_SomeD)
  moreover have "find P skillCategoryOrder = Some v \<Longrightarrow> v \<in> set skillCategoryOrder" for P v
    by (metis find_Some_iff nth_mem)
  moreover have "''other'' \<in> set skillCategoryOrder" by (simp add: skillCategoryOrder_def)
  ultimately show ?thesis
    by (auto simp: canonicalizeSkillCategory_def Let_def split: option.splits)
qed

text \<open>Groups that are already clean, one per category, are read back unchanged.\<close>

lemma fold_add_skill_fresh:
  assumes "clean_items (merged a cat @ xs)" and "set (seenInCat a cat) = ToLower ` set (merged a cat)"
  shows "merged (fold (add_skill cat) xs a) = (merged a)(cat := merged a cat @ xs) \<and>
    (\<forall>c. c \<noteq> cat \<longrightarrow> seenInCat (fold (add_skill cat) xs a) c = seenInCat a c)"
  using assms
proof (induction xs arbitrary: a)
  case (Cons x xs)
  let ?a = "add_skill cat x a"
  have "ToLower x \<notin> set (seenInCat a cat)"
    using Cons.prems by (auto simp: clean_items_def)
  then have a: "merged ?a = (merged a)(cat := merged a cat @ [x])"
    "set (seenInCat ?a cat) = insert (ToLower x) (set (seenInCat a cat))"
    "\<And>c. c \<noteq> cat \<Longrightarrow> seenInCat ?a c = seenInCat a c"
    by (simp_all add: add_skill_def Let_def)
  have "clean_items (merged ?a cat @ xs)" using Cons.prems(1) a by simp
  moreover have "set (seenInCat ?a cat) = ToLower ` set (merged ?a cat)"
    using Cons.prems(2) a by auto
  ultimately show ?case using Cons.IH [of ?a] a by (simp add: fun_eq_iff)
qed simp

lemma fold_add_group_fresh:
  assumes "distinct (map sg_category gs)"
    and "\<forall>g \<in> set gs. clean_items (sg_items g) \<and> sg_category g \<in> set skillCategoryOrder"
    and "\<forall>g \<in> set gs. merged a (sg_category g) = [] \<and> seenInCat a (sg_category g) = []"
  shows "merged (fold add_group gs a) =
    (\<lambda>c. case find (\<lambda>g. sg_category g = c) gs of Some g \<Rightarrow> sg_items g | None \<Rightarrow> merged a c)"
  using assms
proof (induction gs arbitrary: a)
  case (Cons g gs)
  let ?a = "add_group g a"
  have "?a = fold (add_skill (sg_category g)) (sg_items g) a"
    using Cons.prems(2) by (simp add: add_group_def Let_def canonical_category_fixed cleanStrings_fixed)
  with fold_add_skill_fresh [of a "sg_category g" "sg_items g"] Cons.prems(2,3)
  have a: "merged ?a = (merged a)(sg_category g := sg_items g)"
    "\<And>c. c \<noteq> sg_category g \<Longrightarrow> seenInCat ?a c = seenInCat a c"
    by auto
  have "\<forall>h \<in> set gs. sg_category h \<noteq> sg_category g"
    using Cons.prems(1) by (auto simp: image_iff)
  with Cons a have "merged (fold add_group gs ?a) =
      (\<lambda>c. case find (\<lambda>g. sg_category g = c) gs of Some g \<Rightarrow> sg_items g | None \<Rightarrow> merged ?a c)"
    by (intro Cons.IH) auto
  moreover have "find (\<lambda>h. sg_category h = sg_category g) gs = None"
    using \<open>\<forall>h \<in> set gs. _\<close> by (simp add: find_None_iff)
  ultimately show ?case using a by (auto simp: fun_eq_iff split: option.splits)
qed simp

lemma cleanSkills_idem: "cleanSkills (cleanSkills gs) = cleanSkills gs"
proof -
  let ?m = "merged (fold add_group gs empty_acc)"
  let ?cs = "filter (\<lambda>c. ?m c \<noteq> []) skillCategoryOrder"
  let ?out = "map (\<lambda>c. \<lparr>sg_category = c, sg_items = ?m c\<rparr>) ?cs"
  have d: "distinct skillCategoryOrder" by (simp add: skillCategoryOrder_def)
  have "find (\<lambda>g. sg_category g = c) (map (\<lambda>c. \<lparr>sg_category = c, sg_items = ?m c\<rparr>) cs) =
      (if c \<in> set cs then Some \<lparr>sg_category = c, sg_items = ?m c\<rparr> else None)" for c cs
    by (induction cs) auto
  then have "merged (fold add_group ?out empty_acc) c = (if c \<in> set ?cs then ?m c else [])" for c
    using d fold_add_group_fresh [of ?out empty_acc]
    by (simp add: comp_def empty_acc_inv cleanSkills_merged(1) split: if_splits)
  then show ?thesis
    by (auto simp: cleanSkills_unfold [of "?out"] cleanSkills_unfold [of gs] intro!: map_cong filter_cong)
qed

section \<open>Laws of the curriculum dates\<close>

definition iso_month :: "date \<Rightarrow> string" where
  "iso_month t = year4 (year t) @ ''-'' @ pad 2 (month t)"

lemma format_iso_month: "time_Format ''2006-01'' t = iso_month t"
  by (simp add: time_Format_def layout_iso_month format_std_def iso_month_def year4_def
      del: layout_items.simps)

definition month_of_parse :: "nat \<Rightarrow> string \<Rightarrow> date option" where
  "month_of_parse m rest =
     (if length rest = 4 \<and> list_all is_digit rest
      then Some \<lparr>year = int (dec_val rest), month = m, day = 1\<rparr> else None)"

lemma parse_year_end:
  "parse_items [Std StdLongYear] rest a =
     (if length rest = 4 \<and> list_all is_digit rest
      then Some (a\<lparr>acc_year := int (dec_val rest)\<rparr>) else None)"
proof (cases "4 \<le> length rest \<and> is_digit (hd rest)")
  case True
  then have "take 4 rest \<noteq> []" "hd (take 4 rest) = hd rest" by (cases rest; simp)+
  with True have "atoi (take 4 rest) =
      (if list_all is_digit (take 4 rest) then Some (int (dec_val (take 4 rest))) else None)"
    by (simp add: atoi_digit_hd)
  then show ?thesis using True by (auto simp: parse_std_def)
next
  case False
  then show ?thesis by (cases rest) (auto simp: parse_std_def)
qed

lemma cutspace_id: "rest = [] \<or> hd rest \<noteq> CHR '' '' \<Longrightarrow> cutspace rest = rest"
  unfolding cutspace_def by (rule dropWhile_hd_id)

lemma daysIn_pos [simp]: "0 < daysIn m y"
  by (simp add: daysIn_def)

text \<open>A month name followed by a space is looked up like the name alone.\<close>

lemma list_all2_take_space:
  assumes "length en < length n" and "list_all (\<lambda>c. \<not> match_byte (CHR '' '') c) n"
  shows "\<not> list_all2 match_byte (take (length n) (en @ CHR '' '' # rest)) n"
proof
  assume "list_all2 match_byte (take (length n) (en @ CHR '' '' # rest)) n"
  then have "match_byte (take (length n) (en @ CHR '' '' # rest) ! length en) (n ! length en)"
    using assms(1) by (auto simp: list_all2_conv_all_nth)
  with assms show False by (simp add: list_all_length nth_append)
qed

lemma lookup_name_space:
  "list_all (list_all (\<lambda>c. \<not> match_byte (CHR '' '') c)) ns \<Longrightarrow>
     lookup_name ns (en @ CHR '' '' # rest) =
     map_option (\<lambda>(i, r). (i, r @ CHR '' '' # rest)) (lookup_name ns en)"
proof (induction ns)
  case (Cons n ns)
  then show ?case
    using list_all2_take_space [of en n rest]
    by (cases "length n \<le> length en")
      (auto simp: option.map_comp comp_def case_prod_unfold not_le)
qed simp

lemma month_names_no_space:
  "list_all (list_all (\<lambda>c. \<not> match_byte (CHR '' '') c)) longMonthNames"
  "list_all (list_all (\<lambda>c. \<not> match_byte (CHR '' '') c)) shortMonthNames"
  by code_simp+

definition month_layout :: "std \<Rightarrow> string" where
  "month_layout k = (if k = StdLongMonth then ''January 2006'' else ''Jan 2006'')"

definition month_names :: "std \<Rightarrow> string list" where
  "month_names k = (if k = StdLongMonth then longMonthNames else shortMonthNames)"

lemma parse_std_month:
  assumes "k \<in> {StdMonth, StdLongMonth}"
  shows "parse_std k (en @ CHR '' '' # rest) a =
    map_option (\<lambda>(i, r). (r @ CHR '' '' # rest, a\<lparr>acc_month := Some (i + 1)\<rparr>))
      (lookup_name (month_names k) en)"
  using assms lookup_name_space [OF month_names_no_space(1), of en rest]
    lookup_name_space [OF month_names_no_space(2), of en rest]
  by (auto simp: parse_std_def month_names_def option.map_comp comp_def case_prod_unfold)

lemma layout_items_month:
  "k \<in> {StdMonth, StdLongMonth} \<Longrightarrow>
     layout_items (month_layout k) = [Std k, Lit '' '', Std StdLongYear]"
  by (auto simp: month_layout_def layout_month simp del: layout_items.simps)

lemma time_Parse_month:
  assumes "rest = [] \<or> hd rest \<noteq> CHR '' ''" and k: "k \<in> {StdMonth, StdLongMonth}"
    and "lookup_name (month_names k) en = Some (i, [])"
  shows "time_Parse (month_layout k) (en @ CHR '' '' # rest) = month_of_parse (i + 1) rest"
proof -
  have cut: "skip (CHR '' '' # rest) '' '' = Some rest"
    using cutspace_id [OF assms(1)] by (simp add: cutspace_def)
  show ?thesis
    unfolding time_Parse_def layout_items_month [OF k]
    by (simp add: parse_items.simps(3) [of k] parse_std_month [OF k] assms(3) cut parse_year_end
        month_of_parse_def not_less Suc_le_eq del: parse_items.simps(3) skip.simps)
qed

lemma time_Parse_no_month:
  assumes k: "k \<in> {StdMonth, StdLongMonth}"
    and "case lookup_name (month_names k) en of None \<Rightarrow> True | Some (i, r) \<Rightarrow> r \<noteq> [] \<and> hd r \<noteq> CHR '' ''"
  shows "time_Parse (month_layout k) (en @ CHR '' '' # rest) = None"
proof -
  have "skip (r @ CHR '' '' # rest) '' '' = None" if "r \<noteq> []" "hd r \<noteq> CHR '' ''" for r
    using that by (cases r) simp_all
  then show ?thesis
    using assms(2) unfolding time_Parse_def layout_items_month [OF k]
    by (auto simp: parse_items.simps(3) [of k] parse_std_month [OF k]
        simp del: parse_items.simps(3) skip.simps split: option.splits prod.splits)
qed

definition month_entry :: "string \<Rightarrow> bool" where
  "month_entry en =
     (case lookup_name longMonthNames en of
        Some (i, []) \<Rightarrow> i < 12 \<and>
          (case lookup_name shortMonthNames en of
             Some (j, []) \<Rightarrow> j = i
           | Some (j, c # r) \<Rightarrow> c \<noteq> CHR '' ''
           | None \<Rightarrow> True)
      | Some (i, c # r) \<Rightarrow> False
      | None \<Rightarrow> (case lookup_name shortMonthNames en of Some (j, []) \<Rightarrow> j < 12 | _ \<Rightarrow> False))"

lemma month_entries: "list_all (\<lambda>p. month_entry (snd p)) ptMonths"
  by code_simp

lemma parse_month_entry:
  assumes r: "rest = [] \<or> hd rest \<noteq> CHR '' ''" and en: "month_entry en"
  shows "\<exists>m. 1 \<le> m \<and> m \<le> 12 \<and>
    parse_first [''January 2006'', ''Jan 2006''] (en @ CHR '' '' # rest) = month_of_parse m rest"
proof -
  note long = time_Parse_month [OF r, of StdLongMonth en] time_Parse_no_month [of StdLongMonth en rest]
  note short = time_Parse_month [OF r, of StdMonth en] time_Parse_no_month [of StdMonth en rest]
  note laws = long [unfolded month_layout_def month_names_def, simplified]
    short [unfolded month_layout_def month_names_def, simplified]
  show ?thesis
  proof (cases "lookup_name longMonthNames en")
    case None
    with en obtain j where "lookup_name shortMonthNames en = Some (j, [])" "j < 12"
      by (auto simp: month_entry_def split: option.splits list.splits)
    with None show ?thesis using laws by (intro exI [of _ "j + 1"]) (simp split: option.split)
  next
    case (Some p)
    with en obtain i where i: "lookup_name longMonthNames en = Some (i, [])" "i < 12"
      by (cases p) (auto simp: month_entry_def split: option.splits list.splits)
    have "time_Parse ''Jan 2006'' (en @ CHR '' '' # rest) \<in> {None, month_of_parse (i + 1) rest}"
      using en i laws by (auto simp: month_entry_def split: option.splits list.splits)
    with i show ?thesis using laws by (intro exI [of _ "i + 1"]) (auto split: option.split)
  qed
qed

lemma TrimSpace_hd:
  assumes "s \<noteq> []" and "\<not> is_space_chunk (hd (chunks s))"
  shows "\<exists>r. TrimSpace s = hd s # r"
proof -
  let ?t = "trim_list is_space_chunk (chunks s)"
  obtain us vs where e: "chunks s = us @ ?t @ vs"
    and sp: "\<forall>u \<in> set us. is_space_chunk u" "\<forall>v \<in> set vs. is_space_chunk v"
    by (rule trim_list_split)
  have ne: "chunks s \<noteq> []" using assms(1) by simp
  have us: "us = []"
    using assms(2) e sp(1) by (metis hd_append2 hd_in_set)
  have "?t \<noteq> []"
    using assms(2) e sp(2) us ne by (metis append_Nil hd_in_set)
  then obtain p ps where t: "?t = p # ps" by (cases ?t) auto
  with e us have "p \<in> set (chunks s)" by simp
  then obtain c cs where p: "snd p = c # cs" using chunk_nonempty by (cases "snd p") auto
  have "s = unchunk (?t @ vs)" using e us by (metis append_Nil unchunk_chunks)
  then show ?thesis using t p by (simp add: TrimSpace_def)
qed

text \<open>
  A name that continues another name does so with a letter, so the shorter name leaves a rest
  that is no year: at most one entry of the month table reads a string.
\<close>

definition letter_start :: "string \<Rightarrow> bool" where
  "letter_start y =
     (case y of
        [] \<Rightarrow> False
      | c # r \<Rightarrow> in_range 97 122 c \<or> (c = CHR 0xC3 \<and> r \<noteq> [] \<and> hd r = CHR 0xA7))"

lemma pt_prefixes:
  "list_all (\<lambda>p. list_all (\<lambda>q. fst p = fst q \<longrightarrow> p = q) ptMonths) ptMonths"
  "list_all (\<lambda>p. list_all (\<lambda>q.
     fst p \<noteq> fst q \<longrightarrow> HasPrefix (fst q) (fst p) \<longrightarrow> letter_start (drop (length (fst p)) (fst q))) ptMonths) ptMonths"
  by code_simp+

lemma letter_start_TrimSpace:
  assumes "letter_start y"
  shows "\<exists>r. TrimLeft (TrimSpace (y @ z)) '' /.-'' = hd y # r" and "\<not> is_digit (hd y)"
proof -
  obtain c r where y: "y = c # r" using assms by (cases y) (auto simp: letter_start_def)
  have c: "in_range 97 122 c \<or> (c = CHR 0xC3 \<and> (\<exists>r'. r = CHR 0xA7 # r'))"
    using assms by (auto simp: letter_start_def y neq_Nil_conv)
  have "\<not> is_space_chunk (hd (chunks (y @ z)))"
    using c
    by (auto simp: y chunks_unfold is_space_chunk_def IsSpace_def in_range_def cont_def byte_def Let_def)
  then obtain r' where "TrimSpace (y @ z) = c # r'"
    using TrimSpace_hd [of "y @ z"] by (auto simp: y)
  moreover have "c \<notin> set '' /.-''"
    using c by (auto simp: in_range_def byte_def)
  ultimately show "\<exists>r. TrimLeft (TrimSpace (y @ z)) '' /.-'' = hd y # r"
    by (simp add: TrimLeft_def y)
  show "\<not> is_digit (hd y)"
    using c by (auto simp: y is_digit_def in_range_def byte_def)
qed

lemma pt_month_try_Some:
  assumes "pt_month_try lower p = Some t" and "p \<in> set ptMonths"
  shows "\<exists>z. lower = fst p @ z \<and> TrimLeft (TrimSpace z) '' /.-'' \<noteq> [] \<and>
    is_digit (hd (TrimLeft (TrimSpace z) '' /.-''))"
proof -
  from assms(1) obtain z where z: "lower = fst p @ z"
    by (auto simp: pt_month_try_def HasPrefix_conv split: if_splits)
  let ?r = "TrimLeft (TrimSpace z) '' /.-''"
  have hd: "?r = [] \<or> hd ?r \<noteq> CHR '' ''"
    by (cases ?r) (auto simp: TrimLeft_def dest: dropWhile_cons_hd)
  have "month_entry (snd p)" using month_entries assms(2) by (simp add: list_all_iff)
  with hd obtain m where "parse_first [''January 2006'', ''Jan 2006''] (snd p @ CHR '' '' # ?r) = month_of_parse m ?r"
    using parse_month_entry by blast
  moreover have "TrimPrefix lower (fst p) = z" by (simp add: z TrimPrefix_def HasPrefix_def)
  ultimately have "month_of_parse m ?r = Some t"
    using assms(1) by (simp add: pt_month_try_def z HasPrefix_def Let_def del: parse_first.simps)
  then have "length ?r = 4" "list_all is_digit ?r" by (auto simp: month_of_parse_def split: if_splits)
  then show ?thesis using z by (cases ?r) auto
qed

lemma pt_month_unique:
  assumes "pt_month_try lower p = Some t" "pt_month_try lower q = Some u"
    and "p \<in> set ptMonths" "q \<in> set ptMonths"
  shows "p = q"
proof -
  have clash: False
    if "pt_month_try lower p = Some t" "p \<in> set ptMonths" "q \<in> set ptMonths"
      and "lower = fst q @ z" "fst p \<noteq> fst q" "length (fst p) \<le> length (fst q)" for p q t z
  proof -
    note h = that
    obtain x where x: "lower = fst p @ x" "TrimLeft (TrimSpace x) '' /.-'' \<noteq> []"
      "is_digit (hd (TrimLeft (TrimSpace x) '' /.-''))"
      using pt_month_try_Some [OF h(1,2)] by blast
    have "fst p @ x = fst q @ z" using x(1) h(4) by simp
    then obtain y where "fst q = fst p @ y" "x = y @ z"
      using h(6) by (fastforce simp: append_eq_append_conv2)
    then have q: "fst q = fst p @ drop (length (fst p)) (fst q)"
      and xz: "x = drop (length (fst p)) (fst q) @ z"
      by simp_all
    then have "letter_start (drop (length (fst p)) (fst q))"
      using pt_prefixes(2) h(2,3,5) unfolding list_all_iff
      by (metis HasPrefix_conv)
    from letter_start_TrimSpace(1) [OF this, of z] letter_start_TrimSpace(2) [OF this] show False
      using x xz by auto
  qed
  obtain z z' where z: "lower = fst p @ z" "lower = fst q @ z'"
    using pt_month_try_Some assms by meson
  have "fst p = fst q"
    using clash [OF assms(1,3,4) z(2)] clash [OF assms(2,4,3) z(1)] by (metis nat_le_linear)
  then show ?thesis using pt_prefixes(1) assms(3,4) by (simp add: list_all_iff)
qed

lemma pt_month_loop_order:
  assumes "set es = set ptMonths"
  shows "pt_month_loop es lower = pt_month_loop ptMonths lower"
proof -
  have none: "(\<And>p. p \<in> set fs \<Longrightarrow> pt_month_try lower p = None) \<Longrightarrow> pt_month_loop fs lower = []" for fs
    by (induction fs) auto
  have some: "p \<in> set fs \<Longrightarrow> pt_month_try lower p = Some t \<Longrightarrow> set fs \<subseteq> set ptMonths \<Longrightarrow>
      pt_month_loop fs lower = time_Format ''2006-01'' t" for fs p t
  proof (induction fs)
    case (Cons q fs)
    then show ?case
      using pt_month_unique [of lower p t q] by (cases "pt_month_try lower q") auto
  qed simp
  show ?thesis
  proof (cases "\<exists>p \<in> set ptMonths. \<exists>t. pt_month_try lower p = Some t")
    case True
    then obtain p t where "p \<in> set ptMonths" "pt_month_try lower p = Some t" by blast
    then show ?thesis using some [of p es t] some [of p ptMonths t] assms by simp
  next
    case False
    then show ?thesis using none [of es] none [of ptMonths] assms by simp
  qed
qed

text \<open>The result is empty, a date, or a month; and a result is read back as itself.\<close>

lemma pt_month_try_valid: "pt_month_try lower p = Some t \<Longrightarrow> valid_date t"
  by (auto simp: pt_month_try_def Let_def split: if_splits dest: parse_first_valid simp del: parse_first.simps)

lemma pt_month_loop_result:
  "pt_month_loop es lower = [] \<or> (\<exists>t. valid_date t \<and> pt_month_loop es lower = iso_month t)"
  by (induction es) (auto simp: format_iso_month split: option.splits dest: pt_month_try_valid)

lemma normalizeCVDate_result:
  "normalizeCVDate s = [] \<or> (\<exists>t. valid_date t \<and> (normalizeCVDate s = iso_date t \<or> normalizeCVDate s = iso_month t))"
  using pt_month_loop_result [of ptMonths "ToLower (slashes (TrimSpace s))"]
  by (auto simp: normalizeCVDate_def normalizeCVDate_in_def Let_def format_iso_month
      split: option.splits dest!: DateToISO_result parse_first_valid simp del: parse_first.simps)

lemma month_string:
  assumes "valid_date t"
  obtains a b c d e f where "iso_month t = [a, b, c, d, CHR ''-'', e, f]"
    and "list_all is_digit [a, b, c, d, e, f]" and "atoi [a, b, c, d] = Some (year t)"
    and "digit_val e * 10 + digit_val f = month t"
proof -
  from assms have y: "0 \<le> year t" "year t \<le> 9999" by (auto simp: valid_date_def)
  obtain a b c d where Y: "year4 (year t) = [a, b, c, d]" "is_digit a" "is_digit b" "is_digit c"
    "is_digit d" "int (dec_val [a, b, c, d]) = year t"
    by (rule year4_digits [OF y])
  obtain e f where M: "pad 2 (month t) = [e, f]" "is_digit e" "is_digit f"
    "digit_val e * 10 + digit_val f = month t"
    by (rule pad2_digits [OF valid_date_bounds(1) [OF assms]])
  show ?thesis
    using Y M by (intro that [of a b c d e f]) (simp_all add: iso_month_def atoi_digit_hd)
qed

lemma normalizeCVDate_month:
  assumes v: "valid_date t" shows "normalizeCVDate (iso_month t) = iso_month t"
proof -
  obtain a b c d e f where s: "iso_month t = [a, b, c, d, CHR ''-'', e, f]"
    and dig: "is_digit a" "is_digit b" "is_digit c" "is_digit d" "is_digit e" "is_digit f"
    and y: "atoi [a, b, c, d] = Some (year t)" and m: "digit_val e * 10 + digit_val f = month t"
    by (rule month_string [OF v]) simp
  have dc: "list_all date_char (iso_month t)" using dig by (simp add: s date_char_def)
  have w: "word (iso_month t)" using dc by (intro date_chars_word) (simp_all add: s)
  have sl: "slashes (iso_month t) = [a, b, c, d, CHR ''/'', e, f]"
    using slashes_date [OF _ dc] dig digit_not_sep by (auto simp: s)
  have ns: "c \<noteq> CHR ''/''" "before_space (slashes (iso_month t)) = None"
  proof -
    show "c \<noteq> CHR ''/''" using dig(3) digit_not_sep by blast
    have "list_all date_char [a, b, c, d, CHR ''/'', e, f]" using dig by (simp add: date_char_def)
    then have "word (slashes (iso_month t))" unfolding sl by (intro date_chars_word) simp_all
    then show "before_space (slashes (iso_month t)) = None"
      by (auto simp: before_space_def word_def list_all_iff list_ex_iff)
  qed
  have "parse_first layouts (slashes (iso_month t)) = None"
    using dig y m v ns(1)
    by (simp add: sl layouts_def time_Parse_def layout_numeric parse_std_def valid_date_def
        del: layout_items.simps)
  with ns(2) w have iso: "DateToISO (iso_month t) = None"
    by (subst DateToISO.simps) (simp add: word_TrimSpace word_def Let_def)
  have "parse_first monthLayouts (slashes (iso_month t)) = Some \<lparr>year = year t, month = month t, day = 1\<rparr>"
    using dig y m v
    by (simp add: sl monthLayouts_def time_Parse_def layout_month parse_std_def valid_date_def not_less
        Suc_le_eq del: layout_items.simps)
  with iso w show ?thesis
    by (simp add: normalizeCVDate_def normalizeCVDate_in_def word_TrimSpace word_def Let_def
        format_iso_month iso_month_def del: parse_first.simps)
qed

lemma normalizeCVDate_idem [simp]: "normalizeCVDate (normalizeCVDate s) = normalizeCVDate s"
proof -
  have "normalizeCVDate (iso_date t) = iso_date t" if "valid_date t" for t
  proof -
    have "word (iso_date t)" using date_strings [OF that] by (intro date_chars_word)
    then show ?thesis
      using DateToISO_iso [OF that] date_strings(3) [OF that]
      by (simp add: normalizeCVDate_def normalizeCVDate_in_def word_TrimSpace Let_def)
  qed
  moreover have "normalizeCVDate [] = []" by (simp add: normalizeCVDate_def normalizeCVDate_in_def)
  ultimately show ?thesis
    using normalizeCVDate_result [of s] normalizeCVDate_month by auto
qed

section \<open>Laws of the telephone number\<close>

fun phone_runes :: "bool \<Rightarrow> (rune \<times> string) list \<Rightarrow> rune list" where
  "phone_runes at0 [] = []"
| "phone_runes at0 (p # ps) =
     (if IsDigit (fst p) \<or> (fst p = 43 \<and> at0) then [fst p] else []) @ phone_runes False ps"

lemma phone_keep_runes: "phone_keep at0 cs = concat (map encode_rune (phone_runes at0 cs))"
  by (induction at0 cs rule: phone_keep.induct) auto

lemma phone_runes_digits: "r \<in> set (phone_runes False cs) \<Longrightarrow> IsDigit r"
  by (induction cs) (auto split: if_splits)

lemma phone_runes_shape:
  "\<exists>ds. list_all IsDigit ds \<and> (phone_runes at0 cs = ds \<or> phone_runes at0 cs = 43 # ds)"
proof (cases cs)
  case (Cons p ps)
  have "list_all IsDigit (phone_runes False ps)" by (auto simp: list_all_iff dest: phone_runes_digits)
  then show ?thesis
    by (cases "IsDigit (fst p)")
      (auto simp: Cons intro: exI [of _ "fst p # phone_runes False ps"] exI [of _ "phone_runes False ps"])
qed simp

lemma phone_runes_valid: "list_all (\<lambda>p. valid_rune (fst p)) cs \<Longrightarrow> list_all valid_rune (phone_runes at0 cs)"
  by (induction at0 cs rule: phone_keep.induct) auto

lemma phone_runes_fixed:
  "list_all IsDigit ds \<Longrightarrow> phone_runes at0 (map (\<lambda>r. (r, f r)) ds) = ds"
  "list_all IsDigit ds \<Longrightarrow> phone_runes True (map (\<lambda>r. (r, f r)) (43 # ds)) = 43 # ds"
proof -
  show *: "list_all IsDigit ds \<Longrightarrow> phone_runes at0 (map (\<lambda>r. (r, f r)) ds) = ds" for ds at0
    by (induction ds arbitrary: at0) auto
  show "list_all IsDigit ds \<Longrightarrow> phone_runes True (map (\<lambda>r. (r, f r)) (43 # ds)) = 43 # ds"
    by (simp add: *)
qed

lemma chunks_concat_encode:
  "list_all valid_rune rs \<Longrightarrow> chunks (concat (map encode_rune rs)) = map (\<lambda>r. (r, encode_rune r)) rs"
  by (induction rs) (auto simp: chunks_encode)

definition space_runes :: "rune list" where
  "space_runes = [9, 10, 11, 12, 13, 32, 133, 160, 5760] @ [8192..<8203] @ [8232, 8233, 8239, 8287, 12288]"

lemma IsSpace_runes: "IsSpace r \<Longrightarrow> r \<in> set space_runes"
  unfolding IsSpace_def space_runes_def set_append set_upt by auto

lemma IsDigit_not_space: "IsDigit r \<Longrightarrow> \<not> IsSpace r"
proof -
  have "list_all (\<lambda>r. \<not> IsDigit r) space_runes" by code_simp
  then show "IsDigit r \<Longrightarrow> \<not> IsSpace r" using IsSpace_runes by (auto simp: list_all_iff)
qed

lemma normalizePhone_cases:
  obtains "normalizePhone s = []" | ds where "list_all IsDigit ds"
    and "normalizePhone s = concat (map encode_rune ds) \<or> normalizePhone s = concat (map encode_rune (43 # ds))"
    and "list_all valid_rune ds" and "8 \<le> length (DigitsOnly (normalizePhone s))"
proof (cases "normalizePhone s = []")
  case False
  let ?cs = "chunks (TrimSpace s)"
  have e: "normalizePhone s = phone_keep True ?cs" and len: "8 \<le> length (DigitsOnly (normalizePhone s))"
    using False by (auto simp: normalizePhone_def Let_def split: if_splits)
  have v: "list_all valid_rune (phone_runes True ?cs)"
    using chunk_valid by (intro phone_runes_valid) (simp add: list_all_iff)
  obtain ds where "list_all IsDigit ds" "phone_runes True ?cs = ds \<or> phone_runes True ?cs = 43 # ds"
    using phone_runes_shape by blast
  with e v len show ?thesis by (intro that(2) [of ds]) (auto simp: phone_keep_runes)
qed (rule that(1))

lemma phone_word:
  assumes "list_all valid_rune rs" "\<forall>r \<in> set rs. IsDigit r \<or> r = 43" "rs \<noteq> []"
  shows "word (concat (map encode_rune rs))"
proof -
  have "chunks (concat (map encode_rune rs)) \<noteq> []"
    using assms(1,3) by (simp add: chunks_concat_encode del: chunks_eq_Nil)
  moreover have "\<not> IsSpace 43" by (simp add: IsSpace_def)
  ultimately show ?thesis
    using assms(1,2) IsDigit_not_space
    by (auto simp: word_def chunks_concat_encode list_all_iff is_space_chunk_def)
qed

lemma normalizePhone_idem [simp]: "normalizePhone (normalizePhone s) = normalizePhone s"
proof (rule normalizePhone_cases [of s])
  assume "normalizePhone s = []"
  then show ?thesis by (simp add: normalizePhone_def [of "[]"])
next
  fix ds
  assume ds: "list_all IsDigit ds" "list_all valid_rune ds" "8 \<le> length (DigitsOnly (normalizePhone s))"
    and "normalizePhone s = concat (map encode_rune ds) \<or> normalizePhone s = concat (map encode_rune (43 # ds))"
  then obtain rs where rs: "normalizePhone s = concat (map encode_rune rs)" "rs = ds \<or> rs = 43 # ds" by blast
  have v: "list_all valid_rune rs" using ds(2) rs(2) by (auto simp: valid_rune_def)
  have ne: "rs \<noteq> []" using ds(3) rs(1) by auto
  have "word (normalizePhone s)"
    unfolding rs(1) using v ne ds(1) rs(2) by (intro phone_word) (auto simp: list_all_iff)
  moreover have "phone_keep True (chunks (normalizePhone s)) = normalizePhone s"
    unfolding rs(1) phone_keep_runes using v rs(2) phone_runes_fixed [OF ds(1)]
    by (auto simp: chunks_concat_encode)
  ultimately show ?thesis
    using ds(3) by (simp add: normalizePhone_def [of "normalizePhone s"] word_TrimSpace word_def Let_def)
qed

section \<open>Normal form of a curriculum\<close>

lemma cleanLanguages_idem: "cleanLanguages (cleanLanguages ls) = cleanLanguages ls"
  by (induction ls) (auto simp: Let_def)

lemma cleanExperience_idem: "cleanExperience (cleanExperience es) = cleanExperience es"
  by (induction es) (auto simp: Let_def split: option.splits)

lemma cleanEducation_idem: "cleanEducation (cleanEducation es) = cleanEducation es"
  by (induction es) (auto simp: Let_def)

lemma cleanCertifications_idem: "cleanCertifications (cleanCertifications cs) = cleanCertifications cs"
  by (induction cs) (auto simp: Let_def)

lemma cleanExperience_end:
  "e \<in> set (cleanExperience es) \<Longrightarrow> ex_end_date e = Some d \<Longrightarrow>
     \<not> ex_current e \<and> (\<exists>t. valid_date t \<and> (d = iso_date t \<or> d = iso_month t))"
proof (induction es)
  case (Cons x es)
  have "\<exists>t. valid_date t \<and> (n = iso_date t \<or> n = iso_month t)" if "normalizeCVDate s = n" "n \<noteq> []" for s n
    using normalizeCVDate_result [of s] that by auto
  with Cons show ?case by (auto simp: Let_def split: if_splits option.splits)
qed simp

section \<open>Properties\<close>

text \<open>
  C14: The Go runtime ranges over the map of Portuguese month names in an unspecified order, but
  whatever the order the function returns the same date for every input: no input is read by two
  entries of the map.
\<close>

theorem normalizeCVDate_any_order:
  assumes "set es = set ptMonths"
  shows "normalizeCVDate_in es s = normalizeCVDate s"
  using pt_month_loop_order [OF assms]
  by (auto simp: normalizeCVDate_def normalizeCVDate_in_def Let_def split: option.splits)

theorem normalizeCVDate_any_order_witness:
  "normalizeCVDate_in (rev ptMonths) ''dezembro 2019'' = ''2019-12''"
proof -
  have "set (rev ptMonths) = set ptMonths" by simp
  then have "normalizeCVDate_in (rev ptMonths) ''dezembro 2019'' = normalizeCVDate ''dezembro 2019''"
    by (rule normalizeCVDate_any_order)
  also have "\<dots> = ''2019-12''" by code_simp
  finally show ?thesis .
qed

text \<open>
  C15: Cleaning the skills loses and invents nothing. The categories of the result are the known
  categories that receive some item, in the fixed order; the items of a group are collapsed,
  non-empty and pairwise different up to letter case; and up to letter case they are exactly the
  non-blank items of all input groups whose category is read as that category.
\<close>

theorem cleanSkills_exact:
  "map sg_category (cleanSkills gs) = filter (\<lambda>c. skill_keys gs c \<noteq> {}) skillCategoryOrder \<and>
   (\<forall>g \<in> set (cleanSkills gs). sg_items g \<noteq> [] \<and> clean_items (sg_items g) \<and>
      ToLower ` set (sg_items g) = skill_keys gs (sg_category g))"
  using cleanSkills_categories cleanSkills_group by blast

theorem cleanSkills_exact_witness:
  "clean_items (sg_items \<lparr>sg_category = ''backend'', sg_items = [''Go'']\<rparr>)"
proof -
  have "\<lparr>sg_category = ''backend'', sg_items = [''Go'']\<rparr> \<in>
      set (cleanSkills [\<lparr>sg_category = ''server'', sg_items = ['' Go '', ''go'', []]\<rparr>])"
    by code_simp
  with cleanSkills_exact [of "[\<lparr>sg_category = ''server'', sg_items = ['' Go '', ''go'', []]\<rparr>]"]
  show ?thesis by blast
qed

text \<open>
  C16: A normalised curriculum is a fixed point of the normalisation, whatever the e-mail parser
  does: every field other than the e-mail is unchanged by a second pass.
\<close>

theorem normalize_curriculum_fixed:
  "(normalize_curriculum parse_address (normalize_curriculum parse_address r))\<lparr>cv_email := e\<rparr> =
   (normalize_curriculum parse_address r)\<lparr>cv_email := e\<rparr>"
  by (simp add: normalize_curriculum_def cleanSkills_idem cleanLanguages_idem cleanExperience_idem
      cleanEducation_idem cleanCertifications_idem)

text \<open>
  In a cleaned work history a role marked current has no end date, and every end date that is
  kept is a calendar date or a calendar month in ISO form.
\<close>

theorem cleanExperience_end_dates:
  "e \<in> set (cleanExperience es) \<Longrightarrow> ex_end_date e = Some d \<Longrightarrow>
     \<not> ex_current e \<and> (\<exists>t. valid_date t \<and> (d = iso_date t \<or> d = iso_month t))"
  by (rule cleanExperience_end)

theorem cleanExperience_end_dates_witness:
  "\<exists>t. valid_date t \<and> (''2022-12'' = iso_date t \<or> ''2022-12'' = iso_month t)"
proof -
  let ?e = "\<lparr>ex_company = ''Acme'', ex_title = [], ex_location = [], ex_start_date = ''01/2020'',
     ex_end_date = Some ''12/2022'', ex_current = False, ex_highlights = []\<rparr>"
  have "ex_end_date (hd (cleanExperience [?e])) = Some ''2022-12''" by code_simp
  moreover have "cleanExperience [?e] \<noteq> []" by code_simp
  ultimately show ?thesis
    using cleanExperience_end_dates [of "hd (cleanExperience [?e])" "[?e]" "''2022-12''"]
    by (metis hd_in_set)
qed

text \<open>
  A normalised telephone number is empty or has at least eight ASCII digits, consists of
  decimal digits after an optional leading plus sign, and is left unchanged by a second pass.
\<close>

theorem normalizePhone_normal_form:
  "(normalizePhone s = [] \<or>
     (8 \<le> length (DigitsOnly (normalizePhone s)) \<and>
      (\<exists>ds. list_all IsDigit ds \<and>
         (normalizePhone s = concat (map encode_rune ds)
          \<or> normalizePhone s = ''+'' @ concat (map encode_rune ds)))))
   \<and> normalizePhone (normalizePhone s) = normalizePhone s"
proof -
  have "encode_rune 43 = ''+''" by code_simp
  then show ?thesis
    using normalizePhone_cases [of s] by (metis concat.simps(2) list.map(2) normalizePhone_idem)
qed

end
