(* ===== verification/Go_Float.thy ===== *)
theory Go_Float
  imports Complex_Main Prelude
begin

text \<open>
  The \<^verbatim>\<open>float64\<close> arithmetic of image scaling and of durations. A positive finite double is a rational;
  every operation of Go computes the exact result and rounds it to the nearest number of 53 significant
  bits, ties to even. The values of the program stay far from overflow and from the subnormal numbers,
  which \<open>f64\<close> leaves out; negative numbers do not occur.
\<close>

fun ilog :: "nat \<Rightarrow> nat" where
  "ilog n = (if n < 2 then 0 else Suc (ilog (n div 2)))"

declare ilog.simps [simp del]

definition rat_exp :: "rat \<Rightarrow> int" where
  "rat_exp x =
     (let (p, q) = quotient_of x; e = int (ilog (nat p)) - int (ilog (nat q)) in
      if 2 powi e \<le> x then e else e - 1)"

definition round_even :: "rat \<Rightarrow> int" where
  "round_even x =
     (let f = \<lfloor>x\<rfloor>; d = x - of_int f in
      if d < 1 / 2 then f else if 1 / 2 < d then f + 1 else if even f then f else f + 1)"

definition f64 :: "rat \<Rightarrow> rat" where
  "f64 x = (let u = 2 powi (rat_exp x - 52) in of_int (round_even (x / u)) * u)"

text \<open>Conversion of a non-negative \<^verbatim>\<open>float64\<close> to \<^verbatim>\<open>int\<close> drops the fraction.\<close>

definition f64_int :: "rat \<Rightarrow> int" where
  "f64_int x = \<lfloor>x\<rfloor>"

lemma ilog_bounds: "0 < n \<Longrightarrow> 2 ^ ilog n \<le> n \<and> n < 2 * 2 ^ ilog n"
proof (induction n rule: ilog.induct)
  case (1 n)
  show ?case
  proof (cases "n < 2")
    case True
    with "1.prems" show ?thesis by (simp add: ilog.simps)
  next
    case False
    with "1.IH" have "2 ^ ilog (n div 2) \<le> n div 2 \<and> n div 2 < 2 * 2 ^ ilog (n div 2)" by simp
    then have "2 * 2 ^ ilog (n div 2) \<le> n \<and> n < 4 * 2 ^ ilog (n div 2)" by linarith
    with False show ?thesis by (simp add: ilog.simps [of n])
  qed
qed

lemma round_even_error: "\<bar>of_int (round_even x) - x\<bar> \<le> 1 / 2"
proof -
  have "of_int \<lfloor>x\<rfloor> \<le> x" "x < of_int \<lfloor>x\<rfloor> + 1" by linarith+
  then show ?thesis by (auto simp: round_even_def Let_def abs_le_iff)
qed

lemma round_even_int [simp]: "round_even (of_int n) = n"
  by (simp add: round_even_def)

text \<open>The exponent is a lower bound of the binary logarithm, which is all that the error bound needs.\<close>

lemma ilog_frac:
  assumes "0 < p" and "0 < q"
  shows "(2::rat) powi (int (ilog p) - int (ilog q) - 1) \<le> of_nat p / of_nat q"
proof -
  have "of_nat (2 ^ ilog p) \<le> (of_nat p :: rat)" and "of_nat q \<le> (of_nat (2 * 2 ^ ilog q) :: rat)"
    using ilog_bounds [OF assms(1)] ilog_bounds [OF assms(2)] by (simp_all only: of_nat_le_iff less_imp_le)
  then have *: "(2::rat) ^ ilog p \<le> of_nat p" "of_nat q \<le> (2::rat) * 2 ^ ilog q" by simp_all
  have "(2::rat) powi (int (ilog p) - int (ilog q) - 1) = 2 ^ ilog p / (2 * 2 ^ ilog q)"
    by (simp add: power_int_diff)
  also have "\<dots> \<le> of_nat p / of_nat q"
    using * assms by (intro frac_le) simp_all
  finally show ?thesis .
qed

lemma rat_exp_le:
  assumes "0 < x" shows "2 powi rat_exp x \<le> x"
proof -
  obtain p q where pq: "quotient_of x = (p, q)" by (cases "quotient_of x")
  have q: "0 < q" using quotient_of_denom_pos [OF pq] .
  have x: "x = of_int p / of_int q" using quotient_of_div [OF pq] .
  with assms q have p: "0 < p" by (simp add: zero_less_divide_iff)
  have "2 powi (int (ilog (nat p)) - int (ilog (nat q)) - 1) \<le> x"
    using ilog_frac [of "nat p" "nat q"] p q x by simp
  then show ?thesis by (simp add: rat_exp_def pq Let_def)
qed

lemma f64_error:
  assumes "0 < x" shows "\<bar>f64 x - x\<bar> \<le> x / 2 ^ 53"
proof -
  define u where "u = (2::rat) powi (rat_exp x - 52)"
  have u: "0 < u" by (simp add: u_def)
  have "u = 2 powi rat_exp x / 2 ^ 52"
    by (simp add: u_def power_int_diff)
  then have ux: "u \<le> x / 2 ^ 52"
    using rat_exp_le [OF assms] by (simp add: divide_right_mono)
  have "f64 x - x = (of_int (round_even (x / u)) - x / u) * u"
    using u by (simp add: f64_def Let_def u_def [symmetric] algebra_simps)
  then have "\<bar>f64 x - x\<bar> = \<bar>of_int (round_even (x / u)) - x / u\<bar> * u"
    using u by (simp add: abs_mult)
  also have "\<dots> \<le> 1 / 2 * u"
    using u round_even_error by (intro mult_right_mono) simp_all
  also have "\<dots> \<le> x / 2 ^ 53" using ux by simp
  finally show ?thesis .
qed

lemma f64_le: "0 < x \<Longrightarrow> f64 x \<le> x * (1 + 1 / 2 ^ 53)"
  using abs_le_D1 [OF f64_error [of x]] by (simp add: algebra_simps)

lemma f64_ge: "0 < x \<Longrightarrow> x * (1 - 1 / 2 ^ 53) \<le> f64 x"
  using abs_le_D2 [OF f64_error [of x]] by (simp add: algebra_simps)

lemma f64_pos:
  assumes "0 < x" shows "0 < f64 x"
proof -
  have "0 < x * (1 - 1 / 2 ^ 53)" using assms by simp
  also have "\<dots> \<le> f64 x" by (rule f64_ge [OF assms])
  finally show ?thesis .
qed

text \<open>Integers of at most 53 bits are exact.\<close>

lemma f64_of_int:
  assumes "0 < n" and "n < 2 ^ 53" shows "f64 (of_int n) = of_int n"
proof -
  have q: "quotient_of (of_int n) = (n, 1)" by (simp add: quotient_of_int)
  define k where "k = ilog (nat n)"
  have "2 ^ k \<le> nat n" using ilog_bounds [of "nat n"] assms by (simp add: k_def)
  then have kn: "2 ^ k \<le> n" using assms by (simp add: nat_le_eq_zle le_nat_iff)
  then have "(2::int) ^ k < 2 ^ 53" using assms by linarith
  then have "k < 53" by (simp only: power_strict_increasing_iff)
  then have k: "k \<le> 52" by simp
  have "(2::rat) powi int k = of_int (2 ^ k)" by simp
  also have "\<dots> \<le> of_int n" using kn by (simp only: of_int_le_iff)
  finally have e: "rat_exp (of_int n) = int k"
    by (simp add: rat_exp_def q k_def [symmetric] ilog.simps [of "Suc 0"] Let_def)
  have u: "(2::rat) powi (int k - 52) = 1 / 2 ^ (52 - k)"
    using k by (simp add: power_int_def nat_diff_distrib power_one_over field_simps)
  have "(of_int n :: rat) / (1 / 2 ^ (52 - k)) = of_int (n * 2 ^ (52 - k))" by simp
  then have "round_even (of_int n / (1 / 2 ^ (52 - k))) = n * 2 ^ (52 - k)"
    by (simp only: round_even_int)
  then show ?thesis by (simp add: f64_def e u Let_def)
qed

end
