(* ===== verification/Content_Sniff.thy ===== *)
theory Content_Sniff
  imports Go_Strings
begin

text \<open>
  The function \<^verbatim>\<open>http.DetectContentType\<close> of the Go library, which \<^verbatim>\<open>ValidateUpload\<close> relies on: the
  first 512 bytes are matched against a table of signatures, in order, and the last resort is
  \<^verbatim>\<open>application/octet-stream\<close>.
\<close>

section \<open>Signatures\<close>

datatype sig =
    ExactSig string string
  | MaskedSig "nat list" "nat list" bool string
  | HtmlSig string
  | Mp4Sig
  | TextSig

definition isWS :: "char \<Rightarrow> bool" where
  "isWS c \<longleftrightarrow> byte c \<in> {9, 10, 12, 13, 32}"

definition isTT :: "char \<Rightarrow> bool" where
  "isTT c \<longleftrightarrow> c = CHR '' '' \<or> c = CHR ''>''"

text \<open>
  The masks of the table are 0xFF (compare the byte) and 0x00 (ignore it, the pattern byte there is
  zero), so \<^verbatim>\<open>data[i] & mask[i] == pat[i]\<close> is a comparison of the masked positions.
\<close>

definition masked :: "nat list \<Rightarrow> nat list \<Rightarrow> string \<Rightarrow> bool" where
  "masked mk pat d \<longleftrightarrow>
     length pat = length mk \<and> length pat \<le> length d
     \<and> list_all (\<lambda>(m, p, c). (if m = 255 then byte c else 0) = p) (zip mk (zip pat d))"

definition bytes_of :: "string \<Rightarrow> nat list" where
  "bytes_of s = map byte s"

text \<open>Clearing bit 5 turns an ASCII lower-case letter into the capital.\<close>

definition clear5 :: "nat \<Rightarrow> nat" where
  "clear5 b = (if (b div 32) mod 2 = 1 then b - 32 else b)"

definition html_match :: "string \<Rightarrow> string \<Rightarrow> bool" where
  "html_match h d \<longleftrightarrow>
     length h + 1 \<le> length d
     \<and> list_all (\<lambda>(b, c). (if in_range 65 90 b then clear5 (byte c) else byte c) = byte b) (zip h d)
     \<and> isTT (d ! length h)"

definition box_size :: "string \<Rightarrow> nat" where
  "box_size d = ((byte (d ! 0) * 256 + byte (d ! 1)) * 256 + byte (d ! 2)) * 256 + byte (d ! 3)"

definition mp4_match :: "string \<Rightarrow> bool" where
  "mp4_match d \<longleftrightarrow>
     12 \<le> length d \<and> box_size d \<le> length d \<and> box_size d mod 4 = 0
     \<and> take 4 (drop 4 d) = ''ftyp''
     \<and> list_ex (\<lambda>st. st \<noteq> 12 \<and> take 3 (drop st d) = ''mp4'')
         (map (\<lambda>k. 8 + 4 * k) [0..<(box_size d - 8 + 3) div 4])"

definition binary_byte :: "char \<Rightarrow> bool" where
  "binary_byte c \<longleftrightarrow> byte c \<le> 8 \<or> byte c = 11 \<or> (14 \<le> byte c \<and> byte c \<le> 26) \<or> (28 \<le> byte c \<and> byte c \<le> 31)"

definition sig_match :: "string \<Rightarrow> sig \<Rightarrow> string option" where
  "sig_match d s =
     (case s of
        ExactSig pat ct \<Rightarrow> if HasPrefix d pat then Some ct else None
      | MaskedSig mk pat skipWS ct \<Rightarrow>
          if masked mk pat (if skipWS then dropWhile isWS d else d) then Some ct else None
      | HtmlSig h \<Rightarrow> if html_match h (dropWhile isWS d) then Some ''text/html; charset=utf-8'' else None
      | Mp4Sig \<Rightarrow> if mp4_match d then Some ''video/mp4'' else None
      | TextSig \<Rightarrow>
          if list_ex binary_byte (dropWhile isWS d) then None else Some ''text/plain; charset=utf-8'')"

abbreviation ff :: "nat \<Rightarrow> nat list" where
  "ff n \<equiv> replicate n 255"

abbreviation zz :: "nat \<Rightarrow> nat list" where
  "zz n \<equiv> replicate n 0"

definition chars :: "nat list \<Rightarrow> string" where
  "chars bs = map char_of bs"

definition sniffSignatures :: "sig list" where
  "sniffSignatures =
     map HtmlSig [''<!DOCTYPE HTML'', ''<HTML'', ''<HEAD'', ''<SCRIPT'', ''<IFRAME'', ''<H1'', ''<DIV'',
       ''<FONT'', ''<TABLE'', ''<A'', ''<STYLE'', ''<TITLE'', ''<B'', ''<BODY'', ''<BR'', ''<P'', ''<!--'']
     @ [MaskedSig (ff 5) (bytes_of ''<?xml'') True ''text/xml; charset=utf-8'',
        ExactSig ''%PDF-'' ''application/pdf'',
        ExactSig ''%!PS-Adobe-'' ''application/postscript'',
        MaskedSig [255, 255, 0, 0] [254, 255, 0, 0] False ''text/plain; charset=utf-16be'',
        MaskedSig [255, 255, 0, 0] [255, 254, 0, 0] False ''text/plain; charset=utf-16le'',
        MaskedSig [255, 255, 255, 0] [239, 187, 191, 0] False ''text/plain; charset=utf-8'',
        ExactSig (chars [0, 0, 1, 0]) ''image/x-icon'',
        ExactSig (chars [0, 0, 2, 0]) ''image/x-icon'',
        ExactSig ''BM'' ''image/bmp'',
        ExactSig ''GIF87a'' ''image/gif'',
        ExactSig ''GIF89a'' ''image/gif'',
        MaskedSig (ff 4 @ zz 4 @ ff 6) (bytes_of ''RIFF'' @ zz 4 @ bytes_of ''WEBPVP'') False ''image/webp'',
        ExactSig (chars [137, 80, 78, 71, 13, 10, 26, 10]) ''image/png'',
        ExactSig (chars [255, 216, 255]) ''image/jpeg'',
        MaskedSig (ff 4 @ zz 4 @ ff 4) (bytes_of ''FORM'' @ zz 4 @ bytes_of ''AIFF'') False ''audio/aiff'',
        MaskedSig (ff 3) (bytes_of ''ID3'') False ''audio/mpeg'',
        MaskedSig (ff 5) (bytes_of ''OggS'' @ [0]) False ''application/ogg'',
        MaskedSig (ff 8) (bytes_of ''MThd'' @ [0, 0, 0, 6]) False ''audio/midi'',
        MaskedSig (ff 4 @ zz 4 @ ff 4) (bytes_of ''RIFF'' @ zz 4 @ bytes_of ''AVI '') False ''video/avi'',
        MaskedSig (ff 4 @ zz 4 @ ff 4) (bytes_of ''RIFF'' @ zz 4 @ bytes_of ''WAVE'') False ''audio/wave'',
        Mp4Sig,
        ExactSig (chars [26, 69, 223, 163]) ''video/webm'',
        MaskedSig (zz 34 @ ff 2) (zz 34 @ bytes_of ''LP'') False ''application/vnd.ms-fontobject'',
        ExactSig (chars [0, 1, 0, 0]) ''font/ttf'',
        ExactSig ''OTTO'' ''font/otf'',
        ExactSig ''ttcf'' ''font/collection'',
        ExactSig ''wOFF'' ''font/woff'',
        ExactSig ''wOF2'' ''font/woff2'',
        ExactSig (chars [31, 139, 8]) ''application/x-gzip'',
        ExactSig (chars [80, 75, 3, 4]) ''application/zip'',
        ExactSig (''Rar!'' @ chars [26, 7, 0]) ''application/x-rar-compressed'',
        ExactSig (''Rar!'' @ chars [26, 7, 1, 0]) ''application/x-rar-compressed'',
        ExactSig (chars [0, 97, 115, 109]) ''application/wasm'',
        TextSig]"

fun first_match :: "string \<Rightarrow> sig list \<Rightarrow> string" where
  "first_match d [] = ''application/octet-stream''"
| "first_match d (s # ss) = (case sig_match d s of Some ct \<Rightarrow> ct | None \<Rightarrow> first_match d ss)"

definition DetectContentType :: "bytes \<Rightarrow> string" where
  "DetectContentType data = first_match (take 512 data) sniffSignatures"

section \<open>Laws\<close>

definition sig_ct :: "sig \<Rightarrow> string" where
  "sig_ct s =
     (case s of
        ExactSig _ ct \<Rightarrow> ct
      | MaskedSig _ _ _ ct \<Rightarrow> ct
      | HtmlSig _ \<Rightarrow> ''text/html; charset=utf-8''
      | Mp4Sig \<Rightarrow> ''video/mp4''
      | TextSig \<Rightarrow> ''text/plain; charset=utf-8'')"

lemma sig_match_ct: "sig_match d s = Some ct \<Longrightarrow> ct = sig_ct s"
  by (auto simp: sig_match_def sig_ct_def split: sig.splits if_splits)

lemma first_match_cases:
  "first_match d ss = ''application/octet-stream'' \<or>
   (\<exists>s \<in> set ss. sig_match d s = Some (sig_ct s) \<and> first_match d ss = sig_ct s)"
proof (induction ss)
  case (Cons s ss)
  then show ?case using sig_match_ct [of d s] by (auto split: option.split)
qed simp

lemma HasPrefix_take: "HasPrefix (take n d) p \<Longrightarrow> HasPrefix d p"
  by (metis HasPrefix_conv append.assoc append_take_drop_id)

lemma maskedD:
  assumes "masked mk pat d" and "i < length pat" and "mk ! i = 255"
  shows "byte (d ! i) = pat ! i"
  using assms by (auto simp: masked_def list_all_length)

lemma byte_eq_iff: "byte c = byte d \<longleftrightarrow> c = d"
  by (metis char_of_byte)

lemma char_of_eq_byte: "n < 256 \<Longrightarrow> char_of n = c \<longleftrightarrow> n = byte c" for n :: nat
  by (metis byte_char_of char_of_byte)

lemma replicate_eval:
  "replicate 2 x = [x, x]" "replicate 3 x = [x, x, x]" "replicate 4 x = [x, x, x, x]"
  "replicate 5 x = [x, x, x, x, x]" "replicate 6 x = [x, x, x, x, x, x]"
  "replicate 8 x = [x, x, x, x, x, x, x, x]"
  by (simp_all add: numeral_eq_Suc)

lemma masked_webp:
  assumes "masked (ff 4 @ zz 4 @ ff 6) (bytes_of ''RIFF'' @ zz 4 @ bytes_of ''WEBPVP'') d"
  shows "14 \<le> length d" and "take 4 d = ''RIFF''" and "take 4 (drop 8 d) = ''WEBP''"
proof -
  let ?m = "ff 4 @ zz 4 @ ff 6" and ?p = "bytes_of ''RIFF'' @ zz 4 @ bytes_of ''WEBPVP''"
  show l: "14 \<le> length d" using assms by (simp add: masked_def bytes_of_def)
  have n: "byte (d ! i) = ?p ! i" if "i \<in> set [0, 1, 2, 3, 8, 9, 10, 11]" for i
    using that by (intro maskedD [OF assms]) (auto simp: bytes_of_def replicate_eval)
  have *: "d ! 0 = CHR ''R''" "d ! 1 = CHR ''I''" "d ! 2 = CHR ''F''" "d ! 3 = CHR ''F''"
    "d ! 8 = CHR ''W''" "d ! 9 = CHR ''E''" "d ! 10 = CHR ''B''" "d ! 11 = CHR ''P''"
    using n [of 0] n [of 1] n [of 2] n [of 3] n [of 8] n [of 9] n [of 10] n [of 11]
    by (simp_all add: bytes_of_def byte_eq_iff replicate_eval)
  show "take 4 d = ''RIFF''"
    using l * by (intro nth_equalityI) (auto simp: less_Suc_eq numeral_eq_Suc)
  show "take 4 (drop 8 d) = ''WEBP''"
    using l * by (intro nth_equalityI) (auto simp: less_Suc_eq numeral_eq_Suc)
qed

text \<open>The signatures of the formats the program accepts, as what the first bytes of the file are.\<close>

definition magic :: "string \<Rightarrow> bytes \<Rightarrow> bool" where
  "magic mime d \<longleftrightarrow>
     mime = ''application/pdf'' \<and> HasPrefix d ''%PDF-''
     \<or> mime = ''image/png'' \<and> HasPrefix d (chars [137, 80, 78, 71, 13, 10, 26, 10])
     \<or> mime = ''image/jpeg'' \<and> HasPrefix d (chars [255, 216, 255])
     \<or> mime = ''image/webp'' \<and> 12 \<le> length d \<and> take 4 d = ''RIFF'' \<and> take 4 (drop 8 d) = ''WEBP''"

lemma magic_sig:
  assumes "sig_match (take 512 d) s = Some (sig_ct s)"
    and "s \<in> {ExactSig ''%PDF-'' ''application/pdf'',
      ExactSig (chars [137, 80, 78, 71, 13, 10, 26, 10]) ''image/png'',
      ExactSig (chars [255, 216, 255]) ''image/jpeg'',
      MaskedSig (ff 4 @ zz 4 @ ff 6) (bytes_of ''RIFF'' @ zz 4 @ bytes_of ''WEBPVP'') False ''image/webp''}"
  shows "magic (sig_ct s) d"
proof -
  have w: "magic ''image/webp'' d"
    if "masked (ff 4 @ zz 4 @ ff 6) (bytes_of ''RIFF'' @ zz 4 @ bytes_of ''WEBPVP'') (take 512 d)"
    using masked_webp [OF that] by (auto simp: magic_def drop_take min_def split: if_splits)
  from assms show ?thesis
    by (auto simp: sig_match_def sig_ct_def
        split: if_splits dest: HasPrefix_take intro: w) (auto simp: magic_def dest: HasPrefix_take)
qed

text \<open>A file that begins with one of the signatures is detected as that format.\<close>

lemmas sniff_eval = sniffSignatures_def sig_match_def masked_def html_match_def HasPrefix_def
  isWS_def bytes_of_def chars_def byte_def in_range_def clear5_def replicate_eval char_of_eq_byte

lemma detect_pdf: "DetectContentType (''%PDF-'' @ t) = ''application/pdf''"
  by (simp add: DetectContentType_def sniff_eval)

lemma detect_png:
  "DetectContentType (chars [137, 80, 78, 71, 13, 10, 26, 10] @ t) = ''image/png''"
  by (simp add: DetectContentType_def sniff_eval)

lemma detect_jpeg: "DetectContentType (chars [255, 216, 255] @ t) = ''image/jpeg''"
  by (simp add: DetectContentType_def sniff_eval)

lemma detect_webp:
  "DetectContentType (''RIFF'' @ [a, b, c, d] @ ''WEBPVP'' @ t) = ''image/webp''"
  by (simp add: DetectContentType_def sniff_eval)

end
