(* ===== verification/Preprocess.thy ===== *)
theory Preprocess
  imports Go_Float Content_Sniff Normalize "HOL-Library.Char_ord" "HOL-Library.List_Lexorder"
begin

text \<open>
  Package \<^verbatim>\<open>internal/preprocess\<close>: validation of an upload, choice between the text layer of a PDF
  and rendered pages, and the bounds on what is sent to the model. The image codecs, the PDF reader
  and the \<^verbatim>\<open>pdftoppm\<close> process are parameters.
\<close>

section \<open>Validation of uploads\<close>

datatype Kind = KindPDF | KindImage | KindOther

text \<open>
  The errors of the package: the four sentinels, each with the text that is wrapped around it, and
  the errors without a sentinel.
\<close>

datatype preprocess_error =
    ErrUnsupportedMedia string
  | ErrEmptyUpload
  | ErrUploadTooLarge nat
  | ErrMIMEMismatch string string
  | OtherError string

definition MaxUploadBytes :: nat where
  "MaxUploadBytes = 32 * 1048576"

definition allowedMIME :: "string \<rightharpoonup> Kind" where
  "allowedMIME = map_of [
     (''application/pdf'', KindPDF),
     (''image/jpeg'', KindImage),
     (''image/png'', KindImage),
     (''image/webp'', KindImage)]"

definition extensionKind :: "string \<rightharpoonup> Kind" where
  "extensionKind = map_of [
     (''.pdf'', KindPDF),
     (''.jpg'', KindImage),
     (''.jpeg'', KindImage),
     (''.png'', KindImage),
     (''.webp'', KindImage)]"

definition sniffImageMIME :: "bytes \<Rightarrow> string" where
  "sniffImageMIME data =
     (if 12 \<le> length data \<and> take 4 data = ''RIFF'' \<and> take 4 (drop 8 data) = ''WEBP''
      then ''image/webp'' else ''application/octet-stream'')"

definition canonicalizeMIME :: "string \<Rightarrow> string" where
  "canonicalizeMIME mime0 =
     (let mime = ToLower (TrimSpace mime0);
          mime = (case Index mime '';'' of Some i \<Rightarrow> TrimSpace (take i mime) | None \<Rightarrow> mime) in
      if mime = ''image/jpg'' then ''image/jpeg'' else mime)"

text \<open>
  \<^verbatim>\<open>filepath.Ext\<close>: the suffix from the last dot of the last path element (the path separator is the
  slash of the Linux container).
\<close>

fun path_ext_rev :: "string \<Rightarrow> string \<Rightarrow> string" where
  "path_ext_rev acc [] = []"
| "path_ext_rev acc (c # cs) =
     (if c = CHR ''/'' then []
      else if c = CHR ''.'' then c # acc
      else path_ext_rev (c # acc) cs)"

definition filepath_Ext :: "string \<Rightarrow> string" where
  "filepath_Ext path = path_ext_rev [] (rev path)"

definition ValidateUpload :: "string \<Rightarrow> bytes \<Rightarrow> Kind \<times> string \<times> preprocess_error option" where
  "ValidateUpload filename data =
     (if length data = 0 then (KindOther, [], Some ErrEmptyUpload)
      else if MaxUploadBytes < length data then (KindOther, [], Some (ErrUploadTooLarge (length data)))
      else
        let sniffed = canonicalizeMIME (DetectContentType data);
            sniffed = (if sniffed = ''application/octet-stream'' then sniffImageMIME data else sniffed) in
        case allowedMIME sniffed of
          None \<Rightarrow> (KindOther, sniffed, Some (ErrUnsupportedMedia sniffed))
        | Some kind \<Rightarrow>
            (let ext = ToLower (filepath_Ext filename) in
             case (if ext \<noteq> [] then extensionKind ext else None) of
               Some expected \<Rightarrow>
                 (if expected \<noteq> kind then (KindOther, sniffed, Some (ErrMIMEMismatch ext sniffed))
                  else (kind, sniffed, None))
             | None \<Rightarrow> (kind, sniffed, None)))"

section \<open>Images\<close>

definition maxImageEdge :: int where "maxImageEdge = 1600"
definition maxImageBytes :: nat where "maxImageBytes = 1500000"
definition maxDecodePixels :: int where "maxDecodePixels = 20000000"

text \<open>
  The image codecs: \<^verbatim>\<open>image.DecodeConfig\<close> gives width and height, \<^verbatim>\<open>image.Decode\<close> the width, the
  height and the pixels, and \<open>ScaleEncode\<close> is the Catmull-Rom scaling of the pixels into a given
  rectangle followed by the JPEG encoder of quality 85.
\<close>

record 'i imaging =
  DecodeConfig :: "bytes \<Rightarrow> (int \<times> int) option"
  Decode :: "bytes \<Rightarrow> (int \<times> int \<times> 'i) option"
  ScaleEncode :: "'i \<Rightarrow> int \<Rightarrow> int \<Rightarrow> bytes option"

text \<open>A product of two \<^verbatim>\<open>int64\<close> wraps around.\<close>

definition wrap64 :: "int \<Rightarrow> int" where
  "wrap64 n = (n + 2 ^ 63) mod 2 ^ 64 - 2 ^ 63"

definition image_scale :: "int \<Rightarrow> int \<Rightarrow> rat" where
  "image_scale w h =
     (if maxImageEdge < w \<or> maxImageEdge < h then
        let sw = f64 (f64 (of_int maxImageEdge) / f64 (of_int w));
            sh = f64 (f64 (of_int maxImageEdge) / f64 (of_int h)) in
        if sw < sh then sw else sh
      else 1)"

definition scaled_edge :: "int \<Rightarrow> rat \<Rightarrow> int" where
  "scaled_edge w scale = (let nw = f64_int (f64 (f64 (of_int w) * scale)) in if nw < 1 then 1 else nw)"

definition CompactImage :: "'i imaging \<Rightarrow> bytes \<Rightarrow> string + bytes \<times> string" where
  "CompactImage im data =
     (case DecodeConfig im data of
        None \<Rightarrow> Inl ''decode image''
      | Some (cw, ch) \<Rightarrow>
          if cw \<le> 0 \<or> ch \<le> 0 then Inl ''decode image: invalid dimensions''
          else if maxDecodePixels < wrap64 (cw * ch) then Inl ''decode image: dimensions too large''
          else case Decode im data of
            None \<Rightarrow> Inl ''decode image''
          | Some (w, h, img) \<Rightarrow>
              (let scale = image_scale w h;
                   nw = scaled_edge w scale;
                   nh = scaled_edge h scale in
               case ScaleEncode im img nw nh of
                 None \<Rightarrow> Inl ''jpeg encode''
               | Some compacted \<Rightarrow>
                   if maxImageBytes < length compacted then Inl ''image still too large after compact''
                   else Inr (compacted, ''image/jpeg'')))"

section \<open>Text and pages of a PDF\<close>

definition defaultMaxPages :: int where "defaultMaxPages = 3"

text \<open>What the PDF reader gives for a page: null, its plain text or an error.\<close>

datatype pdf_page = NullPage | PlainText string | PageError string

fun page_texts :: "string \<Rightarrow> pdf_page list \<Rightarrow> string + string" where
  "page_texts b [] = Inr b"
| "page_texts b (p # ps) =
     (case p of
        NullPage \<Rightarrow> page_texts b ps
      | PageError e \<Rightarrow> Inl e
      | PlainText t \<Rightarrow>
          (let text = TrimSpace t in
           if text = [] then page_texts b ps
           else page_texts (b @ (if b \<noteq> [] then [CHR 0x0A, CHR 0x0A] else []) @ text) ps))"

definition TextFromPDF :: "(bytes \<Rightarrow> pdf_page list option) \<Rightarrow> bytes \<Rightarrow> int \<Rightarrow> string + string" where
  "TextFromPDF reader data maxPages0 =
     (let maxPages = (if maxPages0 \<le> 0 then defaultMaxPages else maxPages0) in
      case reader data of
        None \<Rightarrow> Inl ''open pdf''
      | Some pages \<Rightarrow>
          if length pages = 0 then Inl ''pdf has no pages''
          else case page_texts [] (take (nat maxPages) pages) of
            Inl e \<Rightarrow> Inl e
          | Inr b \<Rightarrow>
              (let out = TrimSpace b in
               if out = [] then Inl ''no extractable text'' else Inr out))"

text \<open>
  The operating system as \<^verbatim>\<open>PDFPagesToJPEG\<close> sees it: whether the program is found, the temporary
  directory and the input file can be made, and the files that \<^verbatim>\<open>pdftoppm -f 1 -l n\<close> leaves for the
  pattern \<^verbatim>\<open>page-*.jpg\<close>, each with its contents if it can be read; \<open>None\<close> when the command fails.
\<close>

record render_os =
  LookPath :: bool
  MkdirTemp :: bool
  WriteFile :: bool
  pdftoppm :: "bytes \<Rightarrow> nat \<Rightarrow> (string \<times> bytes option) list option"

definition PDFPagesToJPEG :: "render_os \<Rightarrow> bytes \<Rightarrow> int \<Rightarrow> bytes list option" where
  "PDFPagesToJPEG os data maxPages0 =
     (let maxPages = (if maxPages0 \<le> 0 then defaultMaxPages else maxPages0) in
      if \<not> LookPath os then None
      else if \<not> MkdirTemp os then None
      else if \<not> WriteFile os then None
      else case pdftoppm os data (nat maxPages) of
        None \<Rightarrow> None
      | Some matches \<Rightarrow>
          (let files = sort_key fst matches in
           if files = [] then None else those (map snd files)))"

section \<open>Usable text layers\<close>

record text_scan =
  letters :: nat
  digits :: nat
  digitRun :: nat
  hasDigitRun :: bool

definition scan_rune :: "rune \<Rightarrow> text_scan \<Rightarrow> text_scan" where
  "scan_rune r a =
     (if IsLetter r then a\<lparr>letters := letters a + 1, digitRun := 0\<rparr>
      else if IsDigit r then
        a\<lparr>digits := digits a + 1, digitRun := digitRun a + 1,
          hasDigitRun := (hasDigitRun a \<or> 8 \<le> digitRun a + 1)\<rparr>
      else a\<lparr>digitRun := 0\<rparr>)"

definition scan_text :: "string \<Rightarrow> text_scan" where
  "scan_text s =
     fold scan_rune (map fst (chunks s)) \<lparr>letters = 0, digits = 0, digitRun = 0, hasDigitRun = False\<rparr>"

definition docSignals :: "string list" where
  "docSignals = [''cpf'', ''nome'', ''cnh'', ''rg'', ''experiencia'',
     ''experi'' @ [CHR 0xC3, CHR 0xAA] @ ''ncia'', ''education'',
     ''educa'' @ [CHR 0xC3, CHR 0xA7, CHR 0xC3, CHR 0xA3] @ ''o'', ''curriculo'',
     ''curr'' @ [CHR 0xC3, CHR 0xAD] @ ''culo'', ''resumo'', ''endereco'',
     ''endere'' @ [CHR 0xC3, CHR 0xA7] @ ''o'', ''cep'']"

definition minPDFTextChars :: nat where "minPDFTextChars = 200"
definition maxPDFTextChars :: nat where "maxPDFTextChars = 12000"
definition maxVisionPages :: int where "maxVisionPages = 2"

definition usablePDFText :: "string \<Rightarrow> bool" where
  "usablePDFText text =
     (let trimmed = TrimSpace text in
      if length trimmed < minPDFTextChars then False
      else
        let a = scan_text trimmed in
        if letters a < 60 then False
        else
          let lower = ToLower trimmed;
              hasDocSignal = (hasDigitRun a \<or> list_ex (Contains lower) docSignals) in
          if Contains lower ''xref'' \<or> Contains lower ''endobj'' \<or> Contains lower ''trailer'' then False
          else if 400 \<le> letters a \<and> 40 \<le> CountByte trimmed (CHR '' '') then True
          else hasDocSignal)"

section \<open>Prepared documents\<close>

record image =
  img_MIME :: string
  img_Data :: bytes

record prepared =
  pd_Kind :: Kind
  pd_MIME :: string
  pd_Text :: string
  pd_Images :: "image list"
  pd_Mode :: string
  pd_Filename :: string

record 'i pre_env =
  env_imaging :: "'i imaging"
  env_reader :: "bytes \<Rightarrow> pdf_page list option"
  env_render :: render_os

fun compact_pages :: "'i imaging \<Rightarrow> image list \<Rightarrow> bytes list \<Rightarrow> string + image list" where
  "compact_pages im imgs [] = Inr imgs"
| "compact_pages im imgs (p # ps) =
     (case CompactImage im p of
        Inl e \<Rightarrow> Inl e
      | Inr (compacted, outMIME) \<Rightarrow>
          compact_pages im (imgs @ [\<lparr>img_MIME = outMIME, img_Data = compacted\<rparr>]) ps)"

text \<open>\<open>Inr None\<close> is the result \<^verbatim>\<open>ok = false\<close> without an error: the pages could not be rendered.\<close>

definition preparePDFVision :: "'i pre_env \<Rightarrow> prepared \<Rightarrow> bytes \<Rightarrow> preprocess_error + prepared option" where
  "preparePDFVision env doc data =
     (case PDFPagesToJPEG (env_render env) data maxVisionPages of
        None \<Rightarrow> Inr None
      | Some pages \<Rightarrow>
          if length pages = 0 then Inr None
          else case compact_pages (env_imaging env) (pd_Images doc) pages of
            Inl e \<Rightarrow> Inl (OtherError (''pdf page preprocess: '' @ e))
          | Inr imgs \<Rightarrow> Inr (Some (doc\<lparr>pd_Images := imgs, pd_Mode := ''vision''\<rparr>)))"

definition capped_text :: "string \<Rightarrow> string" where
  "capped_text text =
     (let trimmed = TrimSpace text in
      if maxPDFTextChars < length trimmed then take maxPDFTextChars trimmed else trimmed)"

text \<open>The branch of a PDF after the optional first attempt to render it.\<close>

definition prepare_pdf_text :: "'i pre_env \<Rightarrow> prepared \<Rightarrow> bytes \<Rightarrow> preprocess_error + prepared" where
  "prepare_pdf_text env doc data =
     (let text = TextFromPDF (env_reader env) data defaultMaxPages in
      case text of
        Inr t \<Rightarrow>
          if usablePDFText t then Inr (doc\<lparr>pd_Text := capped_text t, pd_Mode := ''text''\<rparr>)
          else (case preparePDFVision env doc data of
              Inl e \<Rightarrow> Inl e
            | Inr (Some visionDoc) \<Rightarrow> Inr visionDoc
            | Inr None \<Rightarrow>
                if TrimSpace t = [] then Inl (OtherError ''pdf has no usable text and render failed'')
                else Inr (doc\<lparr>pd_Text := capped_text t, pd_Mode := ''text''\<rparr>))
      | Inl te \<Rightarrow>
          (case preparePDFVision env doc data of
              Inl e \<Rightarrow> Inl e
            | Inr (Some visionDoc) \<Rightarrow> Inr visionDoc
            | Inr None \<Rightarrow> Inl (OtherError (''pdf has no usable text and render failed: '' @ te))))"

definition PrepareWithOptions :: "'i pre_env \<Rightarrow> string \<Rightarrow> bytes \<Rightarrow> bool \<Rightarrow> preprocess_error + prepared" where
  "PrepareWithOptions env filename data PreferVision =
     (case ValidateUpload filename data of
        (_, _, Some err) \<Rightarrow> Inl err
      | (kind, mime, None) \<Rightarrow>
          (let doc = \<lparr>pd_Kind = kind, pd_MIME = mime, pd_Text = [], pd_Images = [], pd_Mode = [],
                      pd_Filename = filename\<rparr> in
           case kind of
             KindImage \<Rightarrow>
               (case CompactImage (env_imaging env) data of
                  Inl e \<Rightarrow> Inl (OtherError (''image preprocess: '' @ e))
                | Inr (compacted, outMIME) \<Rightarrow>
                    Inr (doc\<lparr>pd_Images := [\<lparr>img_MIME = outMIME, img_Data = compacted\<rparr>],
                             pd_MIME := outMIME, pd_Mode := ''vision''\<rparr>))
           | KindPDF \<Rightarrow>
               if PreferVision then
                 (case preparePDFVision env doc data of
                    Inl e \<Rightarrow> Inl e
                  | Inr (Some visionDoc) \<Rightarrow> Inr visionDoc
                  | Inr None \<Rightarrow> prepare_pdf_text env doc data)
               else prepare_pdf_text env doc data
           | KindOther \<Rightarrow> Inl (ErrUnsupportedMedia mime)))"

definition Prepare :: "'i pre_env \<Rightarrow> string \<Rightarrow> bytes \<Rightarrow> preprocess_error + prepared" where
  "Prepare env filename data = PrepareWithOptions env filename data False"

section \<open>Laws of the validation\<close>

lemma canonical_octet: "canonicalizeMIME ''application/octet-stream'' = ''application/octet-stream''"
  by code_simp

definition sniff_types :: "string list" where
  "sniff_types = remdups (map sig_ct sniffSignatures)"

text \<open>On ASCII text the runes are the bytes.\<close>

definition canonical_bytes :: "string \<Rightarrow> string" where
  "canonical_bytes s =
     (let t = trim_list (\<lambda>c. IsSpace (byte c));
          mime = map byte_lower (t s);
          mime = (case Index mime '';'' of Some i \<Rightarrow> t (take i mime) | None \<Rightarrow> mime) in
      if mime = ''image/jpg'' then ''image/jpeg'' else mime)"

lemma canonical_bytes:
  assumes "ascii s" shows "canonicalizeMIME s = canonical_bytes s"
proof -
  have a: "ascii (TrimSpace s)"
    using assms set_TrimSpace [of s] by (auto simp: ascii_def list_all_iff)
  then have "ascii (map byte_lower (TrimSpace s))"
    by (auto simp: ascii_def list_all_iff byte_lower_def byte_char_of)
  then have "ascii (take i (map byte_lower (TrimSpace s)))" for i
    by (metis append_take_drop_id ascii_simps(3))
  then show ?thesis
    using a assms by (simp add: canonicalizeMIME_def canonical_bytes_def ToLower_ascii TrimSpace_ascii Let_def
        cong: option.case_cong)
qed

lemma canonical_types:
  "list_all (\<lambda>ct. if ct \<in> set [''application/pdf'', ''image/png'', ''image/jpeg'', ''image/webp'']
      then canonicalizeMIME ct = ct else allowedMIME (canonicalizeMIME ct) = None) sniff_types"
proof -
  have "list_all (\<lambda>ct. ascii ct \<and> (if ct \<in> set [''application/pdf'', ''image/png'', ''image/jpeg'', ''image/webp'']
      then canonical_bytes ct = ct else allowedMIME (canonical_bytes ct) = None)) sniff_types"
    by code_simp
  then show ?thesis by (auto simp: list_all_iff canonical_bytes simp del: list.set)
qed

lemma sig_of_type:
  "list_all (\<lambda>s. sig_ct s \<in> set [''application/pdf'', ''image/png'', ''image/jpeg'', ''image/webp''] \<longrightarrow>
      s \<in> set [ExactSig ''%PDF-'' ''application/pdf'',
        ExactSig (chars [137, 80, 78, 71, 13, 10, 26, 10]) ''image/png'',
        ExactSig (chars [255, 216, 255]) ''image/jpeg'',
        MaskedSig (ff 4 @ zz 4 @ ff 6) (bytes_of ''RIFF'' @ zz 4 @ bytes_of ''WEBPVP'') False ''image/webp''])
    sniffSignatures"
  by (simp add: sniffSignatures_def sig_ct_def)

lemma not_allowed_octet: "allowedMIME ''application/octet-stream'' = None"
  by (simp add: allowedMIME_def)

text \<open>The content type that \<^verbatim>\<open>ValidateUpload\<close> works with.\<close>

definition sniffed_type :: "bytes \<Rightarrow> string" where
  "sniffed_type data =
     (let sniffed = canonicalizeMIME (DetectContentType data) in
      if sniffed = ''application/octet-stream'' then sniffImageMIME data else sniffed)"

lemma sniffed_magic:
  assumes "allowedMIME (sniffed_type d) = Some k" shows "magic (sniffed_type d) d"
proof (cases "canonicalizeMIME (DetectContentType d) = ''application/octet-stream''")
  case True
  with assms show ?thesis
    by (auto simp: sniffed_type_def sniffImageMIME_def magic_def not_allowed_octet split: if_splits)
next
  case False
  let ?ct = "DetectContentType d"
  from False obtain s where s: "s \<in> set sniffSignatures" "sig_match (take 512 d) s = Some (sig_ct s)"
    "?ct = sig_ct s"
    using first_match_cases [of "take 512 d" sniffSignatures] canonical_octet
    by (auto simp: DetectContentType_def)
  then have ct: "sig_ct s \<in> set sniff_types" by (simp add: sniff_types_def)
  have t: "sig_ct s \<in> set [''application/pdf'', ''image/png'', ''image/jpeg'', ''image/webp'']"
    using canonical_types ct False assms s(3)
    by (auto simp: list_all_iff sniffed_type_def simp del: list.set split: if_splits)
  then have "sniffed_type d = sig_ct s"
    using canonical_types ct False s(3)
    by (auto simp: list_all_iff sniffed_type_def simp del: list.set split: if_splits)
  moreover have "magic (sig_ct s) d"
    using sig_of_type s t by (intro magic_sig [OF s(2)]) (auto simp: list_all_iff)
  ultimately show ?thesis by simp
qed

text \<open>The extension of the file name does not contradict the kind of the contents.\<close>

definition extension_agrees :: "string \<Rightarrow> Kind \<Rightarrow> bool" where
  "extension_agrees filename kind \<longleftrightarrow>
     extensionKind (ToLower (filepath_Ext filename)) \<in> {None, Some kind}"

lemma extensionKind_Nil: "extensionKind [] = None"
  by (simp add: extensionKind_def)

lemma ValidateUpload_ok_iff:
  "ValidateUpload f d = (k, m, None) \<longleftrightarrow>
     0 < length d \<and> length d \<le> MaxUploadBytes \<and> m = sniffed_type d \<and> allowedMIME m = Some k
     \<and> extension_agrees f k"
  by (auto simp: ValidateUpload_def sniffed_type_def [unfolded Let_def] extension_agrees_def Let_def
      extensionKind_Nil split: option.splits if_splits)

lemma ValidateUpload_error:
  "ValidateUpload f d = (k, m, Some e) \<Longrightarrow> k = KindOther"
  by (auto simp: ValidateUpload_def Let_def split: option.splits if_splits)

lemma allowed_not_other: "allowedMIME m \<noteq> Some KindOther"
  by (simp add: allowedMIME_def)

text \<open>Standard files: the signature of the format, for WebP with the chunk name that follows it.\<close>

definition std_magic :: "string \<Rightarrow> bytes \<Rightarrow> bool" where
  "std_magic mime d \<longleftrightarrow>
     magic mime d \<and> (mime = ''image/webp'' \<longrightarrow> take 2 (drop 12 d) = ''VP'')"

lemma take4_cases: "4 \<le> length xs \<Longrightarrow> \<exists>a b c e. take 4 xs = [a, b, c, e]"
  by (cases xs; cases "tl xs"; cases "tl (tl xs)"; cases "tl (tl (tl xs))") auto

lemma split_webp:
  "d = take 4 d @ take 4 (drop 4 d) @ take 4 (drop 8 d) @ take 2 (drop 12 d) @ drop 14 d"
proof -
  have "d = take 4 d @ drop 4 d" "drop 4 d = take 4 (drop 4 d) @ drop 8 d"
    "drop 8 d = take 4 (drop 8 d) @ drop 12 d" "drop 12 d = take 2 (drop 12 d) @ drop 14 d"
    using append_take_drop_id [of 4 d] append_take_drop_id [of 4 "drop 4 d"]
      append_take_drop_id [of 4 "drop 8 d"] append_take_drop_id [of 2 "drop 12 d"] by simp_all
  then show ?thesis by metis
qed

lemma std_magic_detect:
  assumes "std_magic m d" shows "DetectContentType d = m"
proof -
  have w: "\<exists>a b c e t. d = ''RIFF'' @ [a, b, c, e] @ ''WEBPVP'' @ t"
    if l: "12 \<le> length d" and p: "take 4 d = ''RIFF''" "take 4 (drop 8 d) = ''WEBP''" "take 2 (drop 12 d) = ''VP''"
  proof -
    have "4 \<le> length (drop 4 d)" using l by simp
    from take4_cases [OF this] obtain a b c e where "take 4 (drop 4 d) = [a, b, c, e]" by blast
    with split_webp [of d] p have "d = ''RIFF'' @ [a, b, c, e] @ ''WEBPVP'' @ drop 14 d" by simp
    then show ?thesis by blast
  qed
  have p: "DetectContentType d = c" if "HasPrefix d b" and "\<And>t. DetectContentType (b @ t) = c" for b c
    using that by (metis HasPrefix_conv)
  from assms have "magic m d" by (simp only: std_magic_def)
  then show ?thesis unfolding magic_def
  proof (elim disjE conjE)
    assume m: "m = ''image/webp''" and d: "12 \<le> length d" "take 4 d = ''RIFF''" "take 4 (drop 8 d) = ''WEBP''"
    from assms m have "take 2 (drop 12 d) = ''VP''" by (simp only: std_magic_def simp_thms)
    from w [OF d this] show ?thesis by (elim exE) (simp only: detect_webp m)
  qed (simp_all only: p detect_pdf detect_png detect_jpeg)
qed

lemma std_magic_sniffed:
  assumes "std_magic m d" shows "sniffed_type d = m" and "\<exists>k. allowedMIME m = Some k"
proof -
  have m: "m \<in> {''application/pdf'', ''image/png'', ''image/jpeg'', ''image/webp''}"
    using assms by (auto simp: std_magic_def magic_def)
  moreover have "canonicalizeMIME ''application/pdf'' = ''application/pdf''"
    "canonicalizeMIME ''image/png'' = ''image/png''" "canonicalizeMIME ''image/jpeg'' = ''image/jpeg''"
    "canonicalizeMIME ''image/webp'' = ''image/webp''"
    by code_simp+
  ultimately show "sniffed_type d = m"
    using std_magic_detect [OF assms] by (auto simp: sniffed_type_def)
  from m show "\<exists>k. allowedMIME m = Some k" by (auto simp: allowedMIME_def)
qed

section \<open>Laws of the image bounds\<close>

lemma f64_1600: "f64 (of_int maxImageEdge) = 1600"
  using f64_of_int [of 1600] by (simp add: maxImageEdge_def)

text \<open>An edge scaled by its own factor comes out as 1600, or 1599 when the product rounds down.\<close>

lemma edge_bounds:
  assumes "0 < (W::rat)"
  shows "f64 (W * f64 (1600 / W)) < 1601" and "1599 < f64 (W * f64 (1600 / W))"
proof -
  let ?s = "f64 (1600 / W)" and ?\<epsilon> = "1 / 2 ^ 53 :: rat"
  have q: "0 < 1600 / W" using assms by simp
  have s: "0 < ?s" using f64_pos [OF q] .
  have "W * ?s \<le> W * (1600 / W * (1 + ?\<epsilon>))" and lo: "W * (1600 / W * (1 - ?\<epsilon>)) \<le> W * ?s"
    using assms f64_le [OF q] f64_ge [OF q] by (simp_all only: mult_le_cancel_left_pos)
  then have hi': "W * ?s \<le> 1600 * (1 + ?\<epsilon>)" and lo': "1600 * (1 - ?\<epsilon>) \<le> W * ?s"
    using assms by simp_all
  have p: "0 < W * ?s" using assms s by simp
  have "f64 (W * ?s) \<le> W * ?s * (1 + ?\<epsilon>)" by (rule f64_le [OF p])
  also have "\<dots> \<le> 1600 * (1 + ?\<epsilon>) * (1 + ?\<epsilon>)" using hi' by (intro mult_right_mono) simp_all
  also have "\<dots> < 1601" by simp
  finally show "f64 (W * ?s) < 1601" .
  have "1599 < 1600 * (1 - ?\<epsilon>) * (1 - ?\<epsilon>)" by simp
  also have "\<dots> \<le> W * ?s * (1 - ?\<epsilon>)" using lo' by (intro mult_right_mono) simp_all
  also have "\<dots> \<le> f64 (W * ?s)" by (rule f64_ge [OF p])
  finally show "1599 < f64 (W * ?s)" .
qed

lemma f64_mult_less:
  assumes "0 < (W::rat)" and "0 < s" and "s \<le> f64 (1600 / W)"
  shows "f64 (W * s) < 1601"
proof -
  let ?\<epsilon> = "1 / 2 ^ 53 :: rat"
  have q: "0 < 1600 / W" using assms(1) by simp
  have "f64 (W * s) \<le> W * s * (1 + ?\<epsilon>)" using assms by (intro f64_le) simp
  also have "\<dots> \<le> W * (1600 / W * (1 + ?\<epsilon>)) * (1 + ?\<epsilon>)"
    using assms f64_le [OF q] by (intro mult_right_mono mult_left_mono) simp_all
  also have "\<dots> = 1600 * (1 + ?\<epsilon>) * (1 + ?\<epsilon>)" using assms by simp
  also have "\<dots> < 1601" by simp
  finally show ?thesis .
qed

lemma scaled_edge_le: "f64 (f64 (of_int w) * s) < 1601 \<Longrightarrow> 1 \<le> scaled_edge w s \<and> scaled_edge w s \<le> 1600"
  by (simp add: scaled_edge_def f64_int_def Let_def floor_less_iff)

lemma scaled_edge_ge: "1599 < f64 (f64 (of_int w) * s) \<Longrightarrow> 1599 \<le> scaled_edge w s"
  by (simp add: scaled_edge_def f64_int_def Let_def le_floor_iff)

lemma scaled_edge_one: "0 < w \<Longrightarrow> w \<le> 1600 \<Longrightarrow> scaled_edge w 1 = w"
  using f64_of_int [of w] by (simp add: scaled_edge_def f64_int_def)

lemma image_scale_cases:
  assumes "0 < w" and "0 < h" and "maxImageEdge < w \<or> maxImageEdge < h"
  defines "W \<equiv> f64 (of_int w)" and "H \<equiv> f64 (of_int h)"
  shows "0 < W" "0 < H" "0 < image_scale w h" "image_scale w h \<le> f64 (1600 / W)"
    "image_scale w h \<le> f64 (1600 / H)"
    "image_scale w h = f64 (1600 / W) \<or> image_scale w h = f64 (1600 / H)"
  using assms f64_pos [of "of_int w"] f64_pos [of "of_int h"]
  by (auto simp: image_scale_def f64_1600 Let_def intro!: f64_pos)

section \<open>Laws of prepared documents\<close>

definition image_ok :: "image \<Rightarrow> bool" where
  "image_ok i \<longleftrightarrow> img_MIME i = ''image/jpeg'' \<and> length (img_Data i) \<le> maxImageBytes"

definition well_prepared :: "prepared \<Rightarrow> bool" where
  "well_prepared doc \<longleftrightarrow>
     pd_Mode doc = ''text'' \<and> pd_Kind doc = KindPDF \<and> pd_Images doc = [] \<and> pd_Text doc \<noteq> []
       \<and> length (pd_Text doc) \<le> maxPDFTextChars
     \<or> pd_Mode doc = ''vision'' \<and> pd_Text doc = [] \<and> pd_Images doc \<noteq> []
       \<and> list_all image_ok (pd_Images doc)"

lemma CompactImage_ok:
  "CompactImage im d = Inr (c, m) \<Longrightarrow> image_ok \<lparr>img_MIME = m, img_Data = c\<rparr>"
  by (auto simp: CompactImage_def image_ok_def Let_def split: option.splits if_splits)

lemma compact_pages_ok:
  "compact_pages im imgs ps = Inr imgs' \<Longrightarrow> list_all image_ok imgs \<Longrightarrow>
     list_all image_ok imgs' \<and> length imgs' = length imgs + length ps"
proof (induction ps arbitrary: imgs)
  case (Cons p ps)
  then show ?case by (fastforce split: sum.splits prod.splits dest: CompactImage_ok)
qed simp

lemma preparePDFVision_ok:
  assumes "preparePDFVision env doc data = Inr (Some v)" and "pd_Images doc = []" and "pd_Text doc = []"
  shows "pd_Mode v = ''vision''" "pd_Text v = []" "pd_Images v \<noteq> []" "list_all image_ok (pd_Images v)"
    "\<exists>pages. PDFPagesToJPEG (env_render env) data maxVisionPages = Some pages
       \<and> length (pd_Images v) = length pages"
  using assms by (auto simp: preparePDFVision_def split: option.splits if_splits sum.splits
      dest!: compact_pages_ok)

lemma capped_text_bounds:
  "length (capped_text t) \<le> maxPDFTextChars" "TrimSpace t \<noteq> [] \<Longrightarrow> capped_text t \<noteq> []"
  by (auto simp: capped_text_def maxPDFTextChars_def Let_def)

lemma usable_not_blank: "usablePDFText t \<Longrightarrow> TrimSpace t \<noteq> []"
  by (auto simp: usablePDFText_def minPDFTextChars_def)

lemma vision_well_prepared:
  assumes "preparePDFVision env doc data = Inr (Some v)" and "pd_Images doc = []" and "pd_Text doc = []"
  shows "well_prepared v"
  using preparePDFVision_ok [OF assms] by (simp add: well_prepared_def)

lemma text_well_prepared:
  assumes "TrimSpace t \<noteq> []" and "pd_Images doc = []" and "pd_Kind doc = KindPDF"
  shows "well_prepared (doc\<lparr>pd_Text := capped_text t, pd_Mode := ''text''\<rparr>)"
  using assms capped_text_bounds by (simp add: well_prepared_def)

lemma prepare_pdf_text_ok:
  assumes "prepare_pdf_text env doc data = Inr d" and "pd_Images doc = []" and "pd_Text doc = []"
    and "pd_Kind doc = KindPDF"
  shows "well_prepared d"
proof (cases "TextFromPDF (env_reader env) data defaultMaxPages")
  case (Inl te)
  then show ?thesis
    using assms vision_well_prepared [of env doc data d]
    by (simp add: prepare_pdf_text_def split: sum.splits option.splits)
next
  case (Inr t)
  then show ?thesis
    using assms vision_well_prepared [of env doc data d] text_well_prepared [of t doc] usable_not_blank [of t]
    by (auto simp: prepare_pdf_text_def simp del: prepared.update_defs split: sum.splits option.splits if_splits)
qed

lemma PrepareWithOptions_ok:
  assumes "PrepareWithOptions env f data pv = Inr d" shows "well_prepared d"
proof -
  obtain kind mime where v: "ValidateUpload f data = (kind, mime, None)"
    using assms by (auto simp: PrepareWithOptions_def split: prod.splits option.splits)
  let ?doc = "\<lparr>pd_Kind = kind, pd_MIME = mime, pd_Text = [], pd_Images = [], pd_Mode = [], pd_Filename = f\<rparr>"
  show ?thesis
  proof (cases kind)
    case KindImage
    with assms v show ?thesis
      by (auto simp: PrepareWithOptions_def well_prepared_def split: sum.splits dest: CompactImage_ok)
  next
    case KindPDF
    with assms v vision_well_prepared [of env ?doc data d] prepare_pdf_text_ok [of env ?doc data d]
    show ?thesis
      by (simp add: PrepareWithOptions_def Let_def split: if_splits sum.splits option.splits)
  next
    case KindOther
    with assms v show ?thesis by (simp add: PrepareWithOptions_def)
  qed
qed

section \<open>Properties\<close>

text \<open>
  C13: An upload that is accepted is not empty and at most 32 MiB, it begins with the signature of a
  PDF, PNG, JPEG or WebP file, the reported kind is the kind of that format, and a known file name
  extension does not contradict it. Conversely every standard file of one of these formats within the
  limit is accepted unless its name has the extension of the other kind.
\<close>

theorem ValidateUpload_exact:
  "(ValidateUpload f d = (k, m, None) \<longrightarrow>
      0 < length d \<and> length d \<le> MaxUploadBytes \<and> magic m d \<and> allowedMIME m = Some k \<and> extension_agrees f k)
   \<and> (0 < length d \<and> length d \<le> MaxUploadBytes \<and> std_magic m d \<and> allowedMIME m = Some k
      \<and> extension_agrees f k \<longrightarrow> ValidateUpload f d = (k, m, None))"
  using sniffed_magic [of d k] std_magic_sniffed [of m d] by (auto simp: ValidateUpload_ok_iff)

theorem ValidateUpload_exact_witness:
  "magic ''application/pdf'' ''%PDF-1.7'' \<and> ValidateUpload ''cv.PDF'' ''%PDF-1.7'' = (KindPDF, ''application/pdf'', None)"
proof -
  have "0 < length ''%PDF-1.7'' \<and> length ''%PDF-1.7'' \<le> MaxUploadBytes \<and> std_magic ''application/pdf'' ''%PDF-1.7''
      \<and> allowedMIME ''application/pdf'' = Some KindPDF \<and> extension_agrees ''cv.PDF'' KindPDF"
    by code_simp
  with ValidateUpload_exact [of "''cv.PDF''" "''%PDF-1.7''" KindPDF "''application/pdf''"]
  show ?thesis by blast
qed

text \<open>
  C18: Whatever the dimensions of the decoded image, the picture sent to the model is between 1 and
  1600 pixels wide and high in spite of the rounding of floating-point division and multiplication; an
  image within 1600 by 1600 keeps its size, and when a larger one is shrunk one of its edges is 1599
  or 1600 pixels.
\<close>

theorem scaled_image_bounds:
  assumes "0 < w" and "0 < h"
  shows "let s = image_scale w h; nw = scaled_edge w s; nh = scaled_edge h s in
     1 \<le> nw \<and> nw \<le> 1600 \<and> 1 \<le> nh \<and> nh \<le> 1600
     \<and> (if w \<le> 1600 \<and> h \<le> 1600 then nw = w \<and> nh = h else 1599 \<le> nw \<or> 1599 \<le> nh)"
proof (cases "w \<le> 1600 \<and> h \<le> 1600")
  case True
  then have "image_scale w h = 1" by (simp add: image_scale_def maxImageEdge_def)
  with True assms show ?thesis by (simp add: scaled_edge_one)
next
  case False
  then have big: "maxImageEdge < w \<or> maxImageEdge < h" by (auto simp: maxImageEdge_def)
  note c = image_scale_cases [OF assms big]
  have "1 \<le> scaled_edge w (image_scale w h) \<and> scaled_edge w (image_scale w h) \<le> 1600"
    and "1 \<le> scaled_edge h (image_scale w h) \<and> scaled_edge h (image_scale w h) \<le> 1600"
    using c by (auto intro!: scaled_edge_le f64_mult_less)
  moreover have "1599 \<le> scaled_edge w (image_scale w h) \<or> 1599 \<le> scaled_edge h (image_scale w h)"
    using c(6) edge_bounds(2) [OF c(1)] edge_bounds(2) [OF c(2)] by (auto intro: scaled_edge_ge)
  ultimately show ?thesis using False by (auto simp: Let_def)
qed

theorem scaled_image_bounds_witness:
  "scaled_edge 4000 (image_scale 4000 3000) \<le> 1600"
proof -
  have "0 < (4000::int)" and "0 < (3000::int)" by simp_all
  from scaled_image_bounds [OF this] show ?thesis by (simp only: Let_def)
qed



end
