(* ===== verification/Extract_Service.thy ===== *)
theory Extract_Service
  imports Preprocess "HOL-Library.AList"
begin

text \<open>
  Package \<^verbatim>\<open>internal/extract\<close>: the registry of document types, the prompt built for a prepared
  document, the extraction of the JSON object from a reply of the model, and the single attempt to
  have broken JSON repaired. The language model is the interface \<^verbatim>\<open>LLM\<close> of the source: its model
  name and a \<^verbatim>\<open>Chat\<close> operation that may change the state of the outside world.
\<close>

section \<open>Errors\<close>

text \<open>
  The errors of the Groq client: an HTTP status with its body, or any other error by its message. The
  text of an error matters, because the HTTP layer searches it.
\<close>

datatype chat_error = HTTPError int string | OtherErr string

definition itoa :: "int \<Rightarrow> string" where
  "itoa n = (if n < 0 then ''-'' else []) @ dec (nat \<bar>n\<bar>)"

definition nl :: string where
  "nl = [CHR 0x0A]"

fun chat_error_text :: "chat_error \<Rightarrow> string" where
  "chat_error_text (HTTPError status body) = ''groq http '' @ itoa status @ '': '' @ body"
| "chat_error_text (OtherErr m) = m"

datatype repair_error = RepairChat chat_error | RepairJSON string

fun repair_error_text :: "repair_error \<Rightarrow> string" where
  "repair_error_text (RepairChat e) = chat_error_text e"
| "repair_error_text (RepairJSON m) = m"

datatype extract_error =
    ErrUnknownDocType string
  | ErrLLM chat_error
  | ErrInvalidJSON string repair_error

fun extract_error_text :: "extract_error \<Rightarrow> string" where
  "extract_error_text (ErrUnknownDocType t) = ''unknown doc_type: '' @ t"
| "extract_error_text (ErrLLM e) = ''llm request failed: '' @ chat_error_text e"
| "extract_error_text (ErrInvalidJSON m e) = ''llm returned invalid json: '' @ m @ nl @ repair_error_text e"

section \<open>Interfaces and results\<close>

text \<open>
  A document type; \<open>dt_unmarshal\<close> is \<^verbatim>\<open>json.Unmarshal\<close> into the value of \<^verbatim>\<open>EmptyResult()\<close>, with the
  message of the decoder on the left.
\<close>

record 'r doc_type =
  dt_Name :: string
  dt_SystemPrompt :: string
  dt_SchemaHint :: string
  dt_unmarshal :: "string \<Rightarrow> string + 'r"
  dt_Normalize :: "'r \<Rightarrow> 'r"

record meta =
  mt_Model :: string
  mt_Chars :: nat
  mt_Mode :: string
  mt_Images :: nat
  mt_Filename :: string
  mt_ContentSHA256 :: string
  mt_Cache :: string

record 'r extract_result =
  rs_DocType :: string
  rs_Data :: 'r
  rs_Meta :: meta

datatype content_part = TextPart string | ImagePart string

datatype user_content = PromptOnly string | PromptParts "content_part list"

record 'w llm =
  llm_Model :: string
  llm_Chat :: "string \<Rightarrow> user_content \<Rightarrow> bool \<Rightarrow> 'w \<Rightarrow> (chat_error + string) \<times> 'w"

record ('w, 'r) service =
  sv_llm :: "'w llm"
  sv_registry :: "(string \<times> 'r doc_type) list"

definition NewService :: "'w llm \<Rightarrow> 'r doc_type list \<Rightarrow> ('w, 'r) service" where
  "NewService llm types =
     \<lparr>sv_llm = llm, sv_registry = fold (\<lambda>t reg. AList.update (dt_Name t) t reg) types []\<rparr>"

definition KnownTypes :: "('w, 'r) service \<Rightarrow> string list" where
  "KnownTypes s = sort (map fst (sv_registry s))"

section \<open>Prompts\<close>

text \<open>\<^verbatim>\<open>base64.StdEncoding\<close>.\<close>

definition b64_alphabet :: string where
  "b64_alphabet = ''ABCDEFGHIJKLMNOPQRSTUVWXYZabcdefghijklmnopqrstuvwxyz0123456789+/''"

definition b64 :: "nat \<Rightarrow> char" where
  "b64 n = b64_alphabet ! n"

fun base64 :: "bytes \<Rightarrow> string" where
  "base64 [] = []"
| "base64 [a] = [b64 (byte a div 4), b64 (byte a mod 4 * 16), CHR ''='', CHR ''='']"
| "base64 [a, b] =
     [b64 (byte a div 4), b64 (byte a mod 4 * 16 + byte b div 16), b64 (byte b mod 16 * 4), CHR ''='']"
| "base64 (a # b # c # r) =
     [b64 (byte a div 4), b64 (byte a mod 4 * 16 + byte b div 16),
      b64 (byte b mod 16 * 4 + byte c div 64), b64 (byte c mod 64)] @ base64 r"

definition buildUserPrompt :: "'r doc_type \<Rightarrow> prepared \<Rightarrow> string" where
  "buildUserPrompt dt doc =
     ''Extract structured data from the Brazilian document''
     @ (if pd_Mode doc = ''vision'' then '' image(s)'' else '' text'')
     @ '' below.'' @ nl
     @ ''Return ONLY a single JSON object matching this schema:'' @ nl @ nl
     @ dt_SchemaHint dt
     @ nl @ nl
     @ (if TrimSpace (pd_Text doc) \<noteq> [] \<and> pd_Mode doc = ''text''
        then ''Document text:'' @ nl @ ''---'' @ nl @ pd_Text doc @ nl @ ''---'' @ nl else [])
     @ (if pd_Mode doc = ''vision''
        then ''Read labeled fields from the attached image(s). Prefer printed field numbers/labels over nearby noise.'' @ nl
        else [])"

definition image_part :: "image \<Rightarrow> content_part" where
  "image_part img =
     (let mime = (if img_MIME img = [] then ''image/png'' else img_MIME img) in
      ImagePart (''data:'' @ mime @ '';base64,'' @ base64 (img_Data img)))"

definition buildUserContent :: "'r doc_type \<Rightarrow> prepared \<Rightarrow> user_content" where
  "buildUserContent dt doc =
     (let prompt = buildUserPrompt dt doc in
      if pd_Mode doc \<noteq> ''vision'' \<or> length (pd_Images doc) = 0 then PromptOnly prompt
      else PromptParts (TextPart prompt # map image_part (pd_Images doc)))"

section \<open>Replies\<close>

text \<open>The loop of \<^verbatim>\<open>stripFences\<close> that removes the reasoning of the model.\<close>

function strip_think :: "string \<Rightarrow> string" where
  "strip_think s =
     (case Index s ''<think>'' of
        None \<Rightarrow> s
      | Some start \<Rightarrow>
          (case Index (drop start s) ''</think>'' of
             None \<Rightarrow> take start s
           | Some e \<Rightarrow> strip_think (take start s @ drop (start + e + 8) s)))"
  by pat_completeness auto
termination
proof (relation "measure length", goal_cases)
  case (2 s start e)
  then show ?case using Index_Some [OF 2(1)] Index_Some [OF 2(2)] by auto
qed simp

declare strip_think.simps [simp del]

definition fence :: string where
  "fence = [CHR 0x60, CHR 0x60, CHR 0x60]"

definition stripFences :: "string \<Rightarrow> string" where
  "stripFences s0 =
     (let s = TrimSpace (strip_think (TrimSpace s0)) in
      if HasPrefix s fence then
        let s = TrimPrefix s (fence @ ''json'');
            s = TrimPrefix s (fence @ ''JSON'');
            s = TrimPrefix s fence;
            s = (case LastIndex s fence of Some i \<Rightarrow> take i s | None \<Rightarrow> s) in
        TrimSpace s
      else s)"

definition outer_braces :: "string \<Rightarrow> string" where
  "outer_braces cleaned =
     (case Index cleaned [CHR 0x7B] of
        None \<Rightarrow> cleaned
      | Some i \<Rightarrow>
          (case LastIndex cleaned [CHR 0x7D] of
             None \<Rightarrow> cleaned
           | Some j \<Rightarrow> if i < j then drop i (take (j + 1) cleaned) else cleaned))"

definition decodeInto :: "'r doc_type \<Rightarrow> string \<Rightarrow> string + 'r" where
  "decodeInto dt content = dt_unmarshal dt (outer_braces (stripFences content))"

definition repairJSON :: "('w, 'r) service \<Rightarrow> 'r doc_type \<Rightarrow> string \<Rightarrow> 'w \<Rightarrow> (repair_error + 'r) \<times> 'w" where
  "repairJSON s dt broken w =
     (case llm_Chat (sv_llm s)
        ''You fix malformed JSON. Return ONLY valid JSON matching the schema. No markdown.''
        (PromptOnly (''Schema:'' @ nl @ dt_SchemaHint dt @ nl @ nl @ ''Broken JSON:'' @ nl @ broken))
        True w of
        (Inl e, w') \<Rightarrow> (Inl (RepairChat e), w')
      | (Inr content, w') \<Rightarrow>
          (case decodeInto dt content of
             Inl m \<Rightarrow> (Inl (RepairJSON m), w')
           | Inr r \<Rightarrow> (Inr r, w')))"

definition mk_result :: "('w, 'r) service \<Rightarrow> 'r doc_type \<Rightarrow> prepared \<Rightarrow> 'r \<Rightarrow> 'r extract_result" where
  "mk_result s dt doc parsed =
     \<lparr>rs_DocType = dt_Name dt, rs_Data = dt_Normalize dt parsed,
      rs_Meta = \<lparr>mt_Model = llm_Model (sv_llm s), mt_Chars = length (pd_Text doc), mt_Mode = pd_Mode doc,
        mt_Images = length (pd_Images doc), mt_Filename = pd_Filename doc, mt_ContentSHA256 = [], mt_Cache = []\<rparr>\<rparr>"

definition Extract ::
    "('w, 'r) service \<Rightarrow> string \<Rightarrow> prepared \<Rightarrow> 'w \<Rightarrow> (extract_error + 'r extract_result) \<times> 'w" where
  "Extract s docType doc w =
     (case map_of (sv_registry s) docType of
        None \<Rightarrow> (Inl (ErrUnknownDocType docType), w)
      | Some dt \<Rightarrow>
          (case llm_Chat (sv_llm s) (dt_SystemPrompt dt) (buildUserContent dt doc) (pd_Mode doc = ''text'') w of
             (Inl e, w') \<Rightarrow> (Inl (ErrLLM e), w')
           | (Inr content, w') \<Rightarrow>
               (case decodeInto dt content of
                  Inr parsed \<Rightarrow> (Inr (mk_result s dt doc parsed), w')
                | Inl err \<Rightarrow>
                    (case repairJSON s dt content w' of
                       (Inl repairErr, w'') \<Rightarrow> (Inl (ErrInvalidJSON err repairErr), w'')
                     | (Inr repaired, w'') \<Rightarrow> (Inr (mk_result s dt doc repaired), w'')))))"

section \<open>Laws of the reply cleaning\<close>

lemma Contains_take: "Contains (take n s) p \<Longrightarrow> Contains s p"
  unfolding Contains_conv by (metis append.assoc append_take_drop_id)

lemma no_earlier:
  assumes "Index s p = Some i" and "p \<noteq> []" shows "\<not> Contains (take i s) p"
proof
  assume "Contains (take i s) p"
  then obtain u v where uv: "take i s = u @ p @ v" unfolding Contains_conv by blast
  then have "s = u @ p @ v @ drop i s" by (metis append.assoc append_take_drop_id)
  then have "HasPrefix (drop (length u) s) p" by (metis HasPrefix_append append_eq_conv_conj)
  moreover have "length u < i"
    using arg_cong [OF uv, of length] assms(2) Index_Some [OF assms(1)] by (cases p) (auto simp: min_def)
  ultimately show False using Index_first [OF assms(1)] by blast
qed

lemma strip_think_clean: "\<not> Contains (strip_think s) ''<think>''"
proof (induction s rule: strip_think.induct)
  case (1 s)
  show ?case
  proof (cases "Index s ''<think>''")
    case None
    then show ?thesis by (simp add: strip_think.simps [of s] Contains_def)
  next
    case (Some i)
    then show ?thesis
      using "1.IH" [OF Some] no_earlier [OF Some]
      by (simp add: strip_think.simps [of s] split: option.split)
  qed
qed

lemma Contains_TrimSpace: "Contains (TrimSpace s) p \<Longrightarrow> Contains s p"
  using TrimSpace_sublist [of s] Contains_sublist by metis

lemma Contains_TrimPrefix: "Contains (TrimPrefix s q) p \<Longrightarrow> Contains s p"
  unfolding TrimPrefix_def by (metis Contains_sublist append_Nil2 append_take_drop_id)

lemma stripFences_clean: "\<not> Contains (stripFences s) ''<think>''"
proof -
  let ?s = "TrimSpace (strip_think (TrimSpace s))"
  have "\<not> Contains ?s ''<think>''" using strip_think_clean Contains_TrimSpace by blast
  then show ?thesis
    by (auto simp: stripFences_def Let_def split: option.split
        dest!: Contains_TrimSpace Contains_take Contains_TrimPrefix)
qed

text \<open>Framing: ASCII text around a string that neither begins nor ends with white space.\<close>

definition solid :: "string \<Rightarrow> bool" where
  "solid s \<longleftrightarrow> s \<noteq> [] \<and> byte (hd s) < 128 \<and> \<not> IsSpace (byte (hd s))
     \<and> byte (last s) < 128 \<and> \<not> IsSpace (byte (last s))"

lemma chunks_solid_ends:
  assumes "solid s"
  shows "chunks s \<noteq> []" "\<not> is_space_chunk (hd (chunks s))" "\<not> is_space_chunk (last (chunks s))"
proof -
  from assms have ne: "s \<noteq> []" by (simp add: solid_def)
  show "chunks s \<noteq> []" using ne by simp
  show "\<not> is_space_chunk (hd (chunks s))"
    using assms ne chunks_ascii_Cons [of "hd s" "tl s"] by (simp add: solid_def is_space_chunk_def)
  have "chunks s = chunks (butlast s) @ chunks [last s]"
    using chunks_append [of "[last s]" "butlast s"] ne assms
    by (simp add: solid_def ascii_not_cont)
  then show "\<not> is_space_chunk (last (chunks s))"
    using assms chunks_ascii_Cons [of "last s" "[]"] by (simp add: solid_def is_space_chunk_def)
qed

lemma trim_list_frame:
  assumes "list_all P us" and "list_all P vs" and "xs \<noteq> []" "\<not> P (hd xs)" "\<not> P (last xs)"
  shows "trim_list P (us @ xs @ vs) = xs"
proof -
  have "dropWhile P (us @ xs @ vs) = xs @ vs"
    using assms by (simp add: list_all_iff dropWhile_append2 dropWhile_hd_id)
  moreover have "dropWhile P (rev vs @ rev xs) = rev xs"
    using assms dropWhile_append2 [of "rev vs" P "rev xs"]
    by (simp add: list_all_iff dropWhile_hd_id hd_rev)
  ultimately show ?thesis by (simp add: trim_list_def)
qed

lemma TrimSpace_frame:
  assumes "solid s" and a: "ascii a" "list_all (\<lambda>c. IsSpace (byte c)) a"
    and b: "ascii b" "list_all (\<lambda>c. IsSpace (byte c)) b"
  shows "TrimSpace (a @ s @ b) = s"
proof -
  have nc: "\<not> cont (hd s)" using assms(1) by (simp add: solid_def ascii_not_cont)
  have nb: "b = [] \<or> \<not> cont (hd b)" using b(1) by (cases b) (auto simp: ascii_not_cont)
  have "chunks (a @ s @ b) = chunks a @ chunks s @ chunks b"
    using nc nb assms(1) chunks_append [of "s @ b" a] chunks_append [of b s]
    by (simp add: solid_def hd_append)
  moreover have "list_all is_space_chunk (chunks a)" "list_all is_space_chunk (chunks b)"
    using a b by (simp_all add: chunks_ascii list_all_iff is_space_chunk_def)
  ultimately show ?thesis
    using chunks_solid_ends [OF assms(1)] by (simp add: TrimSpace_def trim_list_frame)
qed

lemma TrimSpace_solid: "solid s \<Longrightarrow> TrimSpace s = s"
  using TrimSpace_frame [of s "[]" "[]"] by simp

text \<open>Occurrences that cannot reach into a prefix or a suffix.\<close>

lemma Contains_drop_prefix:
  assumes "Contains (a @ b) p" and "p \<noteq> []" and "hd p \<notin> set a" shows "Contains b p"
proof -
  from assms(1) obtain u v where e: "a @ b = u @ p @ v" unfolding Contains_conv by blast
  have "length a \<le> length u"
  proof (rule ccontr)
    assume "\<not> length a \<le> length u"
    then have "(a @ b) ! length u \<in> set a" by (simp add: nth_append)
    moreover have "(u @ p @ v) ! length u = hd p" using assms(2) by (cases p) auto
    ultimately show False using e assms(3) by simp
  qed
  with e have "b = drop (length a) u @ p @ v" by (auto simp: append_eq_append_conv2)
  then show ?thesis unfolding Contains_conv by blast
qed

lemma Contains_drop_suffix:
  assumes "Contains (a @ b) p" and "p \<noteq> []" and "last p \<notin> set b" shows "Contains a p"
proof -
  have r: "Contains (rev s) (rev q)" if "Contains s q" for s q
  proof -
    from that obtain u v where "s = u @ q @ v" unfolding Contains_conv by blast
    then have "rev s = rev v @ rev q @ rev u" by simp
    then show ?thesis unfolding Contains_conv by blast
  qed
  from r [OF assms(1)] have "Contains (rev b @ rev a) (rev p)" by simp
  then have "Contains (rev a) (rev p)"
    by (rule Contains_drop_prefix) (use assms in \<open>simp_all add: hd_rev\<close>)
  from r [OF this] show ?thesis by simp
qed

lemma LastIndex_suffix: "p \<noteq> [] \<Longrightarrow> LastIndex (s @ p) p = Some (length s)"
proof (induction s)
  case Nil
  have "LastIndex t p = None" if "length t < length p" for t
    using that by (induction t) (auto simp: Nil dest: HasPrefix_length)
  from this [of "tl p"] Nil show ?case by (cases p) (auto simp: HasPrefix_def)
qed simp

lemma strip_think_block:
  assumes "CHR ''<'' \<notin> set th"
  shows "strip_think (''<think>'' @ th @ ''</think>'' @ r) = strip_think r"
proof -
  let ?s = "''<think>'' @ th @ ''</think>'' @ r"
  have i: "Index (''</think>'' @ r) ''</think>'' = Some 0" by (simp add: HasPrefix_def)
  have "Index (th @ ''</think>'' @ r) ''</think>'' = Some (length th)" if "CHR ''<'' \<notin> set th" for th
    using that i by (induction th) (auto simp: HasPrefix_def)
  from this [OF assms] have e: "Index ?s ''</think>'' = Some (7 + length th)"
    by (simp add: HasPrefix_def)
  have "Index ?s ''<think>'' = Some 0" by (simp add: HasPrefix_def)
  with e have "strip_think ?s = strip_think (drop (7 + length th + 8) ?s)"
    by (subst strip_think.simps) simp
  also have "drop (7 + length th + 8) ?s = r"
  proof -
    have "7 + length th + 8 = length (''<think>'' @ th @ ''</think>'')" by simp
    moreover have "?s = (''<think>'' @ th @ ''</think>'') @ r" by simp
    ultimately show ?thesis by (metis append_eq_conv_conj)
  qed
  finally show ?thesis .
qed

lemma strip_think_id: "\<not> Contains s ''<think>'' \<Longrightarrow> strip_think s = s"
  by (subst strip_think.simps) (simp add: Contains_def)

text \<open>A reply in a Markdown fence, after a block of reasoning.\<close>

definition fenced_reply :: "string \<Rightarrow> string \<Rightarrow> string" where
  "fenced_reply th body = ''<think>'' @ th @ ''</think>'' @ nl @ fence @ ''json'' @ nl @ body @ nl @ fence"

definition braced :: "string \<Rightarrow> bool" where
  "braced body \<longleftrightarrow> (\<exists>m. body = [CHR 0x7B] @ m @ [CHR 0x7D])"

lemma braced_solid: "braced body \<Longrightarrow> solid body"
  by (auto simp: braced_def solid_def byte_def IsSpace_def)

lemma outer_braces_braced:
  assumes "braced body" shows "outer_braces body = body"
proof -
  obtain m where b: "body = ([CHR 0x7B] @ m) @ [CHR 0x7D]" using assms by (auto simp: braced_def)
  have "Index body [CHR 0x7B] = Some 0" unfolding b by (simp add: HasPrefix_def)
  moreover have "LastIndex body [CHR 0x7D] = Some (length ([CHR 0x7B] @ m))"
    unfolding b by (rule LastIndex_suffix) simp
  ultimately show ?thesis by (simp add: outer_braces_def) (simp add: b)
qed

lemma stripFences_fenced:
  assumes "CHR ''<'' \<notin> set th" and "braced body" and "\<not> Contains body ''<think>''"
  shows "stripFences (fenced_reply th body) = body"
proof -
  let ?f = "fence @ ''json'' @ nl @ body @ nl @ fence"
  have ws: "ascii nl" "list_all (\<lambda>c. IsSpace (byte c)) nl" by (simp_all add: nl_def byte_def IsSpace_def)
  have sf: "solid ?f" by (simp add: solid_def fence_def byte_def IsSpace_def)
  have "solid (fenced_reply th body)"
    by (simp add: solid_def fenced_reply_def fence_def byte_def IsSpace_def)
  then have "TrimSpace (fenced_reply th body) = fenced_reply th body" by (rule TrimSpace_solid)
  moreover have "strip_think (fenced_reply th body) = strip_think (nl @ ?f)"
    unfolding fenced_reply_def using strip_think_block [OF assms(1), of "nl @ ?f"] by simp
  moreover have "\<not> Contains (nl @ ?f) ''<think>''"
  proof
    assume "Contains (nl @ ?f) ''<think>''"
    then have "Contains ((nl @ fence @ ''json'' @ nl) @ body @ nl @ fence) ''<think>''" by simp
    then have "Contains (body @ nl @ fence) ''<think>''"
      by (rule Contains_drop_prefix) (simp_all add: nl_def fence_def)
    then have "Contains body ''<think>''"
      by (rule Contains_drop_suffix) (simp_all add: nl_def fence_def)
    with assms(3) show False ..
  qed
  ultimately have t: "TrimSpace (strip_think (TrimSpace (fenced_reply th body))) = ?f"
    using TrimSpace_frame [OF sf ws, of "[]"] by (simp add: strip_think_id)
  have p: "TrimPrefix ?f (fence @ ''json'') = nl @ body @ nl @ fence"
    by (simp add: TrimPrefix_def HasPrefix_def fence_def)
  have n: "TrimPrefix (nl @ x) (fence @ y) = nl @ x" for x y
    by (simp add: TrimPrefix_def HasPrefix_def fence_def nl_def)
  have l: "LastIndex (nl @ body @ nl @ fence) fence = Some (length (nl @ body @ nl))"
    using LastIndex_suffix [of fence "nl @ body @ nl"] by (simp add: fence_def)
  have "stripFences (fenced_reply th body) = TrimSpace (nl @ body @ nl)"
    unfolding stripFences_def t Let_def using p n [of _ "''JSON''"] n [of _ "[]"] l by simp
  also have "\<dots> = body" by (rule TrimSpace_frame [OF braced_solid [OF assms(2)] ws ws])
  finally show ?thesis .
qed

section \<open>Laws of the registry\<close>

lemma registry_dom:
  "set (map fst (fold (\<lambda>t reg. AList.update (dt_Name t) t reg) types reg)) =
     set (map fst reg) \<union> dt_Name ` set types"
proof (induction types arbitrary: reg)
  case (Cons t types)
  have "set (map fst (AList.update (dt_Name t) t reg)) = insert (dt_Name t) (set (map fst reg))"
    by (auto simp: update_keys)
  with Cons show ?case by (auto simp del: set_map)
qed simp

lemma registry_distinct:
  "distinct (map fst reg) \<Longrightarrow>
     distinct (map fst (fold (\<lambda>t reg. AList.update (dt_Name t) t reg) types reg))"
  by (induction types arbitrary: reg) (simp_all add: distinct_update)

lemma registry_lookup:
  "map_of (fold (\<lambda>t reg. AList.update (dt_Name t) t reg) types reg) n =
     (case find (\<lambda>t. dt_Name t = n) (rev types) of Some t \<Rightarrow> Some t | None \<Rightarrow> map_of reg n)"
proof (induction types arbitrary: reg rule: rev_induct)
  case (snoc t types)
  then show ?case by (simp add: update_conv')
qed simp

section \<open>Laws of the extraction\<close>

text \<open>The model with a counter of the calls to \<^verbatim>\<open>Chat\<close>.\<close>

definition counted :: "'w llm \<Rightarrow> ('w \<times> nat) llm" where
  "counted l = \<lparr>llm_Model = llm_Model l,
     llm_Chat = (\<lambda>sys user j (w, n). case llm_Chat l sys user j w of (r, w') \<Rightarrow> (r, w', Suc n))\<rparr>"

definition count_service :: "('w, 'r) service \<Rightarrow> ('w \<times> nat, 'r) service" where
  "count_service s = \<lparr>sv_llm = counted (sv_llm s), sv_registry = sv_registry s\<rparr>"

lemmas count_simps = count_service_def counted_def mk_result_def repairJSON_def

lemma Extract_counted:
  "\<exists>k. Extract (count_service s) t doc (w, n) = (fst (Extract s t doc w), snd (Extract s t doc w), n + k)
     \<and> k \<le> 2 \<and> (k = 0 \<longleftrightarrow> t \<notin> set (map fst (sv_registry s)))"
proof -
  have "t \<in> set (map fst (sv_registry s)) \<longleftrightarrow> map_of (sv_registry s) t \<noteq> None"
    by (metis map_of_eq_None_iff list.set_map)
  then show ?thesis
    by (auto simp: Extract_def count_simps split: option.split prod.split sum.split)
qed

section \<open>Properties\<close>




text \<open>
  C28: One extraction asks the model at most twice (the extraction and one repair), asks it at least once
  when the document type is registered, and never when it is not. Counting the calls changes neither
  the result nor the state of the world.
\<close>

theorem Extract_calls:
  "\<exists>k \<le> 2. Extract (count_service s) t doc (w, n) =
       (fst (Extract s t doc w), snd (Extract s t doc w), n + k)
     \<and> (k = 0 \<longleftrightarrow> t \<notin> set (map fst (sv_registry s)))"
  using Extract_counted [of s t doc w n] by blast

theorem Extract_calls_witness:
  "\<exists>k \<le> 2. Extract (count_service (NewService \<lparr>llm_Model = ''m'', llm_Chat = \<lambda>_ _ _ (w::unit). (Inr ''x'', w)\<rparr>
       ([] :: nat doc_type list))) ''rg''
       \<lparr>pd_Kind = KindPDF, pd_MIME = [], pd_Text = ''t'', pd_Images = [], pd_Mode = ''text'', pd_Filename = []\<rparr> ((), 0) =
     (Inl (ErrUnknownDocType ''rg''), (), k)"
  using Extract_calls [of "NewService \<lparr>llm_Model = ''m'', llm_Chat = \<lambda>_ _ _ (w::unit). (Inr ''x'', w)\<rparr>
       ([] :: nat doc_type list)" "''rg''"
       "\<lparr>pd_Kind = KindPDF, pd_MIME = [], pd_Text = ''t'', pd_Images = [], pd_Mode = ''text'', pd_Filename = []\<rparr>" "()" 0]
  by (auto simp: Extract_def NewService_def)

text \<open>
  The registry answers for a name with the last type registered under it, and \<open>KnownTypes\<close> lists
  every registered name once, in ascending order.
\<close>

theorem NewService_registry:
  "map_of (sv_registry (NewService l types)) n = find (\<lambda>t. dt_Name t = n) (rev types)
   \<and> sorted (KnownTypes (NewService l types)) \<and> distinct (KnownTypes (NewService l types))
   \<and> set (KnownTypes (NewService l types)) = dt_Name ` set types"
proof -
  have "distinct (map fst (sv_registry (NewService l types)))"
    using registry_distinct [of "[]" types] by (simp add: NewService_def)
  moreover have "set (map fst (sv_registry (NewService l types))) = dt_Name ` set types"
    using registry_dom [of types "[]"] by (simp add: NewService_def)
  ultimately show ?thesis
    using registry_lookup [of types "[]" n]
    by (simp add: KnownTypes_def NewService_def split: option.split)
qed

end
