(* ===== verification/Go_JSON.thy ===== *)
theory Go_JSON
  imports Go_Time
begin

text \<open>
  The decoder of Go's \<^verbatim>\<open>encoding/json\<close>. \<^verbatim>\<open>json.Unmarshal\<close> first checks that the whole input is one
  JSON value, nested at most 10000 deep, and then stores it; \<open>json_Parse\<close> does the first half and
  returns the value. Strings are decoded as Go does: escapes are resolved, unpaired surrogates and
  invalid UTF-8 become U+FFFD. A number keeps its literal. The functions of the second half read the
  members of an object into the fields of a Go structure.
\<close>

datatype json =
    JNull
  | JBool bool
  | JNum string
  | JStr string
  | JArr "json list"
  | JObj "(string \<times> string \<times> json) list"

text \<open>A member of an object is its key, the raw text of its value and the value.\<close>

section \<open>White space, numbers and strings\<close>

definition is_json_ws :: "char \<Rightarrow> bool" where
  "is_json_ws c \<longleftrightarrow> byte c \<in> {32, 9, 13, 10}"

definition skip_ws :: "string \<Rightarrow> string" where
  "skip_ws s = dropWhile is_json_ws s"

definition digits1 :: "string \<Rightarrow> (string \<times> string) option" where
  "digits1 s =
     (let d = takeWhile is_digit s in if d = [] then None else Some (d, dropWhile is_digit s))"

fun num_int :: "string \<Rightarrow> (string \<times> string) option" where
  "num_int [] = None"
| "num_int (c # s) = (if c = CHR ''0'' then Some ([c], s) else digits1 (c # s))"

definition num_frac :: "string \<Rightarrow> (string \<times> string) option" where
  "num_frac s =
     (case s of
        c # r \<Rightarrow>
          if c = CHR ''.'' then map_option (\<lambda>(d, r'). (c # d, r')) (digits1 r) else Some ([], s)
      | [] \<Rightarrow> Some ([], s))"

definition num_exp :: "string \<Rightarrow> (string \<times> string) option" where
  "num_exp s =
     (case s of
        c # r \<Rightarrow>
          if c = CHR ''e'' \<or> c = CHR ''E'' then
            (case r of
               [] \<Rightarrow> None
             | g # r' \<Rightarrow>
                 if g = CHR ''+'' \<or> g = CHR ''-''
                 then map_option (\<lambda>(d, t). (c # g # d, t)) (digits1 r')
                 else map_option (\<lambda>(d, t). (c # d, t)) (digits1 r))
          else Some ([], s)
      | [] \<Rightarrow> Some ([], s))"

definition num_sign :: "string \<Rightarrow> string \<times> string" where
  "num_sign s = (case s of c # r \<Rightarrow> if c = CHR ''-'' then ([c], r) else ([], s) | [] \<Rightarrow> ([], s))"

definition json_number :: "string \<Rightarrow> (string \<times> string) option" where
  "json_number s =
     (let (sg, s1) = num_sign s in
      case num_int s1 of
        None \<Rightarrow> None
      | Some (i, s2) \<Rightarrow>
          (case num_frac s2 of
             None \<Rightarrow> None
           | Some (f, s3) \<Rightarrow>
               (case num_exp s3 of
                  None \<Rightarrow> None
                | Some (e, s4) \<Rightarrow> Some (sg @ i @ f @ e, s4))))"

definition hex_val :: "char \<Rightarrow> nat option" where
  "hex_val c =
     (if in_range 48 57 c then Some (byte c - 48)
      else if in_range 97 102 c then Some (byte c - 87)
      else if in_range 65 70 c then Some (byte c - 55)
      else None)"

text \<open>\<^verbatim>\<open>getu4\<close>: the four hexadecimal digits after a backslash and the letter u.\<close>

fun getu4 :: "string \<Rightarrow> nat option" where
  "getu4 (a # b # c # d # _) =
     (case (hex_val a, hex_val b, hex_val c, hex_val d) of
        (Some w, Some x, Some y, Some z) \<Rightarrow> Some (((w * 16 + x) * 16 + y) * 16 + z)
      | _ \<Rightarrow> None)"
| "getu4 _ = None"

definition simple_escape :: "char \<Rightarrow> nat option" where
  "simple_escape c =
     map_of [(CHR 0x22, 34), (CHR 0x5C, 92), (CHR ''/'', 47), (CHR ''b'', 8), (CHR ''f'', 12),
       (CHR ''n'', 10), (CHR ''r'', 13), (CHR ''t'', 9)] c"

text \<open>
  One element of a string literal, decoded, and the text after it. A surrogate escape followed by a
  second one that completes the pair is one rune; any other surrogate is U+FFFD, which is what
  \<open>encode_rune\<close> writes for it.
\<close>

definition string_escape :: "string \<Rightarrow> (string \<times> string) option" where
  "string_escape r =
     (case r of
        [] \<Rightarrow> None
      | e # r' \<Rightarrow>
          if e = CHR ''u'' then
            (case getu4 r' of
               None \<Rightarrow> None
             | Some h \<Rightarrow>
                 (let t = drop 4 r' in
                  case (if take 2 t = [CHR 0x5C, CHR ''u''] then getu4 (drop 2 t) else None) of
                    Some l \<Rightarrow>
                      if 55296 \<le> h \<and> h < 56320 \<and> 56320 \<le> l \<and> l < 57344
                      then Some (encode_rune (65536 + (h - 55296) * 1024 + (l - 56320)), drop 6 t)
                      else Some (encode_rune h, t)
                  | None \<Rightarrow> Some (encode_rune h, t)))
          else map_option (\<lambda>b. ([char_of b], r')) (simple_escape e))"

definition string_elem :: "string \<Rightarrow> (string \<times> string) option" where
  "string_elem s =
     (case s of
        [] \<Rightarrow> None
      | c # r \<Rightarrow>
          if c = CHR 0x5C then string_escape r
          else if byte c < 32 then None
          else (let (x, k) = decode_rune s in Some (encode_rune x, drop k s)))"

lemma string_escape_length: "string_escape s = Some (t, r) \<Longrightarrow> length r < length s"
  by (auto simp: string_escape_def Let_def split: list.splits if_splits option.splits)

lemma string_elem_length: "string_elem s = Some (t, r) \<Longrightarrow> length r < length s"
  using decode_rune_width [of s] string_escape_length [of "tl s" t r]
  by (auto simp: string_elem_def split: list.splits if_splits prod.splits)

text \<open>The body of a string literal after its opening quote: its text and what follows the closing quote.\<close>

function unquote :: "string \<Rightarrow> (string \<times> string) option" where
  "unquote s =
     (if HasPrefix s [CHR 0x22] then Some ([], tl s)
      else case string_elem s of
        None \<Rightarrow> None
      | Some (t, r) \<Rightarrow> map_option (\<lambda>(u, w). (t @ u, w)) (unquote r))"
  by pat_completeness auto
termination
  by (relation "measure length") (auto dest: string_elem_length)

declare unquote.simps [simp del]

lemma unquote_length: "unquote s = Some (t, r) \<Longrightarrow> length r < length s"
proof (induction s arbitrary: t r rule: unquote.induct)
  case (1 s)
  show ?case
  proof (cases "HasPrefix s [CHR 0x22]")
    case True
    with "1.prems" show ?thesis by (subst (asm) unquote.simps) (auto simp: HasPrefix_conv)
  next
    case False
    with "1.prems" obtain t' r' u where e: "string_elem s = Some (t', r')" and u: "unquote r' = Some (u, r)"
      by (subst (asm) unquote.simps) (auto split: option.splits)
    from "1.IH" [OF False e refl u] string_elem_length [OF e] show ?thesis by linarith
  qed
qed

section \<open>Values\<close>

definition json_literal :: "string \<Rightarrow> (json \<times> string) option" where
  "json_literal s =
     (if HasPrefix s ''true'' then Some (JBool True, drop 4 s)
      else if HasPrefix s ''false'' then Some (JBool False, drop 5 s)
      else if HasPrefix s ''null'' then Some (JNull, drop 4 s)
      else map_option (\<lambda>(n, r). (JNum n, r)) (json_number s))"

text \<open>
  What may follow an element: the closing bracket (\<open>Inl\<close>, with the text after it) or a comma and
  the next element (\<open>Inr\<close>, at that element).
\<close>

definition json_sep :: "char \<Rightarrow> string \<Rightarrow> (string + string) option" where
  "json_sep close s =
     (case skip_ws s of
        [] \<Rightarrow> None
      | c # w \<Rightarrow> if c = close then Some (Inl w) else if c = CHR '','' then Some (Inr (skip_ws w)) else None)"

text \<open>The key of a member with its colon.\<close>

definition json_key :: "string \<Rightarrow> (string \<times> string) option" where
  "json_key s =
     (if HasPrefix s [CHR 0x22] then
        case unquote (tl s) of
          None \<Rightarrow> None
        | Some (k, r) \<Rightarrow>
            if HasPrefix (skip_ws r) '':'' then Some (k, skip_ws (tl (skip_ws r))) else None
      else None)"

text \<open>
  A value, the elements of an array and the members of an object, with the raw text of every member.
  The first argument bounds the depth of the calls, two for every byte of the text; the second
  is the nesting that is still allowed.
\<close>

fun parse_value :: "nat \<Rightarrow> nat \<Rightarrow> string \<Rightarrow> (json \<times> string) option"
  and parse_elems :: "nat \<Rightarrow> nat \<Rightarrow> string \<Rightarrow> (json list \<times> string) option"
  and parse_members :: "nat \<Rightarrow> nat \<Rightarrow> string \<Rightarrow> ((string \<times> string \<times> json) list \<times> string) option" where
  "parse_value 0 d s = None"
| "parse_value (Suc n) d s =
     (if HasPrefix s [CHR 0x22] then map_option (\<lambda>(t, w). (JStr t, w)) (unquote (tl s))
      else if HasPrefix s [CHR 0x7B] then
        if d = 0 then None
        else
          let r = skip_ws (tl s) in
          if HasPrefix r [CHR 0x7D] then Some (JObj [], tl r)
          else map_option (\<lambda>(ms, w). (JObj ms, w)) (parse_members n (d - 1) r)
      else if HasPrefix s [CHR 0x5B] then
        if d = 0 then None
        else
          let r = skip_ws (tl s) in
          if HasPrefix r [CHR 0x5D] then Some (JArr [], tl r)
          else map_option (\<lambda>(vs, w). (JArr vs, w)) (parse_elems n (d - 1) r)
      else json_literal s)"
| "parse_elems 0 d s = None"
| "parse_elems (Suc n) d s =
     (case parse_value n d s of
        None \<Rightarrow> None
      | Some (v, r) \<Rightarrow>
          (case json_sep (CHR 0x5D) r of
             None \<Rightarrow> None
           | Some (Inl w) \<Rightarrow> Some ([v], w)
           | Some (Inr w) \<Rightarrow> map_option (\<lambda>(vs, w'). (v # vs, w')) (parse_elems n d w)))"
| "parse_members 0 d s = None"
| "parse_members (Suc n) d s =
     (case json_key s of
        None \<Rightarrow> None
      | Some (k, s') \<Rightarrow>
          (case parse_value n d s' of
             None \<Rightarrow> None
           | Some (v, r) \<Rightarrow>
               (let m = (k, take (length s' - length r) s', v) in
                case json_sep (CHR 0x7D) r of
                  None \<Rightarrow> None
                | Some (Inl w) \<Rightarrow> Some ([m], w)
                | Some (Inr w) \<Rightarrow> map_option (\<lambda>(ms, w'). (m # ms, w')) (parse_members n d w))))"

definition max_nesting :: nat where
  "max_nesting = 10000"

definition json_value :: "string \<Rightarrow> (json \<times> string) option" where
  "json_value s = parse_value (2 * length s + 1) max_nesting (skip_ws s)"

text \<open>\<^verbatim>\<open>json.Unmarshal\<close> wants nothing but white space after the value.\<close>

definition json_Parse :: "string \<Rightarrow> json option" where
  "json_Parse s =
     (case json_value s of
        Some (v, r) \<Rightarrow> if skip_ws r = [] then Some v else None
      | None \<Rightarrow> None)"

text \<open>\<^verbatim>\<open>json.NewDecoder(r).Decode\<close> reads the first value and leaves the rest unread.\<close>

definition json_Decode :: "string \<Rightarrow> json option" where
  "json_Decode s = map_option fst (json_value s)"

section \<open>Storing a value in a Go variable\<close>

text \<open>
  A decoder takes the present value of the variable and returns the new one, or \<open>None\<close> for a type
  mismatch; every caller in the program discards the variable on an error. A null leaves a string, a
  boolean or a structure as it is and clears a pointer or a slice.
\<close>

fun into_str :: "json \<Rightarrow> string \<Rightarrow> string option" where
  "into_str (JStr t) old = Some t"
| "into_str JNull old = Some old"
| "into_str _ old = None"

fun into_bool :: "json \<Rightarrow> bool \<Rightarrow> bool option" where
  "into_bool (JBool b) old = Some b"
| "into_bool JNull old = Some old"
| "into_bool _ old = None"

definition into_ptr :: "'a \<Rightarrow> (json \<Rightarrow> 'a \<Rightarrow> 'a option) \<Rightarrow> json \<Rightarrow> 'a option \<Rightarrow> 'a option option" where
  "into_ptr zero f v old =
     (if v = JNull then Some None
      else map_option Some (f v (case old of None \<Rightarrow> zero | Some x \<Rightarrow> x)))"

text \<open>An element of a slice is decoded over the element that is already there.\<close>

fun into_elems :: "'a \<Rightarrow> (json \<Rightarrow> 'a \<Rightarrow> 'a option) \<Rightarrow> json list \<Rightarrow> 'a list \<Rightarrow> 'a list option" where
  "into_elems zero f [] old = Some []"
| "into_elems zero f (v # vs) old =
     (case f v (case old of [] \<Rightarrow> zero | x # _ \<Rightarrow> x) of
        None \<Rightarrow> None
      | Some y \<Rightarrow> map_option ((#) y) (into_elems zero f vs (tl old)))"

fun into_slice :: "'a \<Rightarrow> (json \<Rightarrow> 'a \<Rightarrow> 'a option) \<Rightarrow> json \<Rightarrow> 'a list \<Rightarrow> 'a list option" where
  "into_slice zero f JNull old = Some []"
| "into_slice zero f (JArr vs) old = into_elems zero f vs old"
| "into_slice zero f _ old = None"

text \<open>
  A structure: a member is stored in the field whose name equals its key, up to letter case; later
  members overwrite earlier ones and unknown members are ignored. The table gives for every field its
  JSON name and its decoder.
\<close>

definition field_named :: "string \<Rightarrow> (string \<times> 'b) list \<Rightarrow> 'b option" where
  "field_named k fs =
     (case map_of fs k of
        Some f \<Rightarrow> Some f
      | None \<Rightarrow> map_option snd (find (\<lambda>(n, _). EqualFold n k) fs))"

fun into_fields ::
    "(string \<times> (string \<times> json \<Rightarrow> 'r \<Rightarrow> 'r option)) list \<Rightarrow> (string \<times> string \<times> json) list \<Rightarrow> 'r \<Rightarrow> 'r option" where
  "into_fields fs [] r = Some r"
| "into_fields fs ((k, v) # ms) r =
     (case field_named k fs of
        None \<Rightarrow> into_fields fs ms r
      | Some f \<Rightarrow> (case f v r of None \<Rightarrow> None | Some r' \<Rightarrow> into_fields fs ms r'))"

fun into_struct :: "(string \<times> (string \<times> json \<Rightarrow> 'r \<Rightarrow> 'r option)) list \<Rightarrow> json \<Rightarrow> 'r \<Rightarrow> 'r option" where
  "into_struct fs JNull r = Some r"
| "into_struct fs (JObj ms) r = into_fields fs ms r"
| "into_struct fs _ r = None"

text \<open>
  A field given by its selector and its update. A field of type \<^verbatim>\<open>json.RawMessage\<close> takes the raw text.
\<close>

definition field ::
    "('r \<Rightarrow> 'a) \<Rightarrow> (('a \<Rightarrow> 'a) \<Rightarrow> 'r \<Rightarrow> 'r) \<Rightarrow> (json \<Rightarrow> 'a \<Rightarrow> 'a option) \<Rightarrow> string \<times> json \<Rightarrow> 'r \<Rightarrow> 'r option" where
  "field get upd f m r = map_option (\<lambda>x. upd (\<lambda>_. x) r) (f (snd m) (get r))"

definition raw_field :: "((string \<Rightarrow> string) \<Rightarrow> 'r \<Rightarrow> 'r) \<Rightarrow> string \<times> json \<Rightarrow> 'r \<Rightarrow> 'r option" where
  "raw_field upd m r = Some (upd (\<lambda>_. fst m) r)"

definition json_Unmarshal :: "(json \<Rightarrow> 'r \<Rightarrow> 'r option) \<Rightarrow> string \<Rightarrow> 'r \<Rightarrow> 'r option" where
  "json_Unmarshal f s zero = (case json_Parse s of None \<Rightarrow> None | Some v \<Rightarrow> f v zero)"

text \<open>JSON text is written here with a backquote for the double quote.\<close>

definition jtext :: "string \<Rightarrow> string" where
  "jtext s = map (\<lambda>c. if c = CHR 0x60 then CHR 0x22 else c) s"

section \<open>The bound on the calls\<close>

lemma skip_ws_length: "length (skip_ws s) \<le> length s"
  by (simp add: skip_ws_def length_dropWhile_le)

lemma digits1_length: "digits1 s = Some (d, r) \<Longrightarrow> length r < length s"
proof -
  assume a: "digits1 s = Some (d, r)"
  then have "takeWhile is_digit s \<noteq> []" and r: "r = dropWhile is_digit s"
    by (auto simp: digits1_def Let_def split: if_splits)
  moreover have "length s = length (takeWhile is_digit s) + length (dropWhile is_digit s)"
    by (metis length_append takeWhile_dropWhile_id)
  ultimately show "length r < length s" by (cases "takeWhile is_digit s") auto
qed

lemma json_number_length: "json_number s = Some (n, r) \<Longrightarrow> length r < length s"
proof -
  assume "json_number s = Some (n, r)"
  then obtain sg s1 i s2 f s3 e where p: "num_sign s = (sg, s1)" "num_int s1 = Some (i, s2)"
    "num_frac s2 = Some (f, s3)" "num_exp s3 = Some (e, r)"
    by (auto simp: json_number_def split: prod.splits option.splits)
  from p(1) have 1: "length s1 \<le> length s" by (auto simp: num_sign_def split: list.splits if_splits)
  from p(2) have 2: "length s2 < length s1"
    by (cases s1) (auto split: if_splits dest: digits1_length)
  from p(3) have 3: "length s3 \<le> length s2"
    by (auto simp: num_frac_def split: list.splits if_splits dest: digits1_length)
  from p(4) have 4: "length r \<le> length s3"
    by (auto simp: num_exp_def split: list.splits if_splits dest: digits1_length)
  from 1 2 3 4 show "length r < length s" by linarith
qed

lemma json_literal_length: "json_literal s = Some (v, r) \<Longrightarrow> length r < length s"
  by (auto simp: json_literal_def HasPrefix_conv split: if_splits dest: json_number_length)

lemma tl_length: "HasPrefix s [c] \<Longrightarrow> length (tl s) < length s"
  by (auto simp: HasPrefix_conv)

lemma json_sep_length:
  "json_sep c s = Some (Inl w) \<Longrightarrow> length w < length s" "json_sep c s = Some (Inr w) \<Longrightarrow> length w < length s"
  using skip_ws_length [of s] skip_ws_length [of "tl (skip_ws s)"]
  by (auto simp: json_sep_def split: list.splits if_splits)

lemma json_key_length:
  assumes "json_key s = Some (k, r)" shows "length r < length s"
proof -
  from assms obtain q where s: "HasPrefix s [CHR 0x22]" and q: "unquote (tl s) = Some (k, q)"
    and r: "r = skip_ws (tl (skip_ws q))"
    by (auto simp: json_key_def split: if_splits option.splits)
  have "length r \<le> length q"
    unfolding r using skip_ws_length [of q] skip_ws_length [of "tl (skip_ws q)"] by simp
  with tl_length [OF s] unquote_length [OF q] show ?thesis by linarith
qed

lemma parse_length:
  "parse_value n d s = Some (v, r) \<Longrightarrow> length r < length s"
  "parse_elems n d s = Some (vs, r) \<Longrightarrow> length r < length s"
  "parse_members n d s = Some (ms, r) \<Longrightarrow> length r < length s"
proof (induction n d s and n d s and n d s arbitrary: v r and vs r and ms r
    rule: parse_value_parse_elems_parse_members.induct)
  case (2 n d s)
  let ?r = "skip_ws (tl s)"
  have tl: "length ?r < length s" if "HasPrefix s [c]" for c
    using tl_length [OF that] skip_ws_length [of "tl s"] by linarith
  from "2.prems" consider "HasPrefix s [CHR 0x22]" "\<exists>t. unquote (tl s) = Some (t, r)"
    | c where "HasPrefix s [c]" "r = tl ?r"
    | ms where "HasPrefix s [CHR 0x7B]" "d \<noteq> 0" "parse_members n (d - 1) ?r = Some (ms, r)"
        "\<not> HasPrefix s [CHR 0x22]" "\<not> HasPrefix ?r [CHR 0x7D]"
    | vs where "HasPrefix s [CHR 0x5B]" "d \<noteq> 0" "parse_elems n (d - 1) ?r = Some (vs, r)"
        "\<not> HasPrefix s [CHR 0x22]" "\<not> HasPrefix s [CHR 0x7B]" "\<not> HasPrefix ?r [CHR 0x5D]"
    | "json_literal s = Some (v, r)"
    by (auto simp: Let_def split: if_splits)
  then show ?case
  proof cases
    case 1 then show ?thesis using tl_length by (fastforce dest: unquote_length)
  next
    case 2 then show ?thesis using tl [of c] by simp
  next
    case 3 then show ?thesis using "2.IH"(1) tl by fastforce
  next
    case 4 then show ?thesis using "2.IH"(2) tl by fastforce
  next
    case 5 then show ?thesis by (rule json_literal_length)
  qed
next
  case (4 n d s)
  from "4.prems" obtain v q where v: "parse_value n d s = Some (v, q)"
    and c: "json_sep (CHR 0x5D) q = Some (Inl r) \<or>
      (\<exists>w ws. json_sep (CHR 0x5D) q = Some (Inr w) \<and> parse_elems n d w = Some (ws, r))"
    by (auto split: option.splits sum.splits)
  from "4.IH"(1) [OF v] have "length q < length s" .
  with c show ?case
    using "4.IH"(2) [OF v refl] by (force dest: json_sep_length)
next
  case (6 n d s)
  from "6.prems" obtain k s' v q where k: "json_key s = Some (k, s')"
    and v: "parse_value n d s' = Some (v, q)"
    and c: "json_sep (CHR 0x7D) q = Some (Inl r) \<or>
      (\<exists>w ws. json_sep (CHR 0x7D) q = Some (Inr w) \<and> parse_members n d w = Some (ws, r))"
    by (auto simp: Let_def split: option.splits sum.splits)
  from "6.IH"(1) [OF k refl v] json_key_length [OF k] have "length q < length s" by linarith
  with c show ?case
    using "6.IH"(2) [OF k refl v refl] by (force dest: json_sep_length)
qed simp_all

text \<open>More fuel than twice the length of the text makes no difference.\<close>

lemma parse_fuel:
  "2 * length s < n \<Longrightarrow> 2 * length s < m \<Longrightarrow> parse_value n d s = parse_value m d s"
  "2 * length s + 1 < n \<Longrightarrow> 2 * length s + 1 < m \<Longrightarrow> parse_elems n d s = parse_elems m d s"
  "2 * length s + 1 < n \<Longrightarrow> 2 * length s + 1 < m \<Longrightarrow> parse_members n d s = parse_members m d s"
proof (induction n d s and n d s and n d s arbitrary: m and m and m
    rule: parse_value_parse_elems_parse_members.induct)
  case (2 n d s)
  from "2.prems"(2) obtain k where m: "m = Suc k" by (cases m) simp_all
  let ?r = "skip_ws (tl s)"
  have r: "length ?r < length s" if "HasPrefix s [c]" for c
    using tl_length [OF that] skip_ws_length [of "tl s"] by linarith
  have "parse_members n (d - 1) ?r = parse_members k (d - 1) ?r"
    if "\<not> HasPrefix s [CHR 0x22]" "HasPrefix s [CHR 0x7B]" "d \<noteq> 0" "\<not> HasPrefix ?r [CHR 0x7D]"
    using that "2.prems" r [OF that(2)] m by (intro "2.IH"(1)) auto
  moreover have "parse_elems n (d - 1) ?r = parse_elems k (d - 1) ?r"
    if "\<not> HasPrefix s [CHR 0x22]" "\<not> HasPrefix s [CHR 0x7B]" "HasPrefix s [CHR 0x5B]" "d \<noteq> 0"
      "\<not> HasPrefix ?r [CHR 0x5D]"
    using that "2.prems" r [OF that(3)] m by (intro "2.IH"(2)) auto
  ultimately show ?case by (auto simp: m Let_def)
next
  case (4 n d s)
  from "4.prems"(2) obtain k where m: "m = Suc k" by (cases m) simp_all
  have v: "parse_value n d s = parse_value k d s" using "4.prems" m by (intro "4.IH"(1)) simp_all
  have "parse_elems n d w = parse_elems k d w"
    if q: "parse_value n d s = Some (x, q)" and w: "json_sep (CHR 0x5D) q = Some (Inr w)" for x q w
    using "4.prems" m parse_length(1) [OF q] json_sep_length(2) [OF w]
    by (intro "4.IH"(2) [OF q refl w]) simp_all
  then show ?case by (auto simp: m v split: option.split sum.split)
next
  case (6 n d s)
  from "6.prems"(2) obtain k where m: "m = Suc k" by (cases m) simp_all
  have v: "parse_value n d s' = parse_value k d s'" if "json_key s = Some (x, s')" for x s'
    using "6.prems" m json_key_length [OF that] by (intro "6.IH"(1) [OF that refl]) simp_all
  have "parse_members n d w = parse_members k d w"
    if e: "json_key s = Some (x, s')" and q: "parse_value n d s' = Some (y, q)"
      and w: "json_sep (CHR 0x7D) q = Some (Inr w)" for x s' y q w
    using "6.prems" m json_key_length [OF e] parse_length(1) [OF q] json_sep_length(2) [OF w]
    by (intro "6.IH"(2) [OF e refl q refl refl w]) simp_all
  with v show ?case by (auto simp: m Let_def split: option.split sum.split)
qed simp_all

text \<open>The recursion equations of the parser without the bound.\<close>

definition pvalue :: "nat \<Rightarrow> string \<Rightarrow> (json \<times> string) option" where
  "pvalue d s = parse_value (2 * length s + 1) d s"

lemma json_value_pvalue: "json_value s = pvalue max_nesting (skip_ws s)"
  unfolding json_value_def pvalue_def
  by (rule parse_fuel(1)) (use skip_ws_length [of s] in simp_all)

end
