(* ===== verification/Prompts.thy ===== *)
theory Prompts
  imports Extract_Service Go_JSON
begin

text \<open>
  The prompts and the schema hints of the four document types, byte for byte. A line is written with a
  backquote for the double quote; bytes outside ASCII, the apostrophe and the backslash are written by
  their codes.
\<close>

definition jlines :: "string list \<Rightarrow> string" where
  "jlines ls = jtext (Join ls nl)"

definition address_proof_SystemPrompt :: string where
  "address_proof_SystemPrompt = jlines [
     ''You extract fields from a Brazilian comprovante de endere'' @ [CHR 0xC3, CHR 0xA7] @ ''o (utility bill, bank statement, or residence declaration).'',
     ''Return one JSON object only. No markdown. No guessing.'',
     [],
     ''Rules:'',
     ''- nome = account holder / resident name printed on the document'',
     ''- logradouro / numero / bairro / cidade / uf / cep = address components only'',
     ''- CEP is exactly 8 digits (#####-### or ########). If unclear, return ``.'',
     ''- data = document issue/reference date only'',
     ''- Unknown text = ``. Unknown dates = null.'',
     ''- Prefer YYYY-MM-DD for dates (DD/MM/YYYY also ok).'']"

definition address_proof_SchemaHint :: string where
  "address_proof_SchemaHint = jlines [
     ''{'',
     ''  `nome`: `string`,'',
     ''  `logradouro`: `string`,'',
     ''  `numero`: `string`,'',
     ''  `bairro`: `string`,'',
     ''  `cidade`: `string`,'',
     ''  `uf`: `string '' @ [CHR 0xE2, CHR 0x80, CHR 0x94] @ '' 2-letter UF`,'',
     ''  `cep`: `string '' @ [CHR 0xE2, CHR 0x80, CHR 0x94] @ '' exactly 8 digits or empty`,'',
     ''  `emissor`: `string`,'',
     ''  `data`: `YYYY-MM-DD or null`'',
     ''}'']"

definition curriculum_vitae_SystemPrompt :: string where
  "curriculum_vitae_SystemPrompt = jlines [
     ''You read a curriculum vitae / resume (CV) in Portuguese or English and return one JSON object. No markdown.'',
     [],
     ''Rules:'',
     ''- Extract only what is clearly written. Do not invent employers, schools, dates, skills, or contact details.'',
     ''- Prefer the candidate'' @ [CHR 0x27] @ ''s primary name as printed near the top.'',
     ''- headline = short professional title/tagline if present (e.g. `Software Engineer`), else ``.'',
     ''- email / phone / location / linkedin / github / website: only when clearly labeled or obvious (mailto, linkedin.com, github.com, http(s)).'',
     ''- summary = short professional summary/objective if present; do not invent one.'',
     ''- skills: group discrete skill names by type. Prefer categories: frontend, backend, mobile, devops, cloud, data, tools, soft, other. Deduplicate; keep concise. Do not invent skills.'',
     ''- languages: spoken/written languages with level when shown (e.g. Fluent, Native, C1); else level ``.'',
     ''- experience: work history newest first when order is clear. current=true only if the role is marked present/atual/hoje or has no end date while clearly ongoing. highlights = bullet achievements; omit fluff.'',
     ''- education: degrees/courses; details for GPA, honors, thesis only if present.'',
     ''- certifications: name + issuer + date when available.'',
     ''- Dates: prefer YYYY-MM for month-precision (common on CVs) or YYYY-MM-DD when a full day is shown. Accept MM/YYYY, MM/YY, Month YYYY, DD/MM/YYYY. Unknown dates ``. Ongoing end_date = null when current=true.'',
     ''- Unknown text fields ``. Unknown lists []. Unknown nullable end_date null.'',
     ''- Ignore photos, QR codes, and decorative text.'']"

definition curriculum_vitae_SchemaHint :: string where
  "curriculum_vitae_SchemaHint = jlines [
     ''{'',
     ''  `full_name`: `string`,'',
     ''  `headline`: `string`,'',
     ''  `email`: `string`,'',
     ''  `phone`: `string`,'',
     ''  `location`: `string '' @ [CHR 0xE2, CHR 0x80, CHR 0x94] @ '' city/region/country as printed`,'',
     ''  `linkedin`: `string '' @ [CHR 0xE2, CHR 0x80, CHR 0x94] @ '' URL or handle`,'',
     ''  `github`: `string '' @ [CHR 0xE2, CHR 0x80, CHR 0x94] @ '' URL or handle`,'',
     ''  `website`: `string '' @ [CHR 0xE2, CHR 0x80, CHR 0x94] @ '' URL`,'',
     ''  `summary`: `string`,'',
     ''  `skills`: ['',
     ''    {`category`: `frontend|backend|mobile|devops|cloud|data|tools|soft|other`, `items`: [`string`]}'',
     ''  ],'',
     ''  `languages`: [{`name`: `string`, `level`: `string`}],'',
     ''  `experience`: [{'',
     ''    `company`: `string`,'',
     ''    `title`: `string`,'',
     ''    `location`: `string`,'',
     ''    `start_date`: `YYYY-MM or YYYY-MM-DD or '' @ [CHR 0x5C] @ ''`'' @ [CHR 0x5C] @ ''``,'',
     ''    `end_date`: `YYYY-MM or YYYY-MM-DD or null`,'',
     ''    `current`: false,'',
     ''    `highlights`: [`string`]'',
     ''  }],'',
     ''  `education`: [{'',
     ''    `institution`: `string`,'',
     ''    `degree`: `string`,'',
     ''    `field`: `string`,'',
     ''    `start_date`: `YYYY-MM or YYYY-MM-DD or '' @ [CHR 0x5C] @ ''`'' @ [CHR 0x5C] @ ''``,'',
     ''    `end_date`: `YYYY-MM or YYYY-MM-DD or '' @ [CHR 0x5C] @ ''`'' @ [CHR 0x5C] @ ''``,'',
     ''    `details`: `string`'',
     ''  }],'',
     ''  `certifications`: [{`name`: `string`, `issuer`: `string`, `date`: `YYYY-MM or YYYY-MM-DD or '' @ [CHR 0x5C] @ ''`'' @ [CHR 0x5C] @ ''``}]'',
     ''}'']"

definition identity_document_SystemPrompt :: string where
  "identity_document_SystemPrompt = jlines [
     ''You read Brazilian RG / CNH / CNH-e and return one JSON object. No markdown.'',
     [],
     ''Brazilian CNH layout (use the numbered fields on the card):'',
     ''- 2 NOME E SOBRENOME '' @ [CHR 0xE2, CHR 0x86, CHR 0x92] @ '' nome'',
     ''- 3 DATA E LOCAL DE NASCIMENTO '' @ [CHR 0xE2, CHR 0x86, CHR 0x92] @ '' data_nascimento = the date only (DD/MM/YYYY). Read EVERY digit of the year carefully (9 vs 0 are easy to misread).'',
     ''- 4a DATA EMISS'' @ [CHR 0xC3, CHR 0x83] @ ''O '' @ [CHR 0xE2, CHR 0x86, CHR 0x92] @ '' ignore for `validade` (this is issue date, NOT expiration)'',
     ''- 4b VALIDADE '' @ [CHR 0xE2, CHR 0x86, CHR 0x92] @ '' validade (expiration). Must come from the field labeled VALIDADE / 4b, never from 4a.'',
     ''- 4c DOC IDENTIDADE / '' @ [CHR 0xC3, CHR 0x93] @ ''RG'' @ [CHR 0xC3, CHR 0x83] @ ''O / UF '' @ [CHR 0xE2, CHR 0x86, CHR 0x92] @ '' orgao_emissor when present'',
     ''- 4d 1'' @ [CHR 0xC2, CHR 0xAA] @ '' HABILITA'' @ [CHR 0xC3, CHR 0x87, CHR 0xC3, CHR 0x83] @ ''O '' @ [CHR 0xE2, CHR 0x86, CHR 0x92] @ '' ignore for validade and birth date'',
     ''- 5 (CAT) '' @ [CHR 0xE2, CHR 0x86, CHR 0x92] @ '' ignore'',
     ''- 6 CPF '' @ [CHR 0xE2, CHR 0x86, CHR 0x92] @ '' cpf. Printed as ###.###.###-##. Copy that exact value. Exactly 11 digits after removing punctuation.'',
     ''- 7 N'' @ [CHR 0xC2, CHR 0xBA] @ '' REGISTRO '' @ [CHR 0xE2, CHR 0x86, CHR 0x92] @ '' numero_documento (this is NOT the CPF)'',
     ''- 8 RENACH / other codes '' @ [CHR 0xE2, CHR 0x86, CHR 0x92] @ '' ignore for cpf and numero_documento'',
     [],
     ''CPF:'',
     ''- Only the value under/beside label `CPF` (field 6 on CNH).'',
     ''- Keep punctuation in your reading if helpful, e.g. `123.456.789-09`, or digits only '' @ [CHR 0xE2, CHR 0x80, CHR 0x94] @ '' both ok.'',
     ''- Do not invent digits. Do not glue CPF with registro, dates, or phone-like numbers.'',
     ''- If the CPF digits are readable, ALWAYS fill cpf. Empty only if the CPF field is truly unreadable.'',
     [],
     ''tipo: `CNH` for carteira de habilita'' @ [CHR 0xC3, CHR 0xA7, CHR 0xC3, CHR 0xA3] @ ''o, `RG` for identity card, else `outro`.'',
     [],
     ''For RG: numero_documento = RG number; cpf only from CPF label if present.'',
     [],
     ''Dates: YYYY-MM-DD preferred (DD/MM/YYYY accepted). Unknown text ``. Unknown dates null.'']"

definition identity_document_SchemaHint :: string where
  "identity_document_SchemaHint = jlines [
     ''{'',
     ''  `tipo`: `RG | CNH | outro`,'',
     ''  `nome`: `string`,'',
     ''  `cpf`: `string '' @ [CHR 0xE2, CHR 0x80, CHR 0x94] @ '' CPF from label CPF only (###.###.###-## or 11 digits)`,'',
     ''  `numero_documento`: `string '' @ [CHR 0xE2, CHR 0x80, CHR 0x94] @ '' CNH field 7 N'' @ [CHR 0xC2, CHR 0xBA] @ '' REGISTRO, or RG number (never CPF)`,'',
     ''  `data_nascimento`: `YYYY-MM-DD '' @ [CHR 0xE2, CHR 0x80, CHR 0x94] @ '' from field 3 only`,'',
     ''  `orgao_emissor`: `string`,'',
     ''  `validade`: `YYYY-MM-DD '' @ [CHR 0xE2, CHR 0x80, CHR 0x94] @ '' from field 4b VALIDADE only, never 4a emiss'' @ [CHR 0xC3, CHR 0xA3] @ ''o`'',
     ''}'']"

definition invoice_nf_SystemPrompt :: string where
  "invoice_nf_SystemPrompt = jlines [
     ''You extract fields from a Brazilian nota fiscal (NFe or NFSe).'',
     ''Return one JSON object only. No markdown. No guessing.'',
     [],
     ''Identifier rules:'',
     ''- CPF: label `CPF`, pattern ###.###.###-##, exactly 11 digits. Never invent.'',
     ''- CNPJ: label `CNPJ`, pattern ##.###.###/####-##, exactly 14 digits. Never invent.'',
     ''- Do not swap emitente and destinatario.'',
     ''- Amounts are JSON numbers. Unknown text ``. Unknown numbers 0. No items []. Unknown dates null.'',
     ''- Dates prefer YYYY-MM-DD (DD/MM/YYYY also ok).'']"

definition invoice_nf_SchemaHint :: string where
  "invoice_nf_SchemaHint = jlines [
     ''{'',
     ''  `numero`: `string`,'',
     ''  `serie`: `string`,'',
     ''  `emitente`: { `nome`: `string`, `cnpj`: `14 digits or empty`, `cpf`: `11 digits or empty` },'',
     ''  `destinatario`: { `nome`: `string`, `cnpj`: `14 digits or empty`, `cpf`: `11 digits or empty` },'',
     ''  `valor_total`: 0,'',
     ''  `data_emissao`: `YYYY-MM-DD or null`,'',
     ''  `itens`: [ { `descricao`: `string`, `quantidade`: 0, `valor`: 0 } ]'',
     ''}'']"

end
