(* ===== verification/Go_Number.thy ===== *)
theory Go_Number
  imports Go_JSON Go_Float "HOL-Library.Word"
begin

text \<open>
  A JSON number decoded to a \<^verbatim>\<open>float64\<close>, as \<^verbatim>\<open>strconv.ParseFloat\<close> does it: the exact value of the literal,
  rounded to the nearest double with ties to even, as its bit pattern; an error when it rounds past the
  largest one.
\<close>

definition number_value :: "string \<Rightarrow> rat" where
  "number_value s =
     (let t = (if HasPrefix s ''-'' then tl s else s);
          mant = takeWhile (\<lambda>c. c \<noteq> CHR ''e'' \<and> c \<noteq> CHR ''E'') t;
          ip = takeWhile (\<lambda>c. c \<noteq> CHR ''.'') mant;
          fp = drop (length ip + 1) mant;
          ex = (case atoi (drop (length mant + 1) t) of None \<Rightarrow> 0 | Some e \<Rightarrow> e) in
      of_nat (dec_val (ip @ fp)) * 10 powi (ex - int (length fp)))"

text \<open>Biased exponent and significand add up, also when the significand rounds up to the next power of two.\<close>

definition float_bits :: "rat \<Rightarrow> nat option" where
  "float_bits x =
     (if x = 0 then Some 0
      else
        let e = max (rat_exp x) (- 1022); m = round_even (x / 2 powi (e - 52)); b = (e + 1022) * 2 ^ 52 + m in
        if 2047 * 2 ^ 52 \<le> b then None else Some (nat b))"

definition ParseFloat :: "string \<Rightarrow> 64 word option" where
  "ParseFloat s =
     map_option (\<lambda>b. word_of_nat (b + (if HasPrefix s ''-'' then 2 ^ 63 else 0))) (float_bits (number_value s))"

fun into_float :: "json \<Rightarrow> 64 word \<Rightarrow> 64 word option" where
  "into_float (JNum s) old = ParseFloat s"
| "into_float JNull old = Some old"
| "into_float _ old = None"

text \<open>The entries of a Go map decoded from an object: the last member of a key counts.\<close>

fun last_members :: "(string \<times> string \<times> json) list \<Rightarrow> (string \<times> json) list" where
  "last_members [] = []"
| "last_members ((k, _, v) # ms) =
     (if k \<in> fst ` set ms then last_members ms else (k, v) # last_members ms)"

lemma last_members_keys: "fst ` set (last_members ms) = fst ` set ms"
  by (induction ms rule: last_members.induct) auto

lemma distinct_last_members: "distinct (map fst (last_members ms))"
proof (induction ms rule: last_members.induct)
  case (2 k u v ms)
  have "fst ` set (last_members ms) = fst ` set ms" by (rule last_members_keys)
  with 2 show ?case by auto
qed simp

end
