(* ===== verification/Registry.thy ===== *)
theory Registry
  imports Curriculum_Laws Prompts Go_Number
begin

text \<open>
  The four document types as the service registers them: the JSON names of their fields and how a reply is
  decoded into them, their prompts, and \<^verbatim>\<open>Normalize\<close>. The result of an extraction is the sum of the four
  result structures; \<^verbatim>\<open>Normalize\<close> of one type leaves a result of another type alone. Go iterates over the
  map form of the skills in an order of its own choice, which is an argument.
\<close>

datatype doc_result =
    AddressResult address
  | CurriculumResult curriculum
  | IdentityResult identity
  | InvoiceResult invoice

section \<open>Fields\<close>

definition into_date :: "json \<Rightarrow> string option \<Rightarrow> string option option" where
  "into_date = into_ptr [] into_str"

definition address_fields :: "(string \<times> (string \<times> json \<Rightarrow> address \<Rightarrow> address option)) list" where
  "address_fields = [
     (''nome'', field ap_nome ap_nome_update into_str),
     (''logradouro'', field ap_logradouro ap_logradouro_update into_str),
     (''numero'', field ap_numero ap_numero_update into_str),
     (''bairro'', field ap_bairro ap_bairro_update into_str),
     (''cidade'', field ap_cidade ap_cidade_update into_str),
     (''uf'', field ap_uf ap_uf_update into_str),
     (''cep'', field ap_cep ap_cep_update into_str),
     (''emissor'', field ap_emissor ap_emissor_update into_str),
     (''data'', field ap_data ap_data_update into_date)]"

definition identity_fields :: "(string \<times> (string \<times> json \<Rightarrow> identity \<Rightarrow> identity option)) list" where
  "identity_fields = [
     (''tipo'', field id_tipo id_tipo_update into_str),
     (''nome'', field id_nome id_nome_update into_str),
     (''cpf'', field id_cpf id_cpf_update into_str),
     (''numero_documento'', field id_numero_documento id_numero_documento_update into_str),
     (''data_nascimento'', field id_data_nascimento id_data_nascimento_update into_date),
     (''orgao_emissor'', field id_orgao_emissor id_orgao_emissor_update into_str),
     (''validade'', field id_validade id_validade_update into_date)]"

definition party_fields :: "(string \<times> (string \<times> json \<Rightarrow> party \<Rightarrow> party option)) list" where
  "party_fields = [
     (''nome'', field pt_nome pt_nome_update into_str),
     (''cnpj'', field pt_cnpj pt_cnpj_update into_str),
     (''cpf'', field pt_cpf pt_cpf_update into_str)]"

definition item_fields :: "(string \<times> (string \<times> json \<Rightarrow> item \<Rightarrow> item option)) list" where
  "item_fields = [
     (''descricao'', field it_descricao it_descricao_update into_str),
     (''quantidade'', field it_quantidade it_quantidade_update into_float),
     (''valor'', field it_valor it_valor_update into_float)]"

definition empty_party :: party where "empty_party = \<lparr>pt_nome = [], pt_cnpj = [], pt_cpf = []\<rparr>"
definition empty_item :: item where "empty_item = \<lparr>it_descricao = [], it_quantidade = 0, it_valor = 0\<rparr>"

fun into_items :: "json \<Rightarrow> item list option \<Rightarrow> item list option option" where
  "into_items JNull old = Some None"
| "into_items v old = map_option Some
     (into_slice empty_item (into_struct item_fields) v (case old of None \<Rightarrow> [] | Some xs \<Rightarrow> xs))"

definition invoice_fields :: "(string \<times> (string \<times> json \<Rightarrow> invoice \<Rightarrow> invoice option)) list" where
  "invoice_fields = [
     (''numero'', field nf_numero nf_numero_update into_str),
     (''serie'', field nf_serie nf_serie_update into_str),
     (''emitente'', field nf_emitente nf_emitente_update (into_struct party_fields)),
     (''destinatario'', field nf_destinatario nf_destinatario_update (into_struct party_fields)),
     (''valor_total'', field nf_valor_total nf_valor_total_update into_float),
     (''data_emissao'', field nf_data_emissao nf_data_emissao_update into_date),
     (''itens'', field nf_itens nf_itens_update into_items)]"

definition language_fields :: "(string \<times> (string \<times> json \<Rightarrow> language \<Rightarrow> language option)) list" where
  "language_fields = [
     (''name'', field lg_name lg_name_update into_str),
     (''level'', field lg_level lg_level_update into_str)]"

definition experience_fields :: "(string \<times> (string \<times> json \<Rightarrow> experience \<Rightarrow> experience option)) list" where
  "experience_fields = [
     (''company'', field ex_company ex_company_update into_str),
     (''title'', field ex_title ex_title_update into_str),
     (''location'', field ex_location ex_location_update into_str),
     (''start_date'', field ex_start_date ex_start_date_update into_str),
     (''end_date'', field ex_end_date ex_end_date_update into_date),
     (''current'', field ex_current ex_current_update into_bool),
     (''highlights'', field ex_highlights ex_highlights_update (into_slice [] into_str))]"

definition education_fields :: "(string \<times> (string \<times> json \<Rightarrow> education \<Rightarrow> education option)) list" where
  "education_fields = [
     (''institution'', field ed_institution ed_institution_update into_str),
     (''degree'', field ed_degree ed_degree_update into_str),
     (''field'', field ed_field ed_field_update into_str),
     (''start_date'', field ed_start_date ed_start_date_update into_str),
     (''end_date'', field ed_end_date ed_end_date_update into_str),
     (''details'', field ed_details ed_details_update into_str)]"

definition certification_fields :: "(string \<times> (string \<times> json \<Rightarrow> certification \<Rightarrow> certification option)) list" where
  "certification_fields = [
     (''name'', field ce_name ce_name_update into_str),
     (''issuer'', field ce_issuer ce_issuer_update into_str),
     (''date'', field ce_date ce_date_update into_str)]"

section \<open>Skills\<close>

definition skill_group_fields :: "(string \<times> (string \<times> json \<Rightarrow> skill_group \<Rightarrow> skill_group option)) list" where
  "skill_group_fields = [
     (''category'', field sg_category sg_category_update into_str),
     (''items'', field sg_items sg_items_update (into_slice [] into_str))]"

definition empty_group :: skill_group where "empty_group = \<lparr>sg_category = [], sg_items = []\<rparr>"

definition into_string_list :: "json \<Rightarrow> string list option" where
  "into_string_list v = into_slice [] into_str v []"

text \<open>\<^verbatim>\<open>map[string][]string\<close>: every member is decoded, the last one of a key is kept.\<close>

definition into_string_lists :: "(string \<times> string \<times> json) list \<Rightarrow> (string \<times> string list) list option" where
  "into_string_lists ms =
     (if list_all (\<lambda>m. into_string_list (snd (snd m)) \<noteq> None) ms
      then Some (map (\<lambda>(k, v). (k, the (into_string_list v))) (last_members ms)) else None)"

definition Skills_UnmarshalJSON ::
    "((string \<times> string list) list \<Rightarrow> (string \<times> string list) list) \<Rightarrow> json \<Rightarrow> skills \<Rightarrow> skills option" where
  "Skills_UnmarshalJSON order v old =
     (case v of
        JNull \<Rightarrow> Some []
      | JArr vs \<Rightarrow>
          (case into_slice empty_group (into_struct skill_group_fields) v [] of
             Some groups \<Rightarrow> Some groups
           | None \<Rightarrow> map_option (\<lambda>flat. [\<lparr>sg_category = ''other'', sg_items = flat\<rparr>]) (into_string_list v))
      | JObj ms \<Rightarrow>
          map_option (\<lambda>m. map (\<lambda>(cat, items). \<lparr>sg_category = cat, sg_items = items\<rparr>) (order m)) (into_string_lists ms)
      | _ \<Rightarrow> into_slice empty_group (into_struct skill_group_fields) v old)"

definition curriculum_fields ::
    "((string \<times> string list) list \<Rightarrow> (string \<times> string list) list)
      \<Rightarrow> (string \<times> (string \<times> json \<Rightarrow> curriculum \<Rightarrow> curriculum option)) list" where
  "curriculum_fields order = [
     (''full_name'', field cv_full_name cv_full_name_update into_str),
     (''headline'', field cv_headline cv_headline_update into_str),
     (''email'', field cv_email cv_email_update into_str),
     (''phone'', field cv_phone cv_phone_update into_str),
     (''location'', field cv_location cv_location_update into_str),
     (''linkedin'', field cv_linkedin cv_linkedin_update into_str),
     (''github'', field cv_github cv_github_update into_str),
     (''website'', field cv_website cv_website_update into_str),
     (''summary'', field cv_summary cv_summary_update into_str),
     (''skills'', field cv_skills cv_skills_update (Skills_UnmarshalJSON order)),
     (''languages'', field cv_languages cv_languages_update
        (into_slice \<lparr>lg_name = [], lg_level = []\<rparr> (into_struct language_fields))),
     (''experience'', field cv_experience cv_experience_update
        (into_slice \<lparr>ex_company = [], ex_title = [], ex_location = [], ex_start_date = [], ex_end_date = None,
           ex_current = False, ex_highlights = []\<rparr> (into_struct experience_fields))),
     (''education'', field cv_education cv_education_update
        (into_slice \<lparr>ed_institution = [], ed_degree = [], ed_field = [], ed_start_date = [], ed_end_date = [],
           ed_details = []\<rparr> (into_struct education_fields))),
     (''certifications'', field cv_certifications cv_certifications_update
        (into_slice \<lparr>ce_name = [], ce_issuer = [], ce_date = []\<rparr> (into_struct certification_fields)))]"

section \<open>Document types\<close>

definition empty_address :: address where
  "empty_address = \<lparr>ap_nome = [], ap_logradouro = [], ap_numero = [], ap_bairro = [], ap_cidade = [], ap_uf = [],
     ap_cep = [], ap_emissor = [], ap_data = None\<rparr>"

definition empty_identity :: identity where
  "empty_identity = \<lparr>id_tipo = [], id_nome = [], id_cpf = [], id_numero_documento = [], id_data_nascimento = None,
     id_orgao_emissor = [], id_validade = None\<rparr>"

definition empty_invoice :: invoice where
  "empty_invoice = \<lparr>nf_numero = [], nf_serie = [], nf_emitente = empty_party, nf_destinatario = empty_party,
     nf_valor_total = 0, nf_data_emissao = None, nf_itens = Some []\<rparr>"

definition empty_curriculum :: curriculum where
  "empty_curriculum = \<lparr>cv_full_name = [], cv_headline = [], cv_email = [], cv_phone = [], cv_location = [],
     cv_linkedin = [], cv_github = [], cv_website = [], cv_summary = [], cv_skills = [], cv_languages = [],
     cv_experience = [], cv_education = [], cv_certifications = []\<rparr>"

text \<open>
  The text of a decoding error is that of the Go library, an argument of the text that was decoded; the
  e-mail parser of \<^verbatim>\<open>net/mail\<close> is an argument of the curriculum.
\<close>

definition unmarshal_into ::
    "(string \<Rightarrow> string) \<Rightarrow> (string \<times> (string \<times> json \<Rightarrow> 'a \<Rightarrow> 'a option)) list \<Rightarrow> 'a \<Rightarrow> ('a \<Rightarrow> doc_result) \<Rightarrow> string
      \<Rightarrow> string + doc_result" where
  "unmarshal_into msg fs zero wrap s =
     (case json_Unmarshal (into_struct fs) s zero of None \<Rightarrow> Inl (msg s) | Some r \<Rightarrow> Inr (wrap r))"

fun address_Normalize :: "doc_result \<Rightarrow> doc_result" where
  "address_Normalize (AddressResult r) = AddressResult (normalize_address r)"
| "address_Normalize r = r"

fun curriculum_Normalize :: "(string \<Rightarrow> string option) \<Rightarrow> doc_result \<Rightarrow> doc_result" where
  "curriculum_Normalize mail (CurriculumResult r) = CurriculumResult (normalize_curriculum mail r)"
| "curriculum_Normalize mail r = r"

fun identity_Normalize :: "doc_result \<Rightarrow> doc_result" where
  "identity_Normalize (IdentityResult r) = IdentityResult (normalize_identity r)"
| "identity_Normalize r = r"

fun invoice_Normalize :: "doc_result \<Rightarrow> doc_result" where
  "invoice_Normalize (InvoiceResult r) = InvoiceResult (normalize_invoice r)"
| "invoice_Normalize r = r"

definition address_proof_DocType :: "(string \<Rightarrow> string) \<Rightarrow> doc_result doc_type" where
  "address_proof_DocType msg =
     \<lparr>dt_Name = ''address_proof'', dt_SystemPrompt = address_proof_SystemPrompt, dt_SchemaHint = address_proof_SchemaHint,
      dt_unmarshal = unmarshal_into msg address_fields empty_address AddressResult, dt_Normalize = address_Normalize\<rparr>"

definition curriculum_vitae_DocType ::
    "(string \<Rightarrow> string) \<Rightarrow> (string \<Rightarrow> string option) \<Rightarrow> ((string \<times> string list) list \<Rightarrow> (string \<times> string list) list)
      \<Rightarrow> doc_result doc_type" where
  "curriculum_vitae_DocType msg mail order =
     \<lparr>dt_Name = ''curriculum_vitae'', dt_SystemPrompt = curriculum_vitae_SystemPrompt,
      dt_SchemaHint = curriculum_vitae_SchemaHint,
      dt_unmarshal = unmarshal_into msg (curriculum_fields order) empty_curriculum CurriculumResult,
      dt_Normalize = curriculum_Normalize mail\<rparr>"

definition identity_document_DocType :: "(string \<Rightarrow> string) \<Rightarrow> doc_result doc_type" where
  "identity_document_DocType msg =
     \<lparr>dt_Name = ''identity_document'', dt_SystemPrompt = identity_document_SystemPrompt,
      dt_SchemaHint = identity_document_SchemaHint,
      dt_unmarshal = unmarshal_into msg identity_fields empty_identity IdentityResult, dt_Normalize = identity_Normalize\<rparr>"

definition invoice_nf_DocType :: "(string \<Rightarrow> string) \<Rightarrow> doc_result doc_type" where
  "invoice_nf_DocType msg =
     \<lparr>dt_Name = ''invoice_nf'', dt_SystemPrompt = invoice_nf_SystemPrompt, dt_SchemaHint = invoice_nf_SchemaHint,
      dt_unmarshal = unmarshal_into msg invoice_fields empty_invoice InvoiceResult, dt_Normalize = invoice_Normalize\<rparr>"

text \<open>The service as \<^verbatim>\<open>main\<close> builds it.\<close>

definition doc_types ::
    "(string \<Rightarrow> string) \<Rightarrow> (string \<Rightarrow> string option) \<Rightarrow> ((string \<times> string list) list \<Rightarrow> (string \<times> string list) list) \<Rightarrow> doc_result doc_type list" where
  "doc_types msg mail order =
     [address_proof_DocType msg, curriculum_vitae_DocType msg mail order, identity_document_DocType msg, invoice_nf_DocType msg]"

section \<open>The contract of a document type\<close>

text \<open>Equal results, for a curriculum up to the e-mail, which an unknown parser decides.\<close>

fun same_data :: "doc_result \<Rightarrow> doc_result \<Rightarrow> bool" where
  "same_data (CurriculumResult a) (CurriculumResult b) \<longleftrightarrow> a\<lparr>cv_email := []\<rparr> = b\<lparr>cv_email := []\<rparr>"
| "same_data a b \<longleftrightarrow> a = b"

text \<open>
  What the service relies on: a document type decodes replies into its own structure, its normalisation
  keeps the structure, and a normalised result is not changed by normalising it again. Then every result
  of the service for that type has the structure of the type and is normalised.
\<close>

locale document_type =
  fixes dt :: "doc_result doc_type" and own :: "doc_result \<Rightarrow> bool"
  assumes unmarshal_own: "dt_unmarshal dt s = Inr r \<Longrightarrow> own r"
    and normalize_own: "own r \<Longrightarrow> own (dt_Normalize dt r)"
    and normalize_stable: "same_data (dt_Normalize dt (dt_Normalize dt r)) (dt_Normalize dt r)"
begin

lemma decoded_own: "decodeInto dt c = Inr r \<Longrightarrow> own (dt_Normalize dt r)"
  by (simp add: decodeInto_def unmarshal_own normalize_own)

lemma extract_own:
  assumes "map_of (sv_registry s) d = Some dt" and "Extract s d doc w = (Inr res, w')"
  shows "own (rs_Data res) \<and> same_data (dt_Normalize dt (rs_Data res)) (rs_Data res) \<and> rs_DocType res = dt_Name dt"
proof -
  have r: "own (rs_Data (mk_result s dt doc x)) \<and> same_data (dt_Normalize dt (rs_Data (mk_result s dt doc x))) (rs_Data (mk_result s dt doc x))
      \<and> rs_DocType (mk_result s dt doc x) = dt_Name dt" if "decodeInto dt c = Inr x" for c x
    using decoded_own [OF that] normalize_stable by (simp add: mk_result_def)
  from assms show ?thesis
    by (auto simp: Extract_def repairJSON_def split: prod.splits sum.splits intro: r dest: r)
qed

end

lemma unmarshal_into_own: "unmarshal_into msg fs z wrap s = Inr r \<Longrightarrow> \<exists>x. r = wrap x"
  by (auto simp: unmarshal_into_def split: option.splits)

interpretation address_proof: document_type "address_proof_DocType msg" "\<lambda>r. \<exists>x. r = AddressResult x" for msg
proof
  show "same_data (dt_Normalize (address_proof_DocType msg) (dt_Normalize (address_proof_DocType msg) r))
      (dt_Normalize (address_proof_DocType msg) r)" for r
    by (cases r) (simp_all add: address_proof_DocType_def normalize_address_idem)
qed (auto simp: address_proof_DocType_def dest: unmarshal_into_own)

interpretation identity_document: document_type "identity_document_DocType msg" "\<lambda>r. \<exists>x. r = IdentityResult x" for msg
proof
  show "same_data (dt_Normalize (identity_document_DocType msg) (dt_Normalize (identity_document_DocType msg) r))
      (dt_Normalize (identity_document_DocType msg) r)" for r
    by (cases r) (simp_all add: identity_document_DocType_def normalize_identity_idem)
qed (auto simp: identity_document_DocType_def dest: unmarshal_into_own)

interpretation invoice_nf: document_type "invoice_nf_DocType msg" "\<lambda>r. \<exists>x. r = InvoiceResult x" for msg
proof
  show "same_data (dt_Normalize (invoice_nf_DocType msg) (dt_Normalize (invoice_nf_DocType msg) r))
      (dt_Normalize (invoice_nf_DocType msg) r)" for r
    by (cases r) (simp_all add: invoice_nf_DocType_def normalize_invoice_idem)
qed (auto simp: invoice_nf_DocType_def dest: unmarshal_into_own)

lemma normalize_curriculum_stable:
  "(normalize_curriculum mail (normalize_curriculum mail r))\<lparr>cv_email := []\<rparr> = (normalize_curriculum mail r)\<lparr>cv_email := []\<rparr>"
  by (simp add: normalize_curriculum_def cleanSkills_idem cleanLanguages_idem cleanExperience_idem
      cleanEducation_idem cleanCertifications_idem)

interpretation curriculum_vitae: document_type "curriculum_vitae_DocType msg mail order" "\<lambda>r. \<exists>x. r = CurriculumResult x"
  for msg mail order
proof
  show "same_data (dt_Normalize (curriculum_vitae_DocType msg mail order) (dt_Normalize (curriculum_vitae_DocType msg mail order) r))
      (dt_Normalize (curriculum_vitae_DocType msg mail order) r)" for r
    by (cases r) (simp_all add: curriculum_vitae_DocType_def normalize_curriculum_stable)
qed (auto simp: curriculum_vitae_DocType_def dest: unmarshal_into_own)

section \<open>Laws\<close>

lemma registry:
  "map_of (sv_registry (NewService l (doc_types msg mail order))) d =
     (if d = ''address_proof'' then Some (address_proof_DocType msg)
      else if d = ''curriculum_vitae'' then Some (curriculum_vitae_DocType msg mail order)
      else if d = ''identity_document'' then Some (identity_document_DocType msg)
      else if d = ''invoice_nf'' then Some (invoice_nf_DocType msg)
      else None)"
  by (simp add: NewService_def doc_types_def address_proof_DocType_def curriculum_vitae_DocType_def
      identity_document_DocType_def invoice_nf_DocType_def)

definition normal_result :: "(string \<Rightarrow> string option) \<Rightarrow> string \<Rightarrow> doc_result \<Rightarrow> bool" where
  "normal_result mail d r =
     (case r of
        AddressResult x \<Rightarrow> d = ''address_proof'' \<and> normalize_address x = x
      | CurriculumResult x \<Rightarrow>
          d = ''curriculum_vitae'' \<and> (normalize_curriculum mail x)\<lparr>cv_email := []\<rparr> = x\<lparr>cv_email := []\<rparr>
      | IdentityResult x \<Rightarrow> d = ''identity_document'' \<and> normalize_identity x = x
      | InvoiceResult x \<Rightarrow> d = ''invoice_nf'' \<and> normalize_invoice x = x)"

section \<open>Properties\<close>

text \<open>
  C20: Whatever the language model replies, a successful extraction carries the document type that was asked for,
  a result with the structure of that type, and only normalised data: normalising it again changes
  nothing (for a curriculum, up to the e-mail, which the parser of the Go library decides).
\<close>

theorem Extract_typed:
  assumes "Extract (NewService l (doc_types msg mail order)) d doc w = (Inr res, w')"
  shows "rs_DocType res = d \<and> normal_result mail d (rs_Data res)"
proof -
  let ?s = "NewService l (doc_types msg mail order)"
  note reg = registry [of l msg mail order d]
  from assms obtain dt where dt: "map_of (sv_registry ?s) d = Some dt" by (auto simp: Extract_def split: option.splits)
  then consider "d = ''address_proof''" | "d = ''curriculum_vitae''" | "d = ''identity_document''" | "d = ''invoice_nf''"
    unfolding reg by (auto split: if_splits)
  then show ?thesis
  proof cases
    case 1
    with address_proof.extract_own [where msg = msg, OF _ assms] reg show ?thesis
      by (auto simp: normal_result_def address_proof_DocType_def)
  next
    case 2
    with curriculum_vitae.extract_own [where msg = msg and mail = mail and order = order, OF _ assms] reg show ?thesis
      by (auto simp: normal_result_def curriculum_vitae_DocType_def)
  next
    case 3
    with identity_document.extract_own [where msg = msg, OF _ assms] reg show ?thesis
      by (auto simp: normal_result_def identity_document_DocType_def)
  next
    case 4
    with invoice_nf.extract_own [where msg = msg, OF _ assms] reg show ?thesis
      by (auto simp: normal_result_def invoice_nf_DocType_def)
  qed
qed

definition sample_llm :: "string \<Rightarrow> unit llm" where
  "sample_llm reply = \<lparr>llm_Model = ''m'', llm_Chat = \<lambda>_ _ _ w. (Inr reply, w)\<rparr>"

definition sample_doc :: prepared where
  "sample_doc = \<lparr>pd_Kind = KindPDF, pd_MIME = ''application/pdf'', pd_Text = ''Ana'', pd_Images = [], pd_Mode = ''text'', pd_Filename = ''a.pdf''\<rparr>"

theorem Extract_typed_witness:
  "\<exists>res. fst (Extract (NewService (sample_llm (jtext ''{`nome`:` Ana `,`uf`:`sp`}'')) (doc_types (\<lambda>_. []) (\<lambda>_. None) (\<lambda>m. m)))
       ''address_proof'' sample_doc ()) = Inr res \<and> normal_result (\<lambda>_. None) ''address_proof'' (rs_Data res)"
proof -
  let ?s = "NewService (sample_llm (jtext ''{`nome`:` Ana `,`uf`:`sp`}'')) (doc_types (\<lambda>_. []) (\<lambda>_. None) (\<lambda>m. m))"
  obtain x where "unmarshal_into (\<lambda>_. []) address_fields empty_address AddressResult
      (outer_braces (stripFences (jtext ''{`nome`:` Ana `,`uf`:`sp`}''))) = Inr (AddressResult x)"
  proof -
    have "unmarshal_into (\<lambda>_. []) address_fields empty_address AddressResult
      (outer_braces (stripFences (jtext ''{`nome`:` Ana `,`uf`:`sp`}''))) =
      Inr (AddressResult (empty_address\<lparr>ap_nome := '' Ana '', ap_uf := ''sp''\<rparr>))" by code_simp
    then show thesis by (rule that)
  qed
  moreover have "map_of (sv_registry ?s) ''address_proof'' = Some (address_proof_DocType (\<lambda>_. []))"
    by (simp add: registry)
  moreover have "llm_Chat (sv_llm ?s) p c b w = (Inr (jtext ''{`nome`:` Ana `,`uf`:`sp`}''), w)" for p c b w
    by (simp add: NewService_def sample_llm_def)
  ultimately obtain res w' where r: "Extract ?s ''address_proof'' sample_doc () = (Inr res, w')"
    by (simp add: Extract_def decodeInto_def address_proof_DocType_def)
  from Extract_typed [OF r] r show ?thesis by auto
qed

text \<open>
  The order in which Go iterates over the map form of the skills can be seen in the result: two keys that are
  aliases of one category are merged in that order.
\<close>

lemma skills_order_visible:
  "\<exists>v a b. Skills_UnmarshalJSON (\<lambda>m. m) v [] = Some a \<and> Skills_UnmarshalJSON rev v [] = Some b
     \<and> cleanSkills a \<noteq> cleanSkills b"
proof -
  let ?v = "JObj [(''frontend'', [], JArr [JStr ''React'']), (''front-end'', [], JArr [JStr ''Vue''])]"
  have "Skills_UnmarshalJSON (\<lambda>m. m) ?v [] =
      Some [\<lparr>sg_category = ''frontend'', sg_items = [''React'']\<rparr>, \<lparr>sg_category = ''front-end'', sg_items = [''Vue'']\<rparr>]"
    and "Skills_UnmarshalJSON rev ?v [] =
      Some [\<lparr>sg_category = ''front-end'', sg_items = [''Vue'']\<rparr>, \<lparr>sg_category = ''frontend'', sg_items = [''React'']\<rparr>]"
    and "cleanSkills [\<lparr>sg_category = ''frontend'', sg_items = [''React'']\<rparr>, \<lparr>sg_category = ''front-end'', sg_items = [''Vue'']\<rparr>]
      \<noteq> cleanSkills [\<lparr>sg_category = ''front-end'', sg_items = [''Vue'']\<rparr>, \<lparr>sg_category = ''frontend'', sg_items = [''React'']\<rparr>]"
    by code_simp+
  then show ?thesis by blast
qed

end
