(* ===== verification/Schema_Hints.thy ===== *)
theory Schema_Hints
  imports Registry
begin

text \<open>The schema hints shown to the language model, against the fields that the decoders read.\<close>

text \<open>The field names that a schema hint shows, of the object at a path; an array shows its first element.\<close>

fun names_at :: "string list \<Rightarrow> json \<Rightarrow> string list option" where
  "names_at p (JArr (v # vs)) = names_at p v"
| "names_at [] (JObj ms) = Some (map fst ms)"
| "names_at (k # ks) (JObj ms) = (case find (\<lambda>m. fst m = k) ms of None \<Rightarrow> None | Some m \<Rightarrow> names_at ks (snd (snd m)))"
| "names_at _ _ = None"

definition hint_names :: "string list list \<Rightarrow> string \<Rightarrow> string list option list" where
  "hint_names ps hint = (case json_Parse hint of None \<Rightarrow> [] | Some v \<Rightarrow> map (\<lambda>p. names_at p v) ps)"

section \<open>Properties\<close>

text \<open>
  C39: The schema that the model is shown names exactly the fields that the decoder reads, in the same order, for
  the address proof, the identity document and the invoice with its parties and items.
\<close>

theorem schema_hints_match_fields:
  "hint_names [[]] address_proof_SchemaHint = [Some (map fst address_fields)]
   \<and> hint_names [[]] identity_document_SchemaHint = [Some (map fst identity_fields)]
   \<and> hint_names [[], [''emitente''], [''destinatario''], [''itens'']] invoice_nf_SchemaHint =
       [Some (map fst invoice_fields), Some (map fst party_fields), Some (map fst party_fields), Some (map fst item_fields)]"
proof (intro conjI)
  show "hint_names [[]] address_proof_SchemaHint = [Some (map fst address_fields)]" by code_simp
  show "hint_names [[]] identity_document_SchemaHint = [Some (map fst identity_fields)]" by code_simp
  show "hint_names [[], [''emitente''], [''destinatario''], [''itens'']] invoice_nf_SchemaHint =
      [Some (map fst invoice_fields), Some (map fst party_fields), Some (map fst party_fields), Some (map fst item_fields)]"
    by code_simp
qed

end
