(* ===== verification/Groq_Client.thy ===== *)
theory Groq_Client
  imports Extract_Service Go_JSON
begin

text \<open>
  Package \<^verbatim>\<open>internal/llm/groq\<close>: one request to the chat completion API and the loop that repeats it when
  the provider answers 429. The network is a function of the request and of the outside world.
\<close>

section \<open>Requests and replies\<close>

record client =
  cl_apiKey :: string
  cl_model :: string
  cl_baseURL :: string

record message =
  ms_Role :: string
  ms_Content :: user_content

record chat_request =
  cr_URL :: string
  cr_Authorization :: string
  cr_ContentType :: string
  cr_Model :: string
  cr_Messages :: "message list"
  cr_MaxCompletionTokens :: int
  cr_ReasoningEffort :: string
  cr_ReasoningFormat :: string
  cr_ResponseFormat :: "string option"

text \<open>
  What happens to a request: it cannot be built, it gets no reply, the body of the reply cannot be
  read, or a status and a body arrive. The first three carry the message of the library.
\<close>

datatype http_outcome =
    CreateFailed string
  | DoFailed string
  | ReadFailed string
  | Reply int bytes

text \<open>\<^verbatim>\<open>wait\<close> gives the error of the context when it is cancelled during the sleep of so many seconds.\<close>

record 'w net =
  net_post :: "chat_request \<Rightarrow> 'w \<Rightarrow> http_outcome \<times> 'w"
  net_wait :: "nat \<Rightarrow> 'w \<Rightarrow> string option \<times> 'w"

record choice =
  ch_role :: string
  ch_content :: string

record chat_response =
  rp_choices :: "choice list"
  rp_error :: "string option"

definition choice_decoder :: "json \<Rightarrow> choice \<Rightarrow> choice option" where
  "choice_decoder =
     into_struct [(''message'', field id id (into_struct [
       (''role'', field ch_role ch_role_update into_str),
       (''content'', raw_field ch_content_update)]))]"

definition response_decoder :: "json \<Rightarrow> chat_response \<Rightarrow> chat_response option" where
  "response_decoder =
     into_struct [
       (''choices'', field rp_choices rp_choices_update
          (into_slice \<lparr>ch_role = [], ch_content = []\<rparr> choice_decoder)),
       (''error'', field rp_error rp_error_update
          (into_ptr [] (into_struct [(''message'', field id id into_str)])))]"

section \<open>Operations\<close>

definition truncate200 :: "string \<Rightarrow> string" where
  "truncate200 s = (if length s \<le> 200 then s else take 200 s @ ''...'')"

record text_part =
  tp_Type :: string
  tp_Text :: string

definition decodeMessageContent :: "string \<Rightarrow> string + string" where
  "decodeMessageContent raw =
     (if length raw = 0 \<or> raw = ''null'' then Inl ''groq returned empty content''
      else case json_Unmarshal into_str raw [] of
        Some s \<Rightarrow> Inr s
      | None \<Rightarrow>
          (case json_Unmarshal (into_slice \<lparr>tp_Type = [], tp_Text = []\<rparr> (into_struct [
              (''type'', field tp_Type tp_Type_update into_str),
              (''text'', field tp_Text tp_Text_update into_str)])) raw [] of
             Some parts \<Rightarrow> Inr (concat (map tp_Text (filter (\<lambda>p. tp_Type p = ''text'') parts)))
           | None \<Rightarrow> Inl (''unsupported groq content shape: '' @ truncate200 raw)))"

definition chat_request_of :: "client \<Rightarrow> message list \<Rightarrow> bool \<Rightarrow> chat_request" where
  "chat_request_of c messages jsonMode =
     \<lparr>cr_URL = cl_baseURL c @ ''/chat/completions'',
      cr_Authorization = ''Bearer '' @ cl_apiKey c,
      cr_ContentType = ''application/json'',
      cr_Model = cl_model c,
      cr_Messages = messages,
      cr_MaxCompletionTokens = 2048,
      cr_ReasoningEffort = ''none'',
      cr_ReasoningFormat = ''hidden'',
      cr_ResponseFormat = (if jsonMode then Some ''json_object'' else None)\<rparr>"

text \<open>The error text of the JSON decoder is a function \<open>jerr\<close> of its input.\<close>

definition chat_reply :: "(string \<Rightarrow> string) \<Rightarrow> http_outcome \<Rightarrow> chat_error + string" where
  "chat_reply jerr out =
     (case out of
        CreateFailed m \<Rightarrow> Inl (OtherErr (''create groq request: '' @ m))
      | DoFailed m \<Rightarrow> Inl (OtherErr (''groq request failed: '' @ m))
      | ReadFailed m \<Rightarrow> Inl (OtherErr (''read groq response: '' @ m))
      | Reply status raw \<Rightarrow>
          if status < 200 \<or> 300 \<le> status then Inl (HTTPError status (truncate200 raw))
          else case json_Unmarshal response_decoder raw \<lparr>rp_choices = [], rp_error = None\<rparr> of
            None \<Rightarrow> Inl (OtherErr (''decode groq response: '' @ jerr raw))
          | Some parsed \<Rightarrow>
              (case rp_error parsed of
                 Some m \<Rightarrow> Inl (OtherErr (''groq error: '' @ m))
               | None \<Rightarrow>
                   (case rp_choices parsed of
                      [] \<Rightarrow> Inl (OtherErr ''groq returned no choices'')
                    | ch # _ \<Rightarrow>
                        (case decodeMessageContent (ch_content ch) of
                           Inl m \<Rightarrow> Inl (OtherErr (''decode groq content: '' @ m))
                         | Inr content \<Rightarrow> Inr content))))"

definition chatOnce ::
    "(string \<Rightarrow> string) \<Rightarrow> 'w net \<Rightarrow> client \<Rightarrow> message list \<Rightarrow> bool \<Rightarrow> 'w \<Rightarrow> (chat_error + string) \<times> 'w" where
  "chatOnce jerr net c messages jsonMode w =
     (case net_post net (chat_request_of c messages jsonMode) w of
        (out, w') \<Rightarrow> (chat_reply jerr out, w'))"

definition rate_limited :: "chat_error \<Rightarrow> bool" where
  "rate_limited e = (case e of HTTPError status _ \<Rightarrow> status = 429 | OtherErr _ \<Rightarrow> False)"

text \<open>
  The loop over the attempts; the first argument is the number of attempts left, so that the attempt is
  \<open>4 - k\<close> and the wait before the next one three seconds for every attempt made. The loop is left at the
  latest when the third attempt fails; the statement after it is not reached.
\<close>

fun chat_loop ::
    "nat \<Rightarrow> (string \<Rightarrow> string) \<Rightarrow> 'w net \<Rightarrow> client \<Rightarrow> message list \<Rightarrow> bool \<Rightarrow> 'w \<Rightarrow> (chat_error + string) \<times> 'w" where
  "chat_loop 0 jerr net c msgs jsonMode w = (Inl (OtherErr []), w)"
| "chat_loop (Suc k) jerr net c msgs jsonMode w =
     (case chatOnce jerr net c msgs jsonMode w of
        (Inr content, w') \<Rightarrow> (Inr content, w')
      | (Inl err, w') \<Rightarrow>
          if \<not> rate_limited err \<or> k = 0 then (Inl err, w')
          else case net_wait net ((3 - k) * 3) w' of
            (Some m, w'') \<Rightarrow> (Inl (OtherErr m), w'')
          | (None, w'') \<Rightarrow> chat_loop k jerr net c msgs jsonMode w'')"

definition Chat ::
    "(string \<Rightarrow> string) \<Rightarrow> 'w net \<Rightarrow> client \<Rightarrow> string \<Rightarrow> user_content \<Rightarrow> bool \<Rightarrow> 'w \<Rightarrow> (chat_error + string) \<times> 'w" where
  "Chat jerr net c system user jsonMode w =
     chat_loop 3 jerr net c
       [\<lparr>ms_Role = ''system'', ms_Content = PromptOnly system\<rparr>, \<lparr>ms_Role = ''user'', ms_Content = user\<rparr>]
       jsonMode w"

definition groq_llm :: "(string \<Rightarrow> string) \<Rightarrow> 'w net \<Rightarrow> client \<Rightarrow> 'w llm" where
  "groq_llm jerr net c = \<lparr>llm_Model = cl_model c, llm_Chat = Chat jerr net c\<rparr>"

section \<open>Traces\<close>

text \<open>The network with a record of what was sent and waited for.\<close>

datatype event = Posted chat_request http_outcome | Waited nat "string option"

definition traced :: "'w net \<Rightarrow> ('w \<times> event list) net" where
  "traced net =
     \<lparr>net_post = (\<lambda>r (w, t). case net_post net r w of (out, w') \<Rightarrow> (out, w', t @ [Posted r out])),
      net_wait = (\<lambda>n (w, t). case net_wait net n w of (e, w') \<Rightarrow> (e, w', t @ [Waited n e]))\<rparr>"

fun posts :: "event list \<Rightarrow> (chat_request \<times> http_outcome) list" where
  "posts [] = []"
| "posts (Posted r out # t) = (r, out) # posts t"
| "posts (Waited _ _ # t) = posts t"

fun waits :: "event list \<Rightarrow> (nat \<times> string option) list" where
  "waits [] = []"
| "waits (Posted _ _ # t) = waits t"
| "waits (Waited n e # t) = (n, e) # waits t"

definition is429 :: "http_outcome \<Rightarrow> bool" where
  "is429 out \<longleftrightarrow> (case out of Reply status _ \<Rightarrow> status = 429 | _ \<Rightarrow> False)"

lemma rate_limited_reply: "chat_reply jerr out = Inl e \<Longrightarrow> rate_limited e \<longleftrightarrow> is429 out"
  by (auto simp: chat_reply_def rate_limited_def is429_def
      split: http_outcome.splits if_splits option.splits list.splits sum.splits)

lemma is429_error: "is429 out \<Longrightarrow> \<exists>e. chat_reply jerr out = Inl e \<and> rate_limited e"
  by (auto simp: chat_reply_def rate_limited_def is429_def split: http_outcome.splits)

text \<open>One round of the loop, by the outcome of its request.\<close>

lemma chat_loop_round:
  "chat_loop (Suc k) jerr (traced net) c msgs j (w, t) =
     (case net_post net (chat_request_of c msgs j) w of
        (out, w') \<Rightarrow>
          let t' = t @ [Posted (chat_request_of c msgs j) out] in
          if \<not> is429 out \<or> k = 0 then (chat_reply jerr out, w', t')
          else case net_wait net ((3 - k) * 3) w' of
            (Some m, w'') \<Rightarrow> (Inl (OtherErr m), w'', t' @ [Waited ((3 - k) * 3) (Some m)])
          | (None, w'') \<Rightarrow> chat_loop k jerr (traced net) c msgs j (w'', t' @ [Waited ((3 - k) * 3) None]))"
proof -
  obtain out w' where o: "net_post net (chat_request_of c msgs j) w = (out, w')" by fastforce
  show ?thesis
    using rate_limited_reply [of jerr out] is429_error [of out jerr]
    by (cases "chat_reply jerr out") (auto simp: chatOnce_def traced_def o Let_def split: prod.split option.split)
qed

text \<open>
  The runs of the loop with so many attempts left: what they leave in the trace and what they return.
\<close>

inductive chat_run :: "(string \<Rightarrow> string) \<Rightarrow> chat_request \<Rightarrow> nat \<Rightarrow> event list \<Rightarrow> chat_error + string \<Rightarrow> bool"
  for jerr r where
  finished: "\<not> is429 out \<or> k = 0 \<Longrightarrow> chat_run jerr r (Suc k) [Posted r out] (chat_reply jerr out)"
| cancelled: "is429 out \<Longrightarrow>
    chat_run jerr r (Suc (Suc k)) [Posted r out, Waited ((2 - k) * 3) (Some m)] (Inl (OtherErr m))"
| again: "is429 out \<Longrightarrow> chat_run jerr r (Suc k) t res \<Longrightarrow>
    chat_run jerr r (Suc (Suc k)) (Posted r out # Waited ((2 - k) * 3) None # t) res"

lemma chat_loop_run:
  "\<exists>t res w'. chat_loop (Suc k) jerr (traced net) c msgs j (w, t0) = (res, w', t0 @ t)
     \<and> chat_run jerr (chat_request_of c msgs j) (Suc k) t res"
proof (induction k arbitrary: w t0)
  case 0
  show ?case
    unfolding chat_loop_round by (auto simp: Let_def intro: chat_run.finished split: prod.split)
next
  case (Suc k)
  let ?r = "chat_request_of c msgs j"
  obtain out w1 where p: "net_post net ?r w = (out, w1)" by fastforce
  obtain e w2 where q: "net_wait net ((2 - k) * 3) w1 = (e, w2)" by fastforce
  show ?case
  proof (cases "is429 out")
    case False
    then show ?thesis
      unfolding chat_loop_round by (auto simp: p Let_def intro: chat_run.finished)
  next
    case True
    show ?thesis
    proof (cases e)
      case None
      obtain t res w' where "chat_loop (Suc k) jerr (traced net) c msgs j
          (w2, t0 @ [Posted ?r out] @ [Waited ((2 - k) * 3) None]) =
          (res, w', (t0 @ [Posted ?r out] @ [Waited ((2 - k) * 3) None]) @ t)" and "chat_run jerr ?r (Suc k) t res"
        using Suc.IH by blast
      with None True p q show ?thesis
        unfolding chat_loop_round [of "Suc k"]
        by (auto simp: Let_def simp del: chat_loop.simps intro!: chat_run.again)
    next
      case (Some m)
      with True p q show ?thesis
        unfolding chat_loop_round [of "Suc k"]
        by (auto simp: Let_def simp del: chat_loop.simps intro!: chat_run.cancelled)
    qed
  qed
qed

lemma run_posts:
  "chat_run jerr r k t res \<Longrightarrow>
     map fst (posts t) = replicate (length (posts t)) r \<and> 1 \<le> length (posts t) \<and> length (posts t) \<le> k
     \<and> list_all is429 (butlast (map snd (posts t)))"
  by (induction rule: chat_run.induct) (auto simp: butlast_append Suc_le_eq)

lemma run_waits:
  "chat_run jerr r k t res \<Longrightarrow> k \<le> 3 \<Longrightarrow>
     map fst (waits t) = take (length (waits t)) (map (\<lambda>i. 3 * i) [4 - k..<3])"
proof (induction rule: chat_run.induct)
  case (cancelled out k m)
  then have "k = 0 \<or> k = 1" by auto
  then show ?case by (auto simp: upt_rec)
next
  case (again out k t res)
  then have "k = 0 \<or> k = 1" by auto
  with again show ?case by (auto simp: upt_rec)
qed simp

definition run_result :: "(string \<Rightarrow> string) \<Rightarrow> event list \<Rightarrow> chat_error + string \<Rightarrow> bool" where
  "run_result jerr t res \<longleftrightarrow>
     (if waits t \<noteq> [] \<and> snd (last (waits t)) \<noteq> None
      then res = Inl (OtherErr (the (snd (last (waits t)))))
      else res = chat_reply jerr (snd (last (posts t))))"

lemma run_result: "chat_run jerr r k t res \<Longrightarrow> run_result jerr t res"
proof (induction rule: chat_run.induct)
  case (again out k t res)
  from run_posts [OF again.hyps(2)] have "posts t \<noteq> []" by auto
  with again show ?case by (auto simp: run_result_def split: if_splits)
qed (auto simp: run_result_def)

lemma run_429:
  "chat_run jerr r k t res \<Longrightarrow> (case res of Inl e \<Rightarrow> rate_limited e \<longrightarrow> length (posts t) = k | Inr _ \<Rightarrow> True)"
proof (induction rule: chat_run.induct)
  case (finished out k)
  then show ?case using rate_limited_reply [of jerr out] by (auto split: sum.split)
qed (auto simp: rate_limited_def split: sum.splits)

section \<open>Properties\<close>

text \<open>
  C12: The client sends the same request one to three times. Every request but the last was answered with
  429, the waits between them are three and then six seconds, and the result is the reading of the
  last reply; only a cancellation during a wait ends the loop without one. A 429 is reported only after
  three requests.
\<close>

theorem Chat_retries:
  "\<exists>t res w'. Chat jerr (traced net) c system user j (w, []) = (res, w', t)
     \<and> 1 \<le> length (posts t) \<and> length (posts t) \<le> 3
     \<and> (\<exists>r. map fst (posts t) = replicate (length (posts t)) r)
     \<and> list_all is429 (butlast (map snd (posts t)))
     \<and> map fst (waits t) = take (length (waits t)) [3, 6]
     \<and> run_result jerr t res
     \<and> (case res of Inl e \<Rightarrow> if rate_limited e then length (posts t) = 3 else True | Inr _ \<Rightarrow> True)"
proof -
  let ?m = "[\<lparr>ms_Role = ''system'', ms_Content = PromptOnly system\<rparr>, \<lparr>ms_Role = ''user'', ms_Content = user\<rparr>]"
  obtain t res w' where e: "chat_loop 3 jerr (traced net) c ?m j (w, []) = (res, w', t)"
    and r: "chat_run jerr (chat_request_of c ?m j) 3 t res"
    using chat_loop_run [of 2 jerr net c ?m j w "[]"] by (auto simp: numeral_3_eq_3 numeral_2_eq_2)
  have "map (\<lambda>i. 3 * i) [4 - 3..<3] = [3, 6::nat]" by (simp add: upt_rec)
  then show ?thesis
    using run_posts [OF r] run_waits [OF r] run_result [OF r] run_429 [OF r]
    by (intro exI [of _ t] exI [of _ res] exI [of _ w']) (auto simp: Chat_def e split: sum.splits)
qed

end
