(* ===== verification/Go_Net.thy ===== *)
theory Go_Net
  imports Go_Time
begin

text \<open>
  The parts of Go's \<^verbatim>\<open>net\<close> and \<^verbatim>\<open>net/netip\<close> packages that the program uses: splitting host and port,
  reading an IP address, writing it in its canonical form and testing it against a network. An address
  is its 16 bytes, as \<^verbatim>\<open>net.ParseIP\<close> returns it.
\<close>

section \<open>Host and port\<close>

definition SplitHostPort :: "string \<Rightarrow> (string \<times> string) option" where
  "SplitHostPort hp =
     (case LastIndex hp '':'' of
        None \<Rightarrow> None
      | Some i \<Rightarrow>
          (let parts =
             (if HasPrefix hp [CHR 0x5B] then
                (case Index hp [CHR 0x5D] of
                   None \<Rightarrow> None
                 | Some e \<Rightarrow> if e + 1 = i then Some (drop 1 (take e hp), 1, e + 1) else None)
              else if Contains (take i hp) '':'' then None
              else Some (take i hp, 0, 0)) in
           case parts of
             None \<Rightarrow> None
           | Some (host, j, k) \<Rightarrow>
               if Contains (drop j hp) [CHR 0x5B] \<or> Contains (drop k hp) [CHR 0x5D] then None
               else Some (host, drop (i + 1) hp)))"

section \<open>Reading addresses\<close>

type_synonym ip = "nat list"

definition octet :: "string \<Rightarrow> nat option" where
  "octet s =
     (if s \<noteq> [] \<and> list_all is_digit s \<and> (length s = 1 \<or> hd s \<noteq> CHR ''0'') \<and> dec_val s \<le> 255
      then Some (dec_val s) else None)"

definition parseIPv4 :: "string \<Rightarrow> nat list option" where
  "parseIPv4 s =
     (let parts = SplitByte s (CHR ''.'') in
      if length parts = 4 then those (map octet parts) else None)"

definition hex_digit :: "char \<Rightarrow> nat option" where
  "hex_digit c =
     (if in_range 48 57 c then Some (byte c - 48)
      else if in_range 97 102 c then Some (byte c - 87)
      else if in_range 65 70 c then Some (byte c - 55)
      else None)"

definition is_hex :: "char \<Rightarrow> bool" where
  "is_hex c \<longleftrightarrow> hex_digit c \<noteq> None"

definition hex_value :: "string \<Rightarrow> nat" where
  "hex_value s = foldl (\<lambda>a c. 16 * a + the (hex_digit c)) 0 s"

text \<open>
  The loop of \<^verbatim>\<open>parseIPv6\<close>. The bytes read so far grow to 16 at most; the second argument is the position
  of the ellipsis. The result is the bytes and the ellipsis when the whole string was used.
\<close>

function v6_groups :: "nat list \<Rightarrow> nat option \<Rightarrow> string \<Rightarrow> (nat list \<times> nat option) option" where
  "v6_groups ip ell s =
     (if 16 \<le> length ip then (if s = [] then Some (ip, ell) else None)
      else
        let g = takeWhile is_hex s; r = dropWhile is_hex s in
        if g = [] \<or> 4 < length g then None
        else if HasPrefix r ''.'' then
          (if ell = None \<and> length ip \<noteq> 12 then None
           else if 16 < length ip + 4 then None
           else map_option (\<lambda>f. (ip @ f, ell)) (parseIPv4 s))
        else
          let ip' = ip @ [hex_value g div 256, hex_value g mod 256] in
          if r = [] then Some (ip', ell)
          else if \<not> HasPrefix r '':'' \<or> length r = 1 then None
          else
            let s' = tl r in
            if HasPrefix s' '':'' then
              (if ell \<noteq> None then None
               else if length s' = 1 then Some (ip', Some (length ip'))
               else v6_groups ip' (Some (length ip')) (tl s'))
            else v6_groups ip' ell s')"
  by pat_completeness auto
termination
  by (relation "measure (\<lambda>(ip, _, _). 16 - length ip)") auto

declare v6_groups.simps [simp del]

definition v6_expand :: "nat list \<times> nat option \<Rightarrow> nat list option" where
  "v6_expand p =
     (case p of
        (ip, ell) \<Rightarrow>
          if length ip < 16 then
            (case ell of
               None \<Rightarrow> None
             | Some e \<Rightarrow> Some (take e ip @ replicate (16 - length ip) 0 @ drop e ip))
          else if ell \<noteq> None then None
          else Some ip)"

text \<open>An address with a zone is refused by \<^verbatim>\<open>net.ParseIP\<close>, and an empty zone by the parser.\<close>

definition parseIPv6 :: "string \<Rightarrow> nat list option" where
  "parseIPv6 s =
     (if Contains s ''%'' then None
      else if HasPrefix s ''::'' then
        (if length s = 2 then Some (replicate 16 0)
         else Option.bind (v6_groups [] (Some 0) (drop 2 s)) v6_expand)
      else Option.bind (v6_groups [] None s) v6_expand)"

fun ParseIP_from :: "string \<Rightarrow> string \<Rightarrow> ip option" where
  "ParseIP_from s [] = None"
| "ParseIP_from s (c # cs) =
     (if c = CHR ''.'' then map_option (\<lambda>f. replicate 10 0 @ [255, 255] @ f) (parseIPv4 s)
      else if c = CHR '':'' then parseIPv6 s
      else if c = CHR ''%'' then None
      else ParseIP_from s cs)"

definition ParseIP :: "string \<Rightarrow> ip option" where
  "ParseIP s = ParseIP_from s s"

section \<open>Writing addresses\<close>

definition To4 :: "ip \<Rightarrow> nat list option" where
  "To4 ip =
     (if length ip = 4 then Some ip
      else if take 12 ip = replicate 10 0 @ [255, 255] then Some (drop 12 ip)
      else None)"

definition hex_char :: "nat \<Rightarrow> char" where
  "hex_char n = ''0123456789abcdef'' ! n"

fun hex :: "nat \<Rightarrow> string" where
  "hex n = (if n < 16 then [hex_char n] else hex (n div 16) @ [hex_char (n mod 16)])"

declare hex.simps [simp del]

fun groups :: "nat list \<Rightarrow> nat list" where
  "groups (a # b # r) = (a * 256 + b) # groups r"
| "groups _ = []"

text \<open>The longest run of at least two zero groups, the first one of that length.\<close>

definition zero_run :: "nat list \<Rightarrow> nat \<Rightarrow> nat" where
  "zero_run gs i = length (takeWhile (\<lambda>g. g = 0) (drop i gs))"

definition better_run :: "nat list \<Rightarrow> nat \<Rightarrow> nat \<times> nat \<Rightarrow> nat \<times> nat" where
  "better_run gs i best = (if 2 \<le> zero_run gs i \<and> snd best < zero_run gs i then (i, zero_run gs i) else best)"

definition longest_run :: "nat list \<Rightarrow> nat \<times> nat" where
  "longest_run gs = fold (better_run gs) [0..<8] (255, 0)"

definition v6_String :: "ip \<Rightarrow> string" where
  "v6_String ip =
     (let gs = groups ip; (z, n) = longest_run gs in
      if n = 0 then Join (map hex gs) '':''
      else Join (map hex (take z gs)) '':'' @ ''::'' @ Join (map hex (drop (z + n) gs)) '':'')"

definition IP_String :: "ip \<Rightarrow> string" where
  "IP_String ip =
     (case To4 ip of
        Some v4 \<Rightarrow> Join (map dec v4) ''.''
      | None \<Rightarrow> v6_String ip)"

section \<open>Networks\<close>

text \<open>A network is its number and its mask, of 4 or of 16 bytes.\<close>

record ipnet =
  net_ip :: "nat list"
  net_mask :: "nat list"

definition band :: "nat \<Rightarrow> nat \<Rightarrow> nat" where
  "band a b = Bit_Operations.and a b"

definition networkNumberAndMask :: "ipnet \<Rightarrow> (nat list \<times> nat list) option" where
  "networkNumberAndMask n =
     (let ip = (case To4 (net_ip n) of Some v4 \<Rightarrow> v4 | None \<Rightarrow> net_ip n); m = net_mask n in
      if length ip \<noteq> 4 \<and> length ip \<noteq> 16 then None
      else if length m = 4 then (if length ip = 4 then Some (ip, m) else None)
      else if length m = 16 then Some (ip, if length ip = 4 then drop 12 m else m)
      else None)"

definition IPNet_Contains :: "ipnet \<Rightarrow> ip \<Rightarrow> bool" where
  "IPNet_Contains n ip0 =
     (let ip = (case To4 ip0 of Some v4 \<Rightarrow> v4 | None \<Rightarrow> ip0) in
      case networkNumberAndMask n of
        None \<Rightarrow> ip = []
      | Some (nn, m) \<Rightarrow>
          length ip = length nn \<and> list_all (\<lambda>(a, b, c). band a b = band c b) (zip nn (zip m ip)))"

text \<open>An address with its family: \<^verbatim>\<open>netip.ParseAddr\<close> keeps apart an IPv4 address and its form inside IPv6.\<close>

definition ParseAddr :: "string \<Rightarrow> (bool \<times> ip) option" where
  "ParseAddr s =
     (case dropWhile (\<lambda>c. c \<noteq> CHR ''.'' \<and> c \<noteq> CHR '':'' \<and> c \<noteq> CHR ''%'') s of
        [] \<Rightarrow> None
      | c # _ \<Rightarrow> map_option (Pair (c = CHR ''.'')) (ParseIP s))"

text \<open>\<^verbatim>\<open>CIDRMask\<close>: a mask of \<open>k\<close> bytes whose first \<open>n\<close> bits are set.\<close>

fun CIDRMask :: "nat \<Rightarrow> nat \<Rightarrow> nat list" where
  "CIDRMask 0 n = []"
| "CIDRMask (Suc k) n = (if 8 \<le> n then 255 # CIDRMask k (n - 8) else (256 - 2 ^ (8 - n)) # CIDRMask k 0)"

text \<open>\<^verbatim>\<open>dtoi\<close> reads decimal digits and refuses a number of \<^verbatim>\<open>0xFFFFFF\<close> or more.\<close>

definition prefix_length :: "string \<Rightarrow> nat option" where
  "prefix_length s = (if s \<noteq> [] \<and> list_all is_digit s \<and> dec_val s < 0xFFFFFF then Some (dec_val s) else None)"

definition cidr_network :: "bool \<Rightarrow> ip \<Rightarrow> nat \<Rightarrow> ipnet" where
  "cidr_network v4 ip n =
     (let m = CIDRMask (if v4 then 4 else 16) n in
      \<lparr>net_ip = map2 band (if v4 then drop 12 ip else ip) m, net_mask = m\<rparr>)"

definition ParseCIDR :: "string \<Rightarrow> (ip \<times> ipnet) option" where
  "ParseCIDR s =
     (case Index s ''/'' of
        None \<Rightarrow> None
      | Some i \<Rightarrow>
          (case (ParseAddr (take i s), prefix_length (drop (i + 1) s)) of
             (Some (v4, ip), Some n) \<Rightarrow>
               (if 8 * (if v4 then 4 else 16) < n then None else Some (ip, cidr_network v4 ip n))
           | _ \<Rightarrow> None))"

end
