(* ===== verification/Auth.thy ===== *)
theory Auth
  imports Go_JSON
begin

text \<open>
  Package \<^verbatim>\<open>internal/auth\<close>: principals and their scopes, and the authentication of a bearer token, by
  introspection for a personal access token and by signature for a JWT. The introspection endpoint and
  the JWT library are parameters. The construction of the authenticator is in theory \<^verbatim>\<open>OIDC\<close>.
\<close>

section \<open>Principals\<close>

datatype auth_kind = KindJWT | KindPAT

fun kind_string :: "auth_kind \<Rightarrow> string" where
  "kind_string KindJWT = ''jwt''"
| "kind_string KindPAT = ''pat''"

definition ScopeExtractWrite :: string where "ScopeExtractWrite = ''extract:write''"
definition ScopeAdmin :: string where "ScopeAdmin = ''admin''"

record principal =
  pr_Subject :: string
  pr_Client :: string
  pr_Email :: string
  pr_Kind :: auth_kind
  pr_Scopes :: "string list"

definition HasScope :: "principal \<Rightarrow> string \<Rightarrow> bool" where
  "HasScope p scope = list_ex (\<lambda>s. s = ScopeAdmin \<or> s = scope) (pr_Scopes p)"

definition scopesFromClaims :: "string list \<Rightarrow> string \<Rightarrow> string list" where
  "scopesFromClaims permissions scope =
     (if 0 < length permissions then permissions
      else if scope \<noteq> [] then Fields scope
      else [])"

section \<open>Authentication\<close>

record 'k authenticator =
  au_jwtEnabled :: bool
  au_audience :: string
  au_issuer :: string
  au_jwks :: 'k
  au_introspectURL :: string
  au_introspectSecret :: string

record introspect_response =
  ir_Active :: bool
  ir_Sub :: string
  ir_Email :: string
  ir_Permissions :: "string list"

definition introspect_decoder :: "json \<Rightarrow> introspect_response \<Rightarrow> introspect_response option" where
  "introspect_decoder = into_struct [
     (''active'', field ir_Active ir_Active_update into_bool),
     (''sub'', field ir_Sub ir_Sub_update into_str),
     (''email'', field ir_Email ir_Email_update into_str),
     (''permissions'', field ir_Permissions ir_Permissions_update (into_slice [] into_str))]"

record oidc_claims =
  oc_Permissions :: "string list"
  oc_Scope :: string
  oc_Email :: string
  oc_Azp :: string
  oc_Subject :: string

text \<open>
  The outside world of the authenticator: \<open>aw_introspect\<close> posts the token with the key in
  \<^verbatim>\<open>X-Kalke-Introspect-Key\<close> and gives the status and the body of the reply, or \<open>None\<close> when the request
  cannot be made or sent; \<open>aw_parse_jwt\<close> is \<^verbatim>\<open>jwt.ParseWithClaims\<close> for RS256 with the key set, the
  audience and the issuer, with the claims and the validity of the token.
\<close>

record ('k, 'w) auth_world =
  aw_introspect :: "string \<Rightarrow> string \<Rightarrow> string \<Rightarrow> 'w \<Rightarrow> (int \<times> bytes) option \<times> 'w"
  aw_parse_jwt :: "'k \<Rightarrow> string \<Rightarrow> string \<Rightarrow> string \<Rightarrow> 'w \<Rightarrow> (oidc_claims \<times> bool) option"

definition authenticatePAT ::
    "('k, 'w) auth_world \<Rightarrow> 'k authenticator \<Rightarrow> string \<Rightarrow> 'w \<Rightarrow> principal option \<times> 'w" where
  "authenticatePAT env a token w =
     (if au_introspectURL a = [] \<or> au_introspectSecret a = [] then (None, w)
      else case aw_introspect env (au_introspectURL a) (au_introspectSecret a) token w of
        (None, w') \<Rightarrow> (None, w')
      | (Some (status, body), w') \<Rightarrow>
          if status \<noteq> 200 then (None, w')
          else
            (case Option.bind (json_Decode body)
                (\<lambda>v. introspect_decoder v \<lparr>ir_Active = False, ir_Sub = [], ir_Email = [], ir_Permissions = []\<rparr>) of
               None \<Rightarrow> (None, w')
             | Some ir \<Rightarrow>
                 if \<not> ir_Active ir \<or> ir_Sub ir = [] then (None, w')
                 else (Some \<lparr>pr_Subject = ir_Sub ir, pr_Client = ''kalke-pat'', pr_Email = ir_Email ir,
                             pr_Kind = KindPAT, pr_Scopes = scopesFromClaims (ir_Permissions ir) []\<rparr>, w')))"

definition authenticateJWT ::
    "('k, 'w) auth_world \<Rightarrow> 'k authenticator \<Rightarrow> string \<Rightarrow> 'w \<Rightarrow> principal option" where
  "authenticateJWT env a tokenStr w =
     (case aw_parse_jwt env (au_jwks a) (au_audience a) (au_issuer a) tokenStr w of
        None \<Rightarrow> None
      | Some (claims, valid) \<Rightarrow>
          if \<not> valid then None
          else if oc_Subject claims = [] then None
          else Some \<lparr>pr_Subject = oc_Subject claims, pr_Client = TrimSpace (oc_Azp claims),
                     pr_Email = TrimSpace (oc_Email claims), pr_Kind = KindJWT,
                     pr_Scopes = scopesFromClaims (oc_Permissions claims) (oc_Scope claims)\<rparr>)"

definition Authenticate ::
    "('k, 'w) auth_world \<Rightarrow> 'k authenticator \<Rightarrow> string \<Rightarrow> 'w \<Rightarrow> principal option \<times> 'w" where
  "Authenticate env a bearerToken w =
     (let token = TrimSpace bearerToken in
      if token = [] \<or> \<not> au_jwtEnabled a then (None, w)
      else if HasPrefix token ''kalke_'' then authenticatePAT env a token w
      else (authenticateJWT env a token w, w))"

section \<open>Laws\<close>

lemma HasScope_empty: "pr_Scopes p = [] \<Longrightarrow> \<not> HasScope p scope"
  by (simp add: HasScope_def)

lemma HasScope_iff: "HasScope p scope \<longleftrightarrow> ScopeAdmin \<in> set (pr_Scopes p) \<or> scope \<in> set (pr_Scopes p)"
  by (auto simp: HasScope_def list_ex_iff)

lemma authenticatePAT_ok:
  assumes "authenticatePAT env a token w = (Some p, w')"
  shows "pr_Kind p = KindPAT" "pr_Subject p \<noteq> []" "pr_Client p = ''kalke-pat''"
    "au_introspectURL a \<noteq> []" "au_introspectSecret a \<noteq> []"
    "\<exists>body. fst (aw_introspect env (au_introspectURL a) (au_introspectSecret a) token w) = Some (200, body)"
  using assms
  by (auto simp: authenticatePAT_def split: if_splits prod.splits option.splits)

lemma authenticateJWT_ok:
  assumes "authenticateJWT env a token w = Some p"
  shows "pr_Kind p = KindJWT" "pr_Subject p \<noteq> []"
    "\<exists>claims. aw_parse_jwt env (au_jwks a) (au_audience a) (au_issuer a) token w = Some (claims, True)
       \<and> pr_Subject p = oc_Subject claims
       \<and> pr_Scopes p = scopesFromClaims (oc_Permissions claims) (oc_Scope claims)"
  using assms by (auto simp: authenticateJWT_def split: if_splits option.splits)

lemma Authenticate_cases:
  assumes "Authenticate env a tok w = (Some p, w')"
  shows "TrimSpace tok \<noteq> [] \<and> au_jwtEnabled a
    \<and> (if HasPrefix (TrimSpace tok) ''kalke_'' then authenticatePAT env a (TrimSpace tok) w = (Some p, w')
       else authenticateJWT env a (TrimSpace tok) w = Some p \<and> w' = w)"
  using assms by (auto simp: Authenticate_def Let_def split: if_splits)

section \<open>Properties\<close>



end
