(* ===== verification/Rate_Limit.thy ===== *)
theory Rate_Limit
  imports Extract_Service
begin

text \<open>
  Package \<^verbatim>\<open>internal/ratelimit\<close>: one counter in Redis for every principal and minute. Redis is a
  parameter; what the limiter needs of it is the predicate \<open>counting\<close>. Times are nanoseconds since the
  Unix epoch; Go truncates to the minute from the year 1, a whole number of minutes before the epoch.
\<close>

record limit_result =
  lr_Allowed :: bool
  lr_Limit :: int
  lr_Remaining :: int
  lr_RetryAfter :: int

text \<open>\<open>rc_incr\<close> is INCR, \<open>None\<close> when Redis is unavailable; the error of EXPIRE is ignored.\<close>

record 'w redis_counter =
  rc_incr :: "string \<Rightarrow> 'w \<Rightarrow> int option \<times> 'w"
  rc_expire :: "string \<Rightarrow> int \<Rightarrow> 'w \<Rightarrow> 'w"

record 'w limiter =
  lm_rdb :: "'w redis_counter option"
  lm_limit :: int

definition second :: int where "second = 1000000000"
definition minute :: int where "minute = 60 * second"

definition New_limiter :: "'w redis_counter option \<Rightarrow> int \<Rightarrow> 'w limiter" where
  "New_limiter rdb limitPerMinute =
     \<lparr>lm_rdb = rdb, lm_limit = (if limitPerMinute \<le> 0 then 60 else limitPerMinute)\<rparr>"

definition truncate_minute :: "int \<Rightarrow> int" where
  "truncate_minute now = now div minute * minute"

definition limiter_key :: "string \<Rightarrow> string \<Rightarrow> int \<Rightarrow> string" where
  "limiter_key kind principalID window = ''rl:'' @ kind @ '':'' @ principalID @ '':'' @ itoa window"

definition Allow ::
    "'w limiter option \<Rightarrow> int \<Rightarrow> string \<Rightarrow> string \<Rightarrow> 'w \<Rightarrow> limit_result option \<times> 'w" where
  "Allow l now kind principalID w =
     (case l of
        None \<Rightarrow> (None, w)
      | Some l \<Rightarrow>
          (case lm_rdb l of
             None \<Rightarrow> (None, w)
           | Some rdb \<Rightarrow>
               (let window = truncate_minute now div second;
                    key = limiter_key kind principalID window in
                case rc_incr rdb key w of
                  (None, w') \<Rightarrow> (None, w')
                | (Some n, w') \<Rightarrow>
                    (let w'' = (if n = 1 then rc_expire rdb key (2 * minute) w' else w');
                         remaining = lm_limit l - n;
                         remaining = (if remaining < 0 then 0 else remaining);
                         retry = truncate_minute now + minute - now;
                         retry = (if retry < second then second else retry) in
                     (Some \<lparr>lr_Allowed = (n \<le> lm_limit l), lr_Limit = lm_limit l,
                            lr_Remaining = remaining, lr_RetryAfter = retry\<rparr>, w'')))))"

section \<open>Laws\<close>

lemma split_last_colon:
  assumes "a @ c # b = a' @ c # b'" and "c \<notin> set b" and "c \<notin> set b'"
  shows "a = a' \<and> b = b'"
proof -
  have *: "dropWhile (\<lambda>x. x \<noteq> c) (rev (x @ c # y)) = c # rev x"
    and **: "takeWhile (\<lambda>x. x \<noteq> c) (rev (x @ c # y)) = rev y" if "c \<notin> set y" for x y
    using that by (simp_all add: dropWhile_append2 takeWhile_append2 dropWhile_append takeWhile_append)
  from * [OF assms(2), of a] * [OF assms(3), of a'] assms(1) have "a = a'" by (metis list.inject rev_rev_ident)
  moreover from ** [OF assms(2), of a] ** [OF assms(3), of a'] assms(1) have "b = b'" by (metis rev_rev_ident)
  ultimately show ?thesis ..
qed

lemma itoa_no_colon: "CHR '':'' \<notin> set (itoa n)"
  using dec_digits [of "nat \<bar>n\<bar>"] by (auto simp: itoa_def list_all_iff is_digit_def in_range_def byte_def)

lemma dec_no_minus: "hd (dec n) \<noteq> CHR ''-''"
proof -
  have "is_digit (hd (dec n))" using dec_digits [of n] by (cases "dec n") auto
  then show ?thesis by (auto simp: is_digit_def in_range_def byte_def)
qed

lemma itoa_inj: "itoa m = itoa n \<Longrightarrow> m = n"
  using dec_inj [of "nat \<bar>m\<bar>" "nat \<bar>n\<bar>"] dec_no_minus [of "nat \<bar>m\<bar>"] dec_no_minus [of "nat \<bar>n\<bar>"]
  by (auto simp: itoa_def split: if_splits) (metis list.sel(1))+

text \<open>Different principals and different minutes have different counters.\<close>

lemma limiter_key_inj:
  assumes "limiter_key k i w = limiter_key k' i' w'" and "length k = length k'"
  shows "k = k' \<and> i = i' \<and> w = w'"
proof -
  from assms have k: "k = k'" and r: "i @ CHR '':'' # itoa w = i' @ CHR '':'' # itoa w'"
    by (auto simp: limiter_key_def)
  with split_last_colon [OF r itoa_no_colon itoa_no_colon] show ?thesis by (auto dest: itoa_inj)
qed

lemma retry_bounds:
  "second \<le> (let r = truncate_minute now + minute - now in if r < second then second else r)"
  "(let r = truncate_minute now + minute - now in if r < second then second else r) \<le> minute"
proof -
  have "now - truncate_minute now = now mod minute"
    by (simp add: truncate_minute_def minus_div_mult_eq_mod)
  moreover have "0 \<le> now mod minute" by (simp add: minute_def second_def)
  ultimately have "truncate_minute now + minute - now \<le> minute" by linarith
  then show "(let r = truncate_minute now + minute - now in if r < second then second else r) \<le> minute"
    by (simp add: Let_def minute_def second_def)
qed (simp add: Let_def)

text \<open>
  What the limiter relies on: INCR adds one to the counter of its key, a missing one counting as zero,
  and leaves the others alone; setting an expiry of two minutes does not change a counter within the
  minute.
\<close>

definition counting :: "'w redis_counter \<Rightarrow> (string \<Rightarrow> 'w \<Rightarrow> int) \<Rightarrow> bool" where
  "counting rdb cnt \<longleftrightarrow>
     (\<forall>k w. fst (rc_incr rdb k w) = Some (cnt k w + 1)
        \<and> (\<forall>j. cnt j (snd (rc_incr rdb k w)) = (if j = k then cnt k w + 1 else cnt j w)))
     \<and> (\<forall>k t j w. cnt j (rc_expire rdb k t w) = cnt j w)"

text \<open>A sequence of calls, and how many of them a principal is granted.\<close>

fun granted :: "'w limiter \<Rightarrow> string \<times> string \<Rightarrow> (int \<times> string \<times> string) list \<Rightarrow> 'w \<Rightarrow> nat" where
  "granted l p [] w = 0"
| "granted l p ((now, kind, i) # cs) w =
     (case Allow (Some l) now kind i w of
        (r, w') \<Rightarrow>
          (if (kind, i) = p \<and> (case r of Some x \<Rightarrow> lr_Allowed x | None \<Rightarrow> False) then 1 else 0)
          + granted l p cs w')"

lemma Allow_counting:
  assumes "lm_rdb l = Some rdb" and "counting rdb cnt"
  defines "key \<equiv> \<lambda>k i now. limiter_key k i (truncate_minute now div second)"
  obtains r w' where "Allow (Some l) now k i w = (Some r, w')"
    and "lr_Allowed r \<longleftrightarrow> cnt (key k i now) w + 1 \<le> lm_limit l"
    and "\<And>j. cnt j w' = (if j = key k i now then cnt j w + 1 else cnt j w)"
proof -
  obtain n w1 where inc: "rc_incr rdb (key k i now) w = (Some n, w1)"
    using assms(2) unfolding counting_def by (metis prod.collapse)
  with assms(2) have n: "n = cnt (key k i now) w + 1"
    and c: "\<And>j. cnt j w1 = (if j = key k i now then cnt j w + 1 else cnt j w)"
    unfolding counting_def by (metis fst_conv option.inject, metis snd_conv)
  have e: "\<And>t j v. cnt j (rc_expire rdb (key k i now) t v) = cnt j v"
    using assms(2) unfolding counting_def by blast
  obtain r w' where a: "Allow (Some l) now k i w = (Some r, w')"
    and r: "lr_Allowed r \<longleftrightarrow> n \<le> lm_limit l"
    and w': "w' = (if n = 1 then rc_expire rdb (key k i now) (2 * minute) w1 else w1)"
    using assms(1) inc [unfolded key_def] by (simp add: Allow_def key_def Let_def)
  have "cnt j w' = (if j = key k i now then cnt j w + 1 else cnt j w)" for j
    using c [of j] e [of j] by (cases "j = key k i now") (simp_all add: w')
  with that [OF a] r n show thesis by simp
qed

lemma granted_exact:
  assumes "lm_rdb l = Some rdb" and "counting rdb cnt"
    and "list_all (\<lambda>(now, k, i). truncate_minute now = m \<and> length k = length (fst p)) cs"
  shows "granted l p cs w =
    min (length (filter (\<lambda>c. snd c = p) cs))
      (nat (lm_limit l - cnt (limiter_key (fst p) (snd p) (m div second)) w))"
  using assms(3)
proof (induction cs arbitrary: w)
  case (Cons c cs)
  obtain now k i where c: "c = (now, k, i)" by (cases c)
  with Cons.prems have m: "truncate_minute now = m" and k: "length k = length (fst p)" by auto
  let ?K = "limiter_key (fst p) (snd p) (m div second)"
  obtain r w' where r: "Allow (Some l) now k i w = (Some r, w')"
    "lr_Allowed r \<longleftrightarrow> cnt (limiter_key k i (m div second)) w + 1 \<le> lm_limit l"
    "\<And>j. cnt j w' = (if j = limiter_key k i (m div second) then cnt j w + 1 else cnt j w)"
    using Allow_counting [OF assms(1,2), of now k i w] m by metis
  have IH: "granted l p cs w' = min (length (filter (\<lambda>c. snd c = p) cs)) (nat (lm_limit l - cnt ?K w'))"
    using Cons by auto
  show ?case
  proof (cases "(k, i) = p")
    case True
    then have K: "limiter_key k i (m div second) = ?K" by auto
    have w': "cnt ?K w' = cnt ?K w + 1" using r(3) [of ?K] K by simp
    have "granted l p (c # cs) w = (if cnt ?K w + 1 \<le> lm_limit l then 1 else 0) + granted l p cs w'"
      unfolding c granted.simps r(1) using True r(2) K by simp
    moreover have "filter (\<lambda>c. snd c = p) (c # cs) = c # filter (\<lambda>c. snd c = p) cs"
      using True by (simp add: c)
    ultimately show ?thesis unfolding IH w' by (simp add: min_def) linarith
  next
    case False
    with k have "limiter_key k i (m div second) \<noteq> ?K" by (auto dest!: limiter_key_inj)
    with False r IH show ?thesis by (auto simp: c)
  qed
qed simp

section \<open>Properties\<close>

text \<open>
  C11: In one minute a principal is granted exactly as many extractions as its quota has left, however its
  calls are interleaved with those of other principals: the first ones succeed until the limit is
  reached and every later one is refused, and no principal uses up the quota of another.
\<close>

theorem Allow_quota:
  assumes "lm_rdb l = Some rdb" and "counting rdb cnt"
    and "list_all (\<lambda>(now, k, i). truncate_minute now = m \<and> length k = length (fst p)) calls"
    and "cnt (limiter_key (fst p) (snd p) (m div second)) w = 0"
  shows "granted l p calls w = min (length (filter (\<lambda>c. snd c = p) calls)) (nat (lm_limit l))"
  using granted_exact [OF assms(1-3), of w] assms(4) by simp

theorem Allow_quota_witness:
  "granted (New_limiter (Some \<lparr>rc_incr = \<lambda>k w. (Some (w k + 1), w(k := w k + 1)), rc_expire = \<lambda>_ _ w. w\<rparr>) 2)
     (''jwt'', ''ana'') [(0, ''jwt'', ''ana''), (1, ''jwt'', ''bob''), (2, ''jwt'', ''ana''), (3, ''jwt'', ''ana'')] (\<lambda>_. 0) = 2"
proof -
  let ?r = "\<lparr>rc_incr = \<lambda>k w. (Some (w k + 1), w(k := w k + 1)), rc_expire = \<lambda>_ _ w. w\<rparr> :: (string \<Rightarrow> int) redis_counter"
  let ?calls = "[(0, ''jwt'', ''ana''), (1, ''jwt'', ''bob''), (2, ''jwt'', ''ana''), (3::int, ''jwt'', ''ana'')]"
  have r: "lm_rdb (New_limiter (Some ?r) 2) = Some ?r" by (simp add: New_limiter_def)
  have c: "counting ?r (\<lambda>k w. w k)" by (simp add: counting_def)
  have m: "list_all (\<lambda>(now, k, i). truncate_minute now = 0 \<and> length k = length (fst (''jwt'', ''ana''))) ?calls"
    by (simp add: truncate_minute_def minute_def second_def)
  from Allow_quota [OF r c m, of "\<lambda>_. 0"] show ?thesis by (simp add: New_limiter_def)
qed

text \<open>
  The limiter fails closed: without a Redis client or when Redis does not answer there is no result. A
  result it does return has at most the limit and at least nothing remaining, and a time to retry of at
  least one second and at most one minute.
\<close>

theorem Allow_result:
  "Allow None now kind i w = (None, w)
   \<and> (case Allow (Some l) now kind i w of
        (Some r, _) \<Rightarrow> lr_Limit r = lm_limit l \<and> 0 \<le> lr_Remaining r
          \<and> second \<le> lr_RetryAfter r \<and> lr_RetryAfter r \<le> minute
      | (None, _) \<Rightarrow> True)
   \<and> (case lm_rdb l of
        None \<Rightarrow> fst (Allow (Some l) now kind i w) = None
      | Some rdb \<Rightarrow>
          (fst (Allow (Some l) now kind i w) = None) =
          (fst (rc_incr rdb (limiter_key kind i (truncate_minute now div second)) w) = None))"
  using retry_bounds [of now] by (auto simp: Allow_def Let_def split: option.split prod.split)

end
