(* ===== verification/Result_Cache.thy ===== *)
theory Result_Cache
  imports Rate_Limit
begin

text \<open>
  Package \<^verbatim>\<open>internal/cache\<close>: results in Redis under a key made of the document type and the hash of the
  file. Redis and the JSON encoding of a result are parameters.
\<close>

text \<open>A GET answers with an error, with nothing or with the stored bytes.\<close>

datatype get_outcome = GetError | GetNil | GetBytes bytes

text \<open>The errors of SET and DEL are only logged.\<close>

record 'w redis_kv =
  kv_get :: "string \<Rightarrow> 'w \<Rightarrow> get_outcome"
  kv_set :: "string \<Rightarrow> bytes \<Rightarrow> int \<Rightarrow> 'w \<Rightarrow> 'w"
  kv_del :: "string \<Rightarrow> 'w \<Rightarrow> 'w"

record ('w, 'r) cache =
  ca_rdb :: "'w redis_kv option"
  ca_ttl :: int
  ca_marshal :: "'r extract_result \<Rightarrow> bytes option"
  ca_unmarshal :: "bytes \<Rightarrow> 'r extract_result option"

definition Key :: "string \<Rightarrow> string \<Rightarrow> string" where
  "Key docType sha256hex = ''extract:v1:'' @ docType @ '':'' @ sha256hex"

definition cache_Get ::
    "('w, 'r) cache \<Rightarrow> string \<Rightarrow> string \<Rightarrow> 'w \<Rightarrow> 'r extract_result option \<times> 'w" where
  "cache_Get c docType sha256hex w =
     (case ca_rdb c of
        None \<Rightarrow> (None, w)
      | Some rdb \<Rightarrow>
          (case kv_get rdb (Key docType sha256hex) w of
             GetError \<Rightarrow> (None, w)
           | GetNil \<Rightarrow> (None, w)
           | GetBytes raw \<Rightarrow>
               (case ca_unmarshal c raw of
                  None \<Rightarrow> (None, kv_del rdb (Key docType sha256hex) w)
                | Some result \<Rightarrow> (Some result, w))))"

definition cache_Set :: "('w, 'r) cache \<Rightarrow> string \<Rightarrow> string \<Rightarrow> 'r extract_result \<Rightarrow> 'w \<Rightarrow> 'w" where
  "cache_Set c docType sha256hex result w =
     (case ca_rdb c of
        None \<Rightarrow> w
      | Some rdb \<Rightarrow>
          (case ca_marshal c result of
             None \<Rightarrow> w
           | Some raw \<Rightarrow> kv_set rdb (Key docType sha256hex) raw (ca_ttl c) w))"

definition cache_Delete :: "('w, 'r) cache \<Rightarrow> string \<Rightarrow> string \<Rightarrow> 'w \<Rightarrow> 'w" where
  "cache_Delete c docType sha256hex w =
     (case ca_rdb c of
        None \<Rightarrow> w
      | Some rdb \<Rightarrow> kv_del rdb (Key docType sha256hex) w)"

section \<open>Laws\<close>

text \<open>
  What the cache relies on while no entry expires: a GET sees the last SET of its key, a DEL removes it, and
  the other keys are left alone.
\<close>

definition kv_laws :: "'w redis_kv \<Rightarrow> bool" where
  "kv_laws rdb \<longleftrightarrow>
     (\<forall>k j v t w. kv_get rdb j (kv_set rdb k v t w) = (if j = k then GetBytes v else kv_get rdb j w))
     \<and> (\<forall>k j w. kv_get rdb j (kv_del rdb k w) = (if j = k then GetNil else kv_get rdb j w))"

lemma Key_inj:
  assumes "Key t s = Key t' s'" and "CHR '':'' \<notin> set s" and "CHR '':'' \<notin> set s'"
  shows "t = t' \<and> s = s'"
proof -
  from assms(1) have "t @ CHR '':'' # s = t' @ CHR '':'' # s'" by (simp add: Key_def)
  from split_last_colon [OF this assms(2,3)] show ?thesis .
qed

lemma Key_not_limiter: "Key t s \<noteq> limiter_key k i m"
  by (simp add: Key_def limiter_key_def)

section \<open>Properties\<close>

text \<open>
  C29: For hashes without a colon, a lookup after storing a result gives what the decoder makes of the stored
  text for the same document type and hash, and what it gave before for every other; after a deletion it
  gives nothing. Storing and deleting results never touches a counter of the rate limiter, which lives in
  the same Redis under keys of another form.
\<close>

theorem cache_lookup_after_update:
  assumes "ca_rdb c = Some rdb" and "kv_laws rdb"
    and "CHR '':'' \<notin> set s" and "CHR '':'' \<notin> set s'" and "ca_marshal c r = Some raw"
  shows "fst (cache_Get c t' s' (cache_Set c t s r w)) =
      (if t' = t \<and> s' = s then ca_unmarshal c raw else fst (cache_Get c t' s' w))
    \<and> fst (cache_Get c t' s' (cache_Delete c t s w)) =
      (if t' = t \<and> s' = s then None else fst (cache_Get c t' s' w))
    \<and> kv_get rdb (limiter_key k i m) (cache_Set c t s r w) = kv_get rdb (limiter_key k i m) w
    \<and> kv_get rdb (limiter_key k i m) (cache_Delete c t s w) = kv_get rdb (limiter_key k i m) w"
proof -
  have "Key t' s' = Key t s \<longleftrightarrow> t' = t \<and> s' = s" using Key_inj assms(3,4) by blast
  with assms(1,2,5) Key_not_limiter [of t s k i m] show ?thesis
    by (auto simp: cache_Get_def cache_Set_def cache_Delete_def kv_laws_def
        split: get_outcome.splits option.splits)
qed

theorem cache_lookup_after_update_witness:
  "\<exists>(c :: (string \<Rightarrow> bytes option, unit) cache) r.
     fst (cache_Get c ''rg'' ''ab'' (cache_Set c ''rg'' ''ab'' r (\<lambda>_. None))) = Some r"
proof -
  let ?r = "\<lparr>rs_DocType = ''rg'', rs_Data = (), rs_Meta = \<lparr>mt_Model = [], mt_Chars = 0, mt_Mode = [],
    mt_Images = 0, mt_Filename = [], mt_ContentSHA256 = [], mt_Cache = []\<rparr>\<rparr>"
  let ?kv = "\<lparr>kv_get = \<lambda>k w. (case w k of None \<Rightarrow> GetNil | Some b \<Rightarrow> GetBytes b),
    kv_set = \<lambda>k v t w. w(k \<mapsto> v), kv_del = \<lambda>k w. w(k := None)\<rparr> :: (string \<Rightarrow> bytes option) redis_kv"
  let ?c = "\<lparr>ca_rdb = Some ?kv, ca_ttl = 60, ca_marshal = \<lambda>_. Some ''x'', ca_unmarshal = \<lambda>_. Some ?r\<rparr>
    :: (string \<Rightarrow> bytes option, unit) cache"
  have l: "kv_laws ?kv" by (simp add: kv_laws_def)
  have "fst (cache_Get ?c ''rg'' ''ab'' (cache_Set ?c ''rg'' ''ab'' ?r (\<lambda>_. None))) =
      (if ''rg'' = ''rg'' \<and> ''ab'' = ''ab'' then ca_unmarshal ?c ''x'' else fst (cache_Get ?c ''rg'' ''ab'' (\<lambda>_. None)))"
    using cache_lookup_after_update [of ?c ?kv "''ab''" "''ab''" ?r "''x''" "''rg''" "''rg''" "\<lambda>_. None"] l by simp
  then have "fst (cache_Get ?c ''rg'' ''ab'' (cache_Set ?c ''rg'' ''ab'' ?r (\<lambda>_. None))) = Some ?r" by simp
  then show ?thesis by blast
qed

end
