(* ===== verification/Store.thy ===== *)
theory Store
  imports Extract_Service
begin

text \<open>
  Package \<^verbatim>\<open>internal/store\<close>: the tables \<^verbatim>\<open>extractions\<close> and \<^verbatim>\<open>extract_consents\<close> and the statements the program
  runs on them. A table is the list of its rows in the order of insertion. What the database adds is an
  argument: the generated id and the current time, which statements of a transaction succeed, and how text
  is read as a UUID. A transaction that does not commit leaves the table as it was. A NULL is \<open>None\<close>. The
  argument \<open>pool\<close> says whether the store has a connection pool.
\<close>

section \<open>Extractions\<close>

record 'r extraction_record =
  er_DocType :: string
  er_ContentSHA256 :: string
  er_Filename :: string
  er_MIME :: string
  er_Mode :: string
  er_Model :: string
  er_RequestID :: string
  er_ClientIP :: string
  er_UserAgent :: string
  er_AuthSubject :: string
  er_AuthClient :: string
  er_AuthEmail :: string
  er_Status :: string
  er_Result :: "'r extract_result"
  er_Duration :: int

record row =
  row_id :: string
  row_created_at :: int
  row_doc_type :: string
  row_content_sha256 :: string
  row_filename :: string
  row_mime :: string
  row_mode :: string
  row_model :: string
  row_request_id :: string
  row_client_ip :: string
  row_user_agent :: string
  row_auth_subject :: "string option"
  row_auth_client :: "string option"
  row_auth_email :: "string option"
  row_status :: string
  row_result_json :: bytes
  row_duration_ms :: int
  row_deleted_at :: "int option"

definition nullIfEmpty :: "string \<Rightarrow> string option" where
  "nullIfEmpty s = (if s = [] then None else Some s)"

text \<open>The outcomes the database decides: beginning, the two statements and the commit.\<close>

record tx_outcome =
  tx_begin :: bool
  tx_update :: bool
  tx_insert :: bool
  tx_commit :: bool
  tx_id :: string
  tx_now :: int

datatype store_error =
    NotConfigured
  | MarshalFailed
  | TxFailed
  | SubjectRequired
  | IdAndSubjectRequired
  | QueryFailed
  | ErrNotFound

text \<open>
  \<^verbatim>\<open>UPDATE extractions SET deleted_at = now() WHERE ... auth_subject IS NOT DISTINCT FROM $3\<close>: two NULLs
  are not distinct.
\<close>

definition supersedes :: "'r extraction_record \<Rightarrow> row \<Rightarrow> bool" where
  "supersedes rec r \<longleftrightarrow>
     row_doc_type r = er_DocType rec \<and> row_content_sha256 r = er_ContentSHA256 rec
     \<and> row_deleted_at r = None \<and> row_auth_subject r = nullIfEmpty (er_AuthSubject rec)"

definition mark_deleted :: "int \<Rightarrow> row \<Rightarrow> row" where
  "mark_deleted now r = r\<lparr>row_deleted_at := Some now\<rparr>"

definition soft_delete :: "int \<Rightarrow> 'r extraction_record \<Rightarrow> row list \<Rightarrow> row list" where
  "soft_delete now rec rows =
     map (\<lambda>r. if supersedes rec r then mark_deleted now r else r) rows"

text \<open>\<^verbatim>\<open>int(rec.Duration.Milliseconds())\<close>; a duration is in nanoseconds and the division truncates.\<close>

definition milliseconds :: "int \<Rightarrow> int" where
  "milliseconds d = (if d < 0 then - (- d div 1000000) else d div 1000000)"

definition new_row :: "tx_outcome \<Rightarrow> bytes \<Rightarrow> 'r extraction_record \<Rightarrow> row" where
  "new_row tx payload rec =
     \<lparr>row_id = tx_id tx, row_created_at = tx_now tx, row_doc_type = er_DocType rec,
      row_content_sha256 = er_ContentSHA256 rec, row_filename = er_Filename rec, row_mime = er_MIME rec,
      row_mode = er_Mode rec, row_model = er_Model rec, row_request_id = er_RequestID rec,
      row_client_ip = er_ClientIP rec, row_user_agent = er_UserAgent rec,
      row_auth_subject = nullIfEmpty (er_AuthSubject rec), row_auth_client = nullIfEmpty (er_AuthClient rec),
      row_auth_email = nullIfEmpty (er_AuthEmail rec), row_status = er_Status rec,
      row_result_json = payload, row_duration_ms = milliseconds (er_Duration rec), row_deleted_at = None\<rparr>"

definition persist ::
    "bool \<Rightarrow> ('r extract_result \<Rightarrow> bytes option) \<Rightarrow> tx_outcome \<Rightarrow> 'r extraction_record \<Rightarrow> bool \<Rightarrow> row list
      \<Rightarrow> store_error option \<times> row list" where
  "persist pool marshal tx rec replace rows =
     (if \<not> pool then (Some NotConfigured, rows)
      else case marshal (er_Result rec) of
        None \<Rightarrow> (Some MarshalFailed, rows)
      | Some payload \<Rightarrow>
          if \<not> tx_begin tx then (Some TxFailed, rows)
          else if replace \<and> \<not> tx_update tx then (Some TxFailed, rows)
          else if \<not> tx_insert tx then (Some TxFailed, rows)
          else if \<not> tx_commit tx then (Some TxFailed, rows)
          else
            let rows' = (if replace then soft_delete (tx_now tx) rec rows else rows) in
            (None, rows' @ [new_row tx payload rec]))"

definition Insert ::
    "bool \<Rightarrow> ('r extract_result \<Rightarrow> bytes option) \<Rightarrow> tx_outcome \<Rightarrow> 'r extraction_record \<Rightarrow> row list
      \<Rightarrow> store_error option \<times> row list" where
  "Insert pool marshal tx rec rows = persist pool marshal tx rec False rows"

definition Replace ::
    "bool \<Rightarrow> ('r extract_result \<Rightarrow> bytes option) \<Rightarrow> tx_outcome \<Rightarrow> 'r extraction_record \<Rightarrow> row list
      \<Rightarrow> store_error option \<times> row list" where
  "Replace pool marshal tx rec rows = persist pool marshal tx rec True rows"

record summary =
  sm_ID :: string
  sm_CreatedAt :: int
  sm_DocType :: string
  sm_Filename :: string
  sm_ContentSHA256 :: string
  sm_Status :: string
  sm_Result :: bytes

definition summary_of :: "row \<Rightarrow> summary" where
  "summary_of r =
     \<lparr>sm_ID = row_id r, sm_CreatedAt = row_created_at r, sm_DocType = row_doc_type r,
      sm_Filename = row_filename r, sm_ContentSHA256 = row_content_sha256 r, sm_Status = row_status r,
      sm_Result = row_result_json r\<rparr>"

text \<open>
  \<^verbatim>\<open>WHERE auth_subject = $1 AND deleted_at IS NULL AND ($2 = '' OR doc_type = $2)\<close>. Rows created at the same
  moment, whose order the statement leaves open, come in the order of the table. The flag says whether the
  query succeeds.
\<close>

definition visible :: "string \<Rightarrow> row \<Rightarrow> bool" where
  "visible subject r \<longleftrightarrow> row_auth_subject r = Some subject \<and> row_deleted_at r = None"

definition ListBySubject :: "bool \<Rightarrow> bool \<Rightarrow> string \<Rightarrow> string \<Rightarrow> int \<Rightarrow> row list \<Rightarrow> store_error + summary list" where
  "ListBySubject pool ok subject0 docType limit0 rows =
     (let subject = TrimSpace subject0 in
      if \<not> pool then Inl NotConfigured
      else if subject = [] then Inl SubjectRequired
      else
        let limit = (if limit0 \<le> 0 \<or> 50 < limit0 then 20 else limit0) in
        if \<not> ok then Inl QueryFailed
        else Inr (map summary_of (take (nat limit) (sort_key (\<lambda>r. - row_created_at r)
          (filter (\<lambda>r. visible subject r \<and> (docType = [] \<or> row_doc_type r = docType)) rows)))))"

definition GetByIDForSubject ::
    "bool \<Rightarrow> bool \<Rightarrow> (string \<Rightarrow> string option) \<Rightarrow> string \<Rightarrow> string \<Rightarrow> row list \<Rightarrow> store_error + summary" where
  "GetByIDForSubject pool ok uuid id0 subject0 rows =
     (let i = TrimSpace id0; subject = TrimSpace subject0 in
      if \<not> pool then Inl NotConfigured
      else if i = [] \<or> subject = [] then Inl IdAndSubjectRequired
      else if \<not> ok then Inl QueryFailed
      else case uuid i of
        None \<Rightarrow> Inl QueryFailed
      | Some u \<Rightarrow>
          (case find (\<lambda>r. row_id r = u \<and> visible subject r) rows of
             None \<Rightarrow> Inl ErrNotFound
           | Some r \<Rightarrow> Inr (summary_of r)))"

section \<open>Consents\<close>

definition PolicyLGPDExtractV1 :: string where "PolicyLGPDExtractV1 = ''lgpd-extract-v1''"
definition PolicyLGPDCVStoreV1 :: string where "PolicyLGPDCVStoreV1 = ''lgpd-cv-store-v1''"

definition RequiredConsentPolicy :: "string \<Rightarrow> string" where
  "RequiredConsentPolicy docType =
     (if docType = ''curriculum_vitae'' then PolicyLGPDCVStoreV1 else PolicyLGPDExtractV1)"

record consent_record =
  cs_UserSub :: string
  cs_UserEmail :: string
  cs_IP :: string
  cs_UserAgent :: string
  cs_PolicyVersion :: string
  cs_ContentSHA256 :: string
  cs_DocType :: string
  cs_AcceptedAt :: "int option"

record consent_row =
  cw_user_sub :: string
  cw_user_email :: "string option"
  cw_ip :: "string option"
  cw_user_agent :: "string option"
  cw_policy_version :: string
  cw_content_sha256 :: "string option"
  cw_doc_type :: "string option"
  cw_accepted_at :: int

text \<open>The zero time is \<open>None\<close>; it is replaced by the present.\<close>

definition consent_Insert :: "bool \<Rightarrow> bool \<Rightarrow> int \<Rightarrow> consent_record \<Rightarrow> consent_row list \<Rightarrow> store_error option \<times> consent_row list" where
  "consent_Insert pool ok now rec rows =
     (let accepted = (case cs_AcceptedAt rec of None \<Rightarrow> now | Some t \<Rightarrow> t) in
      if \<not> pool then (Some NotConfigured, rows)
      else if \<not> ok then (Some TxFailed, rows)
      else (None, rows @ [\<lparr>cw_user_sub = cs_UserSub rec, cw_user_email = nullIfEmpty (cs_UserEmail rec),
        cw_ip = nullIfEmpty (cs_IP rec), cw_user_agent = nullIfEmpty (cs_UserAgent rec),
        cw_policy_version = cs_PolicyVersion rec, cw_content_sha256 = nullIfEmpty (cs_ContentSHA256 rec),
        cw_doc_type = nullIfEmpty (cs_DocType rec), cw_accepted_at = accepted\<rparr>]))"

section \<open>The contract of the store\<close>

text \<open>
  What the HTTP layer relies on: reading operations show a subject only what it owns, and a writing
  operation changes nothing of what other subjects own. The lemma extends this to any sequence of writes.
\<close>

locale extraction_store =
  fixes list_by :: "string \<Rightarrow> string \<Rightarrow> int \<Rightarrow> 'db \<Rightarrow> store_error + summary list"
    and get_by :: "string \<Rightarrow> string \<Rightarrow> 'db \<Rightarrow> store_error + summary"
    and put :: "'op \<Rightarrow> 'db \<Rightarrow> store_error option \<times> 'db"
    and author :: "'op \<Rightarrow> string"
    and owned :: "string \<Rightarrow> 'db \<Rightarrow> summary set"
  assumes list_owned: "list_by s t n db = Inr xs \<Longrightarrow> set xs \<subseteq> owned (TrimSpace s) db"
    and get_owned: "get_by i s db = Inr x \<Longrightarrow> x \<in> owned (TrimSpace s) db"
    and put_other: "s \<noteq> [] \<Longrightarrow> author op \<noteq> s \<Longrightarrow> owned s (snd (put op db)) = owned s db"
begin

lemma puts_other:
  "s \<noteq> [] \<Longrightarrow> list_all (\<lambda>op. author op \<noteq> s) ops \<Longrightarrow>
     owned s (fold (\<lambda>op db. snd (put op db)) ops db) = owned s db"
  by (induction ops arbitrary: db) (simp_all add: put_other)

lemma list_never_others:
  assumes "TrimSpace s \<noteq> []" and "list_all (\<lambda>op. author op \<noteq> TrimSpace s) ops"
    and "list_by s t n (fold (\<lambda>op db. snd (put op db)) ops db) = Inr xs"
  shows "set xs \<subseteq> owned (TrimSpace s) db"
  using list_owned [OF assms(3)] by (simp only: puts_other [OF assms(1,2)])

lemma get_never_others:
  assumes "TrimSpace s \<noteq> []" and "list_all (\<lambda>op. author op \<noteq> TrimSpace s) ops"
    and "get_by i s (fold (\<lambda>op db. snd (put op db)) ops db) = Inr x"
  shows "x \<in> owned (TrimSpace s) db"
  using get_owned [OF assms(3)] by (simp only: puts_other [OF assms(1,2)])

end

text \<open>A write: the outcome of its transaction, the record and whether it replaces.\<close>

type_synonym 'r store_write = "tx_outcome \<times> 'r extraction_record \<times> bool"

definition store_put ::
    "bool \<Rightarrow> ('r extract_result \<Rightarrow> bytes option) \<Rightarrow> 'r store_write \<Rightarrow> row list \<Rightarrow> store_error option \<times> row list" where
  "store_put pool marshal op rows =
     (case op of (tx, rec, replace) \<Rightarrow> if replace then Replace pool marshal tx rec rows else Insert pool marshal tx rec rows)"

definition store_author :: "'r store_write \<Rightarrow> string" where
  "store_author op = er_AuthSubject (fst (snd op))"

definition store_puts ::
    "bool \<Rightarrow> ('r extract_result \<Rightarrow> bytes option) \<Rightarrow> 'r store_write list \<Rightarrow> row list \<Rightarrow> row list" where
  "store_puts pool marshal ops rows = fold (\<lambda>op rows. snd (store_put pool marshal op rows)) ops rows"

definition owned_rows :: "string \<Rightarrow> row list \<Rightarrow> summary set" where
  "owned_rows s rows = summary_of ` {r \<in> set rows. visible s r}"

lemma mark_deleted_simps:
  "row_deleted_at (mark_deleted now r) = Some now" "row_auth_subject (mark_deleted now r) = row_auth_subject r"
  "row_doc_type (mark_deleted now r) = row_doc_type r"
  "row_content_sha256 (mark_deleted now r) = row_content_sha256 r"
  by (simp_all add: mark_deleted_def)

lemma filter_map_stable:
  "(\<And>x. P (f x) = P x \<and> (P x \<longrightarrow> f x = x)) \<Longrightarrow> filter P (map f xs) = filter P xs"
  by (induction xs) auto

lemma soft_delete_other:
  assumes "er_AuthSubject rec \<noteq> s" and "s \<noteq> []"
  shows "filter (visible s) (soft_delete now rec rows) = filter (visible s) rows"
  unfolding soft_delete_def
  by (rule filter_map_stable)
    (use assms in \<open>simp add: supersedes_def visible_def nullIfEmpty_def mark_deleted_simps\<close>)

lemma new_row_other:
  "er_AuthSubject rec \<noteq> s \<Longrightarrow> \<not> visible s (new_row tx p rec)"
  by (simp add: visible_def new_row_def nullIfEmpty_def)

lemma persist_other:
  assumes "s \<noteq> []" and "er_AuthSubject rec \<noteq> s"
  shows "filter (visible s) (snd (persist pool marshal tx rec replace rows)) = filter (visible s) rows"
  using assms by (auto simp: persist_def soft_delete_other new_row_other Let_def split: option.split)

lemma owned_persist_other:
  "s \<noteq> [] \<Longrightarrow> er_AuthSubject rec \<noteq> s \<Longrightarrow>
     owned_rows s (snd (persist pool marshal tx rec replace rows)) = owned_rows s rows"
  using persist_other [of s rec pool marshal tx replace rows]
  unfolding owned_rows_def by (metis set_filter)

lemma ListBySubject_owned:
  "ListBySubject pool ok s t n rows = Inr xs \<Longrightarrow> set xs \<subseteq> owned_rows (TrimSpace s) rows"
  by (auto simp: ListBySubject_def owned_rows_def Let_def split: if_splits dest!: in_set_takeD)

lemma GetByID_owned:
  "GetByIDForSubject pool ok uuid i s rows = Inr x \<Longrightarrow> x \<in> owned_rows (TrimSpace s) rows"
  by (auto simp: GetByIDForSubject_def owned_rows_def Let_def find_Some_iff split: if_splits option.splits)

interpretation store: extraction_store "ListBySubject pool ok" "GetByIDForSubject pool ok uuid"
  "store_put pool marshal" store_author owned_rows
  for pool ok uuid marshal
proof
  show "owned_rows s (snd (store_put pool marshal op db)) = owned_rows s db"
    if "s \<noteq> []" and "store_author op \<noteq> s" for s op db
    using that by (cases op) (simp add: store_put_def store_author_def Replace_def Insert_def owned_persist_other)
qed (auto dest: ListBySubject_owned GetByID_owned)

section \<open>Laws of replacing\<close>

text \<open>What \<open>Replace\<close> may touch: rows of the same document type, hash and subject.\<close>

definition same_key :: "'r extraction_record \<Rightarrow> row \<Rightarrow> bool" where
  "same_key rec r \<longleftrightarrow>
     row_doc_type r = er_DocType rec \<and> row_content_sha256 r = er_ContentSHA256 rec
     \<and> row_auth_subject r = nullIfEmpty (er_AuthSubject rec)"

lemma supersedes_same_key: "supersedes rec r \<longleftrightarrow> same_key rec r \<and> row_deleted_at r = None"
  by (auto simp: supersedes_def same_key_def)

lemma soft_delete_none: "filter (supersedes rec) (soft_delete now rec rows) = []"
  by (auto simp: soft_delete_def filter_empty_conv supersedes_def mark_deleted_simps)

lemma soft_delete_rest:
  "filter (\<lambda>r. \<not> same_key rec r) (soft_delete now rec rows) = filter (\<lambda>r. \<not> same_key rec r) rows"
  unfolding soft_delete_def
  by (rule filter_map_stable) (simp add: supersedes_def same_key_def mark_deleted_simps)

lemma new_row_key: "supersedes rec (new_row tx p rec)" "same_key rec (new_row tx p rec)"
  by (simp_all add: supersedes_def same_key_def new_row_def)

lemma persist_cases:
  obtains (failed) e where "persist pool marshal tx rec rep rows = (Some e, rows)"
  | (stored) p where "marshal (er_Result rec) = Some p"
      "persist pool marshal tx rec rep rows =
        (None, (if rep then soft_delete (tx_now tx) rec rows else rows) @ [new_row tx p rec])"
proof (cases "pool \<and> tx_begin tx \<and> (rep \<longrightarrow> tx_update tx) \<and> tx_insert tx \<and> tx_commit tx")
  case True
  then show thesis
    by (cases "marshal (er_Result rec)") (auto simp: persist_def intro: failed stored)
next
  case False
  then have "\<exists>e. persist pool marshal tx rec rep rows = (Some e, rows)"
    by (auto simp: persist_def split: option.split)
  then show thesis using failed by blast
qed

lemma sorted_take: "sorted (map f xs) \<Longrightarrow> sorted (map f (take n xs))"
  by (metis sorted_wrt_take take_map)

section \<open>Properties\<close>

text \<open>
  C10: A subject is shown only its own extractions that are not deleted. Whatever other subjects store in
  between, listing and reading by id return nothing that the subject did not own before. A list is ordered
  from the newest to the oldest and has at most 50 entries.
\<close>

theorem store_isolation:
  assumes "TrimSpace s \<noteq> []" and "list_all (\<lambda>op. store_author op \<noteq> TrimSpace s) ops"
  shows "(case ListBySubject pool ok s t n (store_puts pool marshal ops rows) of
      Inl _ \<Rightarrow> True
    | Inr xs \<Rightarrow> set xs \<subseteq> owned_rows (TrimSpace s) rows \<and> length xs \<le> 50
        \<and> sorted (map (\<lambda>x. - sm_CreatedAt x) xs))
   \<and> (case GetByIDForSubject pool ok uuid i s (store_puts pool marshal ops rows) of
      Inl _ \<Rightarrow> True
    | Inr x \<Rightarrow> x \<in> owned_rows (TrimSpace s) rows)"
proof -
  have "length xs \<le> 50 \<and> sorted (map (\<lambda>x. - sm_CreatedAt x) xs)"
    if "ListBySubject pool ok s t n later = Inr xs" for xs later
    using that by (auto simp: ListBySubject_def Let_def comp_def summary_of_def sorted_take split: if_splits)
  then show ?thesis
    using store.list_never_others [OF assms, of pool ok t n marshal rows]
      store.get_never_others [OF assms, of pool ok uuid i marshal rows]
    by (auto simp: store_puts_def split: sum.split)
qed

definition sample_result :: "unit extract_result" where
  "sample_result = \<lparr>rs_DocType = ''rg'', rs_Data = (), rs_Meta = \<lparr>mt_Model = [], mt_Chars = 0, mt_Mode = [],
    mt_Images = 0, mt_Filename = [], mt_ContentSHA256 = [], mt_Cache = []\<rparr>\<rparr>"

definition sample_record :: "string \<Rightarrow> unit extraction_record" where
  "sample_record subject =
     \<lparr>er_DocType = ''rg'', er_ContentSHA256 = ''ab'', er_Filename = [], er_MIME = [], er_Mode = [], er_Model = [],
      er_RequestID = [], er_ClientIP = [], er_UserAgent = [], er_AuthSubject = subject, er_AuthClient = [],
      er_AuthEmail = [], er_Status = ''success'', er_Result = sample_result, er_Duration = 0\<rparr>"

definition sample_tx :: tx_outcome where
  "sample_tx = \<lparr>tx_begin = True, tx_update = True, tx_insert = True, tx_commit = True, tx_id = ''1'', tx_now = 5\<rparr>"

theorem store_isolation_witness:
  "ListBySubject True True ''ana'' [] 20
     (store_puts True (\<lambda>_. Some ''{}'') [(sample_tx, sample_record ''bob'', True)] []) = Inr []"
proof -
  have "TrimSpace ''ana'' \<noteq> []"
    and "list_all (\<lambda>op. store_author op \<noteq> TrimSpace ''ana'') [(sample_tx, sample_record ''bob'', True)]"
    by code_simp+
  from store_isolation [OF this, where pool = True and ok = True and t = "[]" and n = 20
      and marshal = "\<lambda>_. Some ''{}''" and rows = "[]" and uuid = Some and i = "[]"]
  have "case ListBySubject True True ''ana'' [] 20
     (store_puts True (\<lambda>_. Some ''{}'') [(sample_tx, sample_record ''bob'', True)] []) of
      Inl _ \<Rightarrow> True | Inr xs \<Rightarrow> set xs \<subseteq> owned_rows (TrimSpace ''ana'') []" by (auto split: sum.split)
  moreover obtain xs where "ListBySubject True True ''ana'' [] 20
     (store_puts True (\<lambda>_. Some ''{}'') [(sample_tx, sample_record ''bob'', True)] []) = Inr xs"
    using \<open>TrimSpace ''ana'' \<noteq> []\<close> by (simp add: ListBySubject_def Let_def)
  ultimately show ?thesis by (simp add: owned_rows_def)
qed

text \<open>
  C24: Replacing is atomic. It either fails and leaves the table as it was, or afterwards the stored record
  is the only active row for its document type, hash and subject, while the rows for every other
  combination are exactly the rows that were there before.
\<close>

theorem Replace_single_active:
  "case Replace pool marshal tx rec rows of
     (Some e, rows') \<Rightarrow> rows' = rows
   | (None, rows') \<Rightarrow> \<exists>p. marshal (er_Result rec) = Some p
       \<and> filter (supersedes rec) rows' = [new_row tx p rec]
       \<and> filter (\<lambda>r. \<not> same_key rec r) rows' = filter (\<lambda>r. \<not> same_key rec r) rows"
proof (cases rule: persist_cases [of pool marshal tx rec True rows])
  case (failed e)
  then show ?thesis by (simp add: Replace_def)
next
  case (stored p)
  then show ?thesis by (simp add: Replace_def soft_delete_none soft_delete_rest new_row_key)
qed



end
