(* ===== verification/Http_Types.thy ===== *)
theory Http_Types
  imports Go_Net Auth Result_Cache Store
begin

text \<open>
  Package \<^verbatim>\<open>internal/httpapi\<close>, part one: the interfaces the server calls, the server itself, and requests
  and responses as the handlers see them. Every operation of an interface is a function on an abstract
  state of the outside world; a missing dependency (a nil interface) is \<open>None\<close>.
\<close>

section \<open>Interfaces\<close>

record ('w, 'r) Extractor =
  ex_KnownTypes :: "string list"
  ex_Extract :: "string \<Rightarrow> prepared \<Rightarrow> 'w \<Rightarrow> (extract_error + 'r extract_result) \<times> 'w"

record ('w, 'r) ResultCache =
  rc_Get :: "string \<Rightarrow> string \<Rightarrow> 'w \<Rightarrow> 'r extract_result option \<times> 'w"
  rc_Set :: "string \<Rightarrow> string \<Rightarrow> 'r extract_result \<Rightarrow> 'w \<Rightarrow> 'w"
  rc_Delete :: "string \<Rightarrow> string \<Rightarrow> 'w \<Rightarrow> 'w"

record ('w, 'r) ExtractionStore =
  es_Insert :: "'r extraction_record \<Rightarrow> 'w \<Rightarrow> store_error option \<times> 'w"
  es_Replace :: "'r extraction_record \<Rightarrow> 'w \<Rightarrow> store_error option \<times> 'w"
  es_ListBySubject :: "string \<Rightarrow> string \<Rightarrow> int \<Rightarrow> 'w \<Rightarrow> (store_error + summary list) \<times> 'w"
  es_GetByIDForSubject :: "string \<Rightarrow> string \<Rightarrow> 'w \<Rightarrow> (store_error + summary) \<times> 'w"

type_synonym 'w ConsentStore = "consent_record \<Rightarrow> 'w \<Rightarrow> store_error option \<times> 'w"
type_synonym 'w DBPinger = "'w \<Rightarrow> bool \<times> 'w"
type_synonym 'w Authenticator = "string \<Rightarrow> 'w \<Rightarrow> principal option \<times> 'w"
type_synonym 'w RateLimiter = "string \<Rightarrow> string \<Rightarrow> 'w \<Rightarrow> limit_result option \<times> 'w"

text \<open>What \<^verbatim>\<open>New\<close> is given, each dependency possibly nil.\<close>

record ('w, 'r) Deps =
  dp_Extractor :: "('w, 'r) Extractor option"
  dp_Pool :: "'w DBPinger option"
  dp_Cache :: "('w, 'r) ResultCache option"
  dp_Extractions :: "('w, 'r) ExtractionStore option"
  dp_Consents :: "'w ConsentStore option"
  dp_TrustedProxies :: "ipnet list"
  dp_CORSOrigins :: "string list"
  dp_Auth :: "'w Authenticator option"
  dp_RateLimit :: "'w RateLimiter option"
  dp_M2MUserForwardSecret :: string

record ('w, 'r) Server =
  sv_extractor :: "('w, 'r) Extractor"
  sv_pool :: "'w DBPinger option"
  sv_cache :: "('w, 'r) ResultCache option"
  sv_extractions :: "('w, 'r) ExtractionStore option"
  sv_consents :: "'w ConsentStore option"
  sv_trustedProxies :: "ipnet list"
  sv_corsOrigins :: "string list"
  sv_auth :: "'w Authenticator option"
  sv_limiter :: "'w RateLimiter option"
  sv_m2mUserForwardSecret :: string

definition NewServer :: "('w, 'r) Deps \<Rightarrow> string + ('w, 'r) Server" where
  "NewServer deps =
     (case dp_Extractor deps of
        None \<Rightarrow> Inl ''extractor is required''
      | Some extractor \<Rightarrow>
          if dp_Auth deps = None then Inl ''authenticator is required''
          else if dp_RateLimit deps = None then Inl ''rate limiter is required''
          else Inr \<lparr>sv_extractor = extractor, sv_pool = dp_Pool deps, sv_cache = dp_Cache deps,
            sv_extractions = dp_Extractions deps, sv_consents = dp_Consents deps,
            sv_trustedProxies = dp_TrustedProxies deps, sv_corsOrigins = dp_CORSOrigins deps,
            sv_auth = dp_Auth deps, sv_limiter = dp_RateLimit deps,
            sv_m2mUserForwardSecret = TrimSpace (dp_M2MUserForwardSecret deps)\<rparr>)"

section \<open>Requests and responses\<close>

text \<open>
  What \<^verbatim>\<open>ParseMultipartForm\<close> makes of the body, read through \<^verbatim>\<open>MaxBytesReader\<close>: too many bytes, not a
  form, or its values with the part \<^verbatim>\<open>file\<close> when there is one. The bytes of that part are \<open>None\<close> when
  reading them fails.
\<close>

datatype form =
    FormTooLarge
  | FormInvalid
  | Form (form_values: "(string \<times> string) list") (form_file: "(string \<times> bytes option) option")

record request =
  rq_Method :: string
  rq_Path :: string
  rq_Query :: "(string \<times> string) list"
  rq_Header :: "string \<Rightarrow> string"
  rq_RemoteAddr :: string
  rq_RequestID :: string
  rq_Form :: form
  rq_Principal :: "principal option"

type_synonym headers = "string \<rightharpoonup> string"

datatype 'r body =
    NoBody
  | ErrorBody string
  | StatusBody string
  | ExtractBody string 'r
  | ListBody "summary list"
  | ItemBody summary

record 'r response =
  rp_Status :: nat
  rp_Header :: headers
  rp_Body :: "'r body"

definition WithPrincipal :: "request \<Rightarrow> principal \<Rightarrow> request" where
  "WithPrincipal r p = r\<lparr>rq_Principal := Some p\<rparr>"

definition PrincipalFromContext :: "request \<Rightarrow> principal option" where
  "PrincipalFromContext r = rq_Principal r"

text \<open>\<^verbatim>\<open>url.Values.Get\<close>, and \<^verbatim>\<open>FormValue\<close>: the values of the query come before those of the form.\<close>

definition values_Get :: "(string \<times> string) list \<Rightarrow> string \<Rightarrow> string" where
  "values_Get vs k = (case map_of vs k of None \<Rightarrow> [] | Some v \<Rightarrow> v)"

definition FormValue :: "request \<Rightarrow> string \<Rightarrow> string" where
  "FormValue r k = values_Get (rq_Query r @ (case rq_Form r of Form vs _ \<Rightarrow> vs | _ \<Rightarrow> [])) k"

definition writeJSON :: "headers \<Rightarrow> nat \<Rightarrow> 'r body \<Rightarrow> 'r response" where
  "writeJSON h status v =
     \<lparr>rp_Status = status, rp_Header = h(''Content-Type'' \<mapsto> ''application/json; charset=utf-8''), rp_Body = v\<rparr>"

definition writeErr :: "headers \<Rightarrow> nat \<Rightarrow> string \<Rightarrow> 'r response" where
  "writeErr h status msg = writeJSON h status (ErrorBody msg)"

definition toExtractResponse :: "'r extract_result \<Rightarrow> 'r body" where
  "toExtractResponse result = ExtractBody (rs_DocType result) (rs_Data result)"

section \<open>Query, consent and acting user\<close>

definition truthy :: "string list" where
  "truthy = [''1'', ''true'', ''yes'', ''y'', ''on'']"

definition truthyQuery :: "request \<Rightarrow> string \<Rightarrow> bool" where
  "truthyQuery r key = List.member truthy (TrimSpace (ToLower (values_Get (rq_Query r) key)))"

definition consent_value :: "request \<Rightarrow> string" where
  "consent_value r =
     (let v = TrimSpace (FormValue r ''consent'') in
      if v = [] then TrimSpace (rq_Header r ''X-LGPD-Consent'') else v)"

definition consentAccepted :: "request \<Rightarrow> string \<Rightarrow> bool" where
  "consentAccepted r docType =
     (let v = consent_value r; required = RequiredConsentPolicy docType in
      if EqualFold v required then True
      else if required = PolicyLGPDExtractV1 then List.member truthy (ToLower v)
      else False)"

text \<open>\<^verbatim>\<open>subtle.ConstantTimeCompare\<close> answers 1 exactly for equal byte sequences.\<close>

definition acceptsUserForward :: "('w, 'r) Server \<Rightarrow> request \<Rightarrow> bool" where
  "acceptsUserForward s r =
     (if sv_m2mUserForwardSecret s = [] then False
      else
        let got = TrimSpace (rq_Header r ''X-Kalke-Forward-Secret'') in
        if got = [] then False
        else got = sv_m2mUserForwardSecret s)"

definition isM2MPrincipal :: "principal \<Rightarrow> bool" where
  "isM2MPrincipal p =
     (if pr_Kind p \<noteq> KindJWT then False
      else if pr_Client p = ''pde-m2m'' then True
      else pr_Email p = [] \<and> HasPrefix (pr_Client p) ''pde-'')"

definition resolveActor :: "('w, 'r) Server \<Rightarrow> request \<Rightarrow> string \<times> string \<times> string" where
  "resolveActor s r =
     (case PrincipalFromContext r of
        None \<Rightarrow> ([], [], [])
      | Some p \<Rightarrow>
          if \<not> isM2MPrincipal p then (pr_Subject p, pr_Client p, pr_Email p)
          else if \<not> acceptsUserForward s r then (pr_Subject p, pr_Client p, pr_Email p)
          else
            let sub = TrimSpace (rq_Header r ''X-Kalke-User-Sub'') in
            if sub = [] then (pr_Subject p, pr_Client p, pr_Email p)
            else
              let em = TrimSpace (rq_Header r ''X-Kalke-User-Email'') in
              (sub, pr_Client p, if em = [] then pr_Email p else em))"

definition actor_subject :: "('w, 'r) Server \<Rightarrow> request \<Rightarrow> string" where
  "actor_subject s r = fst (resolveActor s r)"

section \<open>Origin of a request\<close>

definition maxUserAgentLen :: int where "maxUserAgentLen = 512"

definition normalizeIP :: "string \<Rightarrow> string" where
  "normalizeIP s0 =
     (let s = TrimSpace s0 in
      if s = [] then []
      else
        let h = (case SplitHostPort s of Some (host, _) \<Rightarrow> host | None \<Rightarrow> s) in
        case ParseIP h of Some ip \<Rightarrow> IP_String ip | None \<Rightarrow> [])"

definition remoteAddrIP :: "request \<Rightarrow> string" where
  "remoteAddrIP r =
     (case SplitHostPort (TrimSpace (rq_RemoteAddr r)) of
        Some (host, _) \<Rightarrow> normalizeIP host
      | None \<Rightarrow> normalizeIP (rq_RemoteAddr r))"

definition ipInNets :: "string \<Rightarrow> ipnet list \<Rightarrow> bool" where
  "ipInNets ipStr nets =
     (if nets = [] then False
      else case ParseIP ipStr of
        None \<Rightarrow> False
      | Some ip \<Rightarrow> list_ex (\<lambda>n. IPNet_Contains n ip) nets)"

definition clientIP :: "request \<Rightarrow> ipnet list \<Rightarrow> string" where
  "clientIP r trusted =
     (let remote = remoteAddrIP r; xri = TrimSpace (rq_Header r ''X-Real-IP'') in
      if remote \<noteq> [] \<and> ipInNets remote trusted \<and> xri \<noteq> [] \<and> normalizeIP xri \<noteq> []
      then normalizeIP xri
      else remote)"

definition truncate_str :: "string \<Rightarrow> int \<Rightarrow> string" where
  "truncate_str s n = (if n \<le> 0 \<or> int (length s) \<le> n then s else take (nat n) s)"

definition requestOrigin :: "('w, 'r) Server \<Rightarrow> request \<Rightarrow> string \<times> string" where
  "requestOrigin s r =
     (let fwd = acceptsUserForward s r;
          ip = (if fwd then normalizeIP (rq_Header r ''X-Kalke-Client-IP'') else []);
          ua = TrimSpace (rq_Header r ''X-Kalke-User-Agent'');
          userAgent = (if fwd \<and> ua \<noteq> [] then truncate_str ua maxUserAgentLen else []) in
      (if ip = [] then clientIP r (sv_trustedProxies s) else ip,
       if userAgent = [] then truncate_str (TrimSpace (rq_Header r ''User-Agent'')) maxUserAgentLen else userAgent))"

section \<open>Laws\<close>

lemma NewServer_ok:
  "(\<exists>s. NewServer deps = Inr s) \<longleftrightarrow> dp_Extractor deps \<noteq> None \<and> dp_Auth deps \<noteq> None \<and> dp_RateLimit deps \<noteq> None"
  by (auto simp: NewServer_def split: option.split)

lemma length_truncate_str: "0 < n \<Longrightarrow> int (length (truncate_str s n)) \<le> n"
  by (auto simp: truncate_str_def)

lemma truncate_str_prefix: "\<exists>t. s = truncate_str s n @ t"
  by (auto simp: truncate_str_def intro: exI [of _ "drop (nat n) s"])

lemma user_agent_bounded: "length (snd (requestOrigin s r)) \<le> 512"
proof -
  have "int (length (truncate_str t maxUserAgentLen)) \<le> 512" for t
    using length_truncate_str [of maxUserAgentLen t] by (simp add: maxUserAgentLen_def)
  then show ?thesis by (simp add: requestOrigin_def Let_def)
qed

lemma clientIP_untrusted:
  "\<not> ipInNets (remoteAddrIP r) trusted \<Longrightarrow> clientIP r trusted = remoteAddrIP r"
  by (simp add: clientIP_def Let_def)

lemma resolveActor_direct:
  "PrincipalFromContext r = Some p \<Longrightarrow> \<not> isM2MPrincipal p \<or> \<not> acceptsUserForward s r \<Longrightarrow>
     resolveActor s r = (pr_Subject p, pr_Client p, pr_Email p)"
  by (auto simp: resolveActor_def)

lemma resolveActor_client:
  "PrincipalFromContext r = Some p \<Longrightarrow> fst (snd (resolveActor s r)) = pr_Client p"
  by (simp add: resolveActor_def Let_def)

end
