(* ===== verification/Sha256.thy ===== *)
theory Sha256
  imports Go_Net "HOL-Library.Word"
begin

text \<open>
  Go's \<^verbatim>\<open>crypto/sha256\<close> and \<^verbatim>\<open>encoding/hex\<close>, which name an uploaded file: the padding, the message
  schedule and the 64 rounds on 32-bit words, where \<open>+\<close> wraps around. The program relies on the form of
  the hexadecimal digest: 64 lower-case digits.
\<close>

unbundle bit_operations_syntax

type_synonym word32 = "32 word"

definition rotr :: "nat \<Rightarrow> word32 \<Rightarrow> word32" where
  "rotr n w = word_rotr n w"

text \<open>
  The constants are the first 32 fractional bits of the square roots of the first 8 primes and of the cube
  roots of the first 64; the root is found bit by bit.
\<close>

fun root_bits :: "nat \<Rightarrow> nat \<Rightarrow> nat \<Rightarrow> nat \<Rightarrow> nat" where
  "root_bits k n 0 r = r"
| "root_bits k n (Suc b) r = root_bits k n b (if (r + 2 ^ b) ^ k \<le> n then r + 2 ^ b else r)"

definition fraction_bits :: "nat \<Rightarrow> nat \<Rightarrow> word32" where
  "fraction_bits k p = word_of_nat (root_bits k (p * 2 ^ (32 * k)) 36 0)"

definition small_primes :: "nat list" where
  "small_primes = filter (\<lambda>n. list_all (\<lambda>d. n mod d \<noteq> 0) [2..<n]) [2..<312]"

definition round_constants :: "word32 list" where
  "round_constants = map (fraction_bits 3) small_primes"

type_synonym sha_state = "word32 \<times> word32 \<times> word32 \<times> word32 \<times> word32 \<times> word32 \<times> word32 \<times> word32"

definition sha_init :: sha_state where
  "sha_init =
     (let v = map (fraction_bits 2) (take 8 small_primes) in
      (v ! 0, v ! 1, v ! 2, v ! 3, v ! 4, v ! 5, v ! 6, v ! 7))"

text \<open>The length in bits, as eight bytes, most significant first.\<close>

fun be_bytes :: "nat \<Rightarrow> nat \<Rightarrow> nat list" where
  "be_bytes 0 n = []"
| "be_bytes (Suc k) n = be_bytes k (n div 256) @ [n mod 256]"

definition sha_pad :: "nat list \<Rightarrow> nat list" where
  "sha_pad m =
     (let l = length m in
      m @ [128] @ replicate ((119 - l mod 64) mod 64) 0 @ be_bytes 8 (8 * l))"

fun be_words :: "nat list \<Rightarrow> word32 list" where
  "be_words (a # b # c # d # r) = word_of_nat (((a * 256 + b) * 256 + c) * 256 + d) # be_words r"
| "be_words _ = []"

text \<open>The schedule is built with the newest word first: w(i-2), w(i-7), w(i-15) and w(i-16).\<close>

definition sched_word :: "word32 list \<Rightarrow> word32" where
  "sched_word ws =
     (let a = ws ! 1; b = ws ! 14 in
      (rotr 17 a XOR rotr 19 a XOR drop_bit 10 a) + ws ! 6
      + (rotr 7 b XOR rotr 18 b XOR drop_bit 3 b) + ws ! 15)"

fun schedule :: "nat \<Rightarrow> word32 list \<Rightarrow> word32 list" where
  "schedule 0 ws = ws"
| "schedule (Suc n) ws = schedule n (sched_word ws # ws)"

fun sha_round :: "word32 \<times> word32 \<Rightarrow> sha_state \<Rightarrow> sha_state" where
  "sha_round (k, w) (a, b, c, d, e, f, g, h) =
     (let t1 = h + (rotr 6 e XOR rotr 11 e XOR rotr 25 e) + ((e AND f) XOR (NOT e AND g)) + k + w;
          t2 = (rotr 2 a XOR rotr 13 a XOR rotr 22 a) + ((a AND b) XOR (a AND c) XOR (b AND c)) in
      (t1 + t2, a, b, c, d + t1, e, f, g))"

fun sha_add :: "sha_state \<Rightarrow> sha_state \<Rightarrow> sha_state" where
  "sha_add (a, b, c, d, e, f, g, h) (a', b', c', d', e', f', g', h') =
     (a + a', b + b', c + c', d + d', e + e', f + f', g + g', h + h')"

definition sha_block :: "nat list \<Rightarrow> sha_state \<Rightarrow> sha_state" where
  "sha_block p st =
     sha_add st (fold sha_round (zip round_constants (rev (schedule 48 (rev (be_words p))))) st)"

function sha_blocks :: "nat list \<Rightarrow> sha_state \<Rightarrow> sha_state" where
  "sha_blocks m st = (if length m < 64 then st else sha_blocks (drop 64 m) (sha_block (take 64 m) st))"
  by pat_completeness auto
termination
  by (relation "measure (\<lambda>(m, _). length m)") auto

declare sha_blocks.simps [simp del]

fun sha_digest :: "sha_state \<Rightarrow> nat list" where
  "sha_digest (a, b, c, d, e, f, g, h) = concat (map (\<lambda>w. be_bytes 4 (unat w)) [a, b, c, d, e, f, g, h])"

definition Sum256 :: "bytes \<Rightarrow> nat list" where
  "Sum256 data = sha_digest (sha_blocks (sha_pad (map byte data)) sha_init)"

definition hex_EncodeToString :: "nat list \<Rightarrow> string" where
  "hex_EncodeToString bs = concat (map (\<lambda>b. [hex_char (b div 16), hex_char (b mod 16)]) bs)"

definition shaHex :: "bytes \<Rightarrow> string" where
  "shaHex data = hex_EncodeToString (Sum256 data)"

section \<open>Laws\<close>

lemma length_be_bytes [simp]: "length (be_bytes k n) = k"
  by (induction k arbitrary: n) auto

lemma be_bytes_less: "b \<in> set (be_bytes k n) \<Longrightarrow> b < 256"
  by (induction k arbitrary: n) auto

lemma sha_digest_bytes:
  "length (sha_digest st) = 32" "b \<in> set (sha_digest st) \<Longrightarrow> b < 256"
  by (induction st rule: sha_digest.induct) (auto dest: be_bytes_less)

lemma length_Sum256: "length (Sum256 data) = 32"
  by (simp add: Sum256_def sha_digest_bytes)

lemma Sum256_bytes: "b \<in> set (Sum256 data) \<Longrightarrow> b < 256"
  by (auto simp: Sum256_def dest: sha_digest_bytes(2))

lemma hex_char_cases:
  assumes "n < 16"
  shows "hex_char n \<in> set ''0123456789abcdef''"
  unfolding hex_char_def by (rule nth_mem) (use assms in simp)

text \<open>The padded message is a whole number of blocks.\<close>

lemma sha_pad_blocks: "64 dvd length (sha_pad m)"
proof -
  have "64 dvd r + 9 + (119 - r) mod 64" if "r < 64" for r :: nat
  proof (cases "r \<le> 55")
    case True
    then have "119 - r = 55 - r + 64" by linarith
    then have "(119 - r) mod 64 = 55 - r" by (simp only: mod_add_self2) simp
    with True have "r + 9 + (119 - r) mod 64 = 64" by linarith
    then show ?thesis by (simp only: dvd_refl)
  next
    case False
    then have "(119 - r) mod 64 = 119 - r" by simp
    with that have "r + 9 + (119 - r) mod 64 = 2 * 64" by linarith
    then show ?thesis by (simp only: dvd_triv_right)
  qed
  from this [of "length m mod 64"] have "64 dvd length m + 9 + (119 - length m mod 64) mod 64"
    by (simp only: dvd_eq_mod_eq_0 mod_add_left_eq add.assoc mod_less_divisor zero_less_numeral)
  then show ?thesis by (simp add: sha_pad_def Let_def ac_simps)
qed

lemma length_shaHex: "length (shaHex data) = 64"
proof -
  have "length (hex_EncodeToString bs) = 2 * length bs" for bs
    by (induction bs) (simp_all add: hex_EncodeToString_def)
  then show ?thesis by (simp add: shaHex_def length_Sum256)
qed

lemma set_shaHex: "set (shaHex data) \<subseteq> set ''0123456789abcdef''"
proof -
  have "hex_char (b div 16) \<in> set ''0123456789abcdef'' \<and> hex_char (b mod 16) \<in> set ''0123456789abcdef''"
    if "b \<in> set (Sum256 data)" for b
    using Sum256_bytes [OF that] by (intro conjI hex_char_cases) auto
  then show ?thesis unfolding shaHex_def hex_EncodeToString_def
    by (simp only: set_concat set_map UN_subset_iff list.set insert_subset) auto
qed

lemma shaHex_no_colon: "CHR '':'' \<notin> set (shaHex data)"
  using set_shaHex [of data] by auto

lemma shaHex_not_Nil [simp]: "shaHex data \<noteq> []"
  using length_shaHex [of data] by auto

end
