(* ===== verification/Http_Server.thy ===== *)
theory Http_Server
  imports Http_Types Sha256
begin

text \<open>
  Package \<^verbatim>\<open>internal/httpapi\<close>, part two: reading an upload, the mapping of errors to statuses, the
  handlers, the middleware and the routes. A handler takes the headers set so far and the state of the
  world, and gives the response and the new state. Log lines inside the handlers are left out; the access
  log is an effect on the world.
\<close>

section \<open>Uploads\<close>

datatype upload_error = MaxBytesError | BadForm | errMissingFile | ReadFailed | EmptyUpload | errTooLarge

definition readUpload :: "request \<Rightarrow> upload_error + string \<times> bytes" where
  "readUpload r =
     (case rq_Form r of
        FormTooLarge \<Rightarrow> Inl MaxBytesError
      | FormInvalid \<Rightarrow> Inl BadForm
      | Form _ None \<Rightarrow> Inl errMissingFile
      | Form _ (Some (_, None)) \<Rightarrow> Inl ReadFailed
      | Form _ (Some (filename, Some content)) \<Rightarrow>
          (let data = take (MaxUploadBytes + 1) content in
           if length data = 0 then Inl EmptyUpload
           else if MaxUploadBytes < length data then Inl errTooLarge
           else Inr (filename, data)))"

definition writeUploadError :: "headers \<Rightarrow> upload_error \<Rightarrow> 'r response" where
  "writeUploadError h e =
     (case e of
        MaxBytesError \<Rightarrow> writeErr h 413 ''uploaded file exceeds size limit''
      | errTooLarge \<Rightarrow> writeErr h 413 ''uploaded file exceeds size limit''
      | errMissingFile \<Rightarrow> writeErr h 400 ''multipart field 'file' is required''
      | EmptyUpload \<Rightarrow> writeErr h 400 ''uploaded file is empty''
      | _ \<Rightarrow> writeErr h 400 ''invalid multipart form'')"

section \<open>Errors and statuses\<close>

fun mapPreprocessError :: "preprocess_error \<Rightarrow> nat \<times> string" where
  "mapPreprocessError ErrEmptyUpload = (400, ''uploaded file is empty'')"
| "mapPreprocessError (ErrUnsupportedMedia _) = (400, ''unsupported media type'')"
| "mapPreprocessError (ErrMIMEMismatch _ _) = (400, ''filename extension does not match file contents'')"
| "mapPreprocessError (ErrUploadTooLarge _) = (413, ''uploaded file exceeds size limit'')"
| "mapPreprocessError (OtherError _) = (400, ''invalid document'')"

definition mapExtractError :: "extract_error \<Rightarrow> nat \<times> string" where
  "mapExtractError err =
     (let msg = extract_error_text err in
      if Contains msg ''groq http 429'' \<or> Contains msg ''Rate limit reached''
      then (429, ''extraction provider busy; try again in a minute'')
      else if Contains msg ''groq http 413'' \<or> Contains msg ''Request too large''
      then (413, ''document too large for extraction provider; try a shorter CV or fewer pages'')
      else case err of
        ErrUnknownDocType _ \<Rightarrow> (400, ''unknown doc_type'')
      | ErrInvalidJSON _ _ \<Rightarrow> (422, ''could not process document'')
      | ErrLLM _ \<Rightarrow> (502, ''extraction provider unavailable''))"

section \<open>Rate limiting\<close>

text \<open>\<^verbatim>\<open>time.Duration.Seconds\<close> adds the whole seconds and the fraction in \<^verbatim>\<open>float64\<close>.\<close>

definition Seconds_pos :: "int \<Rightarrow> rat" where
  "Seconds_pos d = f64 (f64 (of_int (d div second)) + f64 (of_int (d mod second) / of_int second))"

definition retry_seconds :: "int \<Rightarrow> int" where
  "retry_seconds d =
     (let sec = (if d < 0 then - f64_int (Seconds_pos (- d)) else f64_int (Seconds_pos d)) in
      if sec < 1 then 1 else sec)"

definition limit_identity :: "('w, 'r) Server \<Rightarrow> request \<Rightarrow> principal \<Rightarrow> string" where
  "limit_identity s r p =
     (let sub = TrimSpace (rq_Header r ''X-Kalke-User-Sub'') in
      if isM2MPrincipal p \<and> acceptsUserForward s r \<and> sub \<noteq> [] then sub else pr_Subject p)"

text \<open>On the left the response that ends the request, on the right the headers to go on with.\<close>

definition enforceLLMRateLimit ::
    "('w, 'r) Server \<Rightarrow> request \<Rightarrow> headers \<Rightarrow> 'w \<Rightarrow> ('r response + headers) \<times> 'w" where
  "enforceLLMRateLimit s r h w =
     (case sv_limiter s of
        None \<Rightarrow> (Inl (writeErr h 429 ''rate limit unavailable''), w)
      | Some limiter \<Rightarrow>
          (case PrincipalFromContext r of
             None \<Rightarrow> (Inl (writeErr h 401 ''unauthorized''), w)
           | Some p \<Rightarrow>
               (let i = limit_identity s r p in
                if i = [] then (Inl (writeErr h 401 ''unauthorized''), w)
                else case limiter (kind_string (pr_Kind p)) i w of
                  (None, w') \<Rightarrow> (Inl (writeErr h 429 ''rate limit unavailable''), w')
                | (Some res, w') \<Rightarrow>
                    (let h' = h(''X-RateLimit-Limit'' \<mapsto> itoa (lr_Limit res),
                                ''X-RateLimit-Remaining'' \<mapsto> itoa (lr_Remaining res)) in
                     if lr_Allowed res then (Inr h', w')
                     else (Inl (writeErr (h'(''Retry-After'' \<mapsto> itoa (retry_seconds (lr_RetryAfter res))))
                             429 ''rate limit exceeded''), w')))))"

section \<open>Cache, store and consent\<close>

definition lookupCache :: "('w, 'r) Server \<Rightarrow> string \<Rightarrow> string \<Rightarrow> 'w \<Rightarrow> 'r extract_result option \<times> 'w" where
  "lookupCache s docType sha w = (case sv_cache s of None \<Rightarrow> (None, w) | Some c \<Rightarrow> rc_Get c docType sha w)"

definition invalidateCache :: "('w, 'r) Server \<Rightarrow> string \<Rightarrow> string \<Rightarrow> 'w \<Rightarrow> 'w" where
  "invalidateCache s docType sha w = (case sv_cache s of None \<Rightarrow> w | Some c \<Rightarrow> rc_Delete c docType sha w)"

text \<open>Of the prepared document \<^verbatim>\<open>persist\<close> reads the MIME type only.\<close>

record 'r persistArgs =
  pa_reqID :: string
  pa_docType :: string
  pa_shaHex :: string
  pa_filename :: string
  pa_docMIME :: string
  pa_result :: "'r extract_result"
  pa_duration :: int
  pa_refresh :: bool
  pa_clientIP :: string
  pa_userAgent :: string
  pa_authSubject :: string
  pa_authClient :: string
  pa_authEmail :: string

definition record_of :: "'r persistArgs \<Rightarrow> 'r extraction_record" where
  "record_of a =
     \<lparr>er_DocType = pa_docType a, er_ContentSHA256 = pa_shaHex a, er_Filename = pa_filename a,
      er_MIME = pa_docMIME a, er_Mode = mt_Mode (rs_Meta (pa_result a)),
      er_Model = mt_Model (rs_Meta (pa_result a)), er_RequestID = pa_reqID a, er_ClientIP = pa_clientIP a,
      er_UserAgent = pa_userAgent a, er_AuthSubject = pa_authSubject a, er_AuthClient = pa_authClient a,
      er_AuthEmail = pa_authEmail a, er_Status = ''success'', er_Result = pa_result a,
      er_Duration = pa_duration a\<rparr>"

definition set_Cache :: "string \<Rightarrow> 'r extract_result \<Rightarrow> 'r extract_result" where
  "set_Cache v res = res\<lparr>rs_Meta := (rs_Meta res)\<lparr>mt_Cache := v\<rparr>\<rparr>"

definition stamp :: "string \<Rightarrow> string \<Rightarrow> 'r extract_result \<Rightarrow> 'r extract_result" where
  "stamp sha v res = set_Cache v (res\<lparr>rs_Meta := (rs_Meta res)\<lparr>mt_ContentSHA256 := sha\<rparr>\<rparr>)"

definition store_extraction :: "('w, 'r) Server \<Rightarrow> 'r persistArgs \<Rightarrow> 'w \<Rightarrow> store_error option \<times> 'w" where
  "store_extraction s a w =
     (case sv_extractions s of
        None \<Rightarrow> (None, w)
      | Some es \<Rightarrow> if pa_refresh a then es_Replace es (record_of a) w else es_Insert es (record_of a) w)"

definition server_persist :: "('w, 'r) Server \<Rightarrow> 'r persistArgs \<Rightarrow> 'w \<Rightarrow> 'w" where
  "server_persist s a w =
     (case store_extraction s a w of
        (Some err, w') \<Rightarrow> w'
      | (None, w') \<Rightarrow>
          (case sv_cache s of
             None \<Rightarrow> w'
           | Some c \<Rightarrow> rc_Set c (pa_docType a) (pa_shaHex a) (set_Cache [] (pa_result a)) w'))"

definition recordConsent :: "('w, 'r) Server \<Rightarrow> consent_record \<Rightarrow> 'w \<Rightarrow> 'w" where
  "recordConsent s rec w = (case sv_consents s of None \<Rightarrow> w | Some cons \<Rightarrow> snd (cons rec w))"

section \<open>The platform\<close>

text \<open>
  What the handlers take from around them: the clock, the image and PDF tools, the routing of chi, the
  answer of chi to a request it does not match, the JSON encoder as far as the access log counts its
  bytes, and the log.
\<close>

datatype route = RHealth | RReady | RExtract | RList | RGet string | RUnmatchedV1 | RUnmatched

datatype level = LevelInfo | LevelWarn | LevelError

record log_entry =
  le_level :: level
  le_request_id :: string
  le_method :: string
  le_path :: string
  le_status_code :: nat
  le_bytes :: nat
  le_duration_ms :: int
  le_outcome :: string

record ('i, 'w, 'r) platform =
  pf_now :: "'w \<Rightarrow> int"
  pf_pre :: "'i pre_env"
  pf_route :: "string \<Rightarrow> string \<Rightarrow> route"
  pf_fallback :: "string \<Rightarrow> string \<Rightarrow> headers \<Rightarrow> 'r response"
  pf_encode :: "'r body \<Rightarrow> bytes"
  pf_log :: "log_entry \<Rightarrow> 'w \<Rightarrow> 'w"

section \<open>The extraction handler\<close>

text \<open>The local variables of the handler once the request is accepted.\<close>

record job =
  jb_start :: int
  jb_docType :: string
  jb_refresh :: bool
  jb_filename :: string
  jb_data :: bytes
  jb_mime :: string

definition accept_request ::
    "('i, 'w, 'r) platform \<Rightarrow> request \<Rightarrow> headers \<Rightarrow> 'w \<Rightarrow> 'r response + job" where
  "accept_request pf r h w =
     (let docType = TrimSpace (values_Get (rq_Query r) ''doc_type'') in
      if docType = [] then Inl (writeErr h 400 ''missing doc_type query param'')
      else
        let refresh = truthyQuery r ''refresh'' in
        case readUpload r of
          Inl err \<Rightarrow> Inl (writeUploadError h err)
        | Inr (filename, data) \<Rightarrow>
            if \<not> consentAccepted r docType
            then Inl (writeErr h 400 (''lgpd consent required (consent='' @ RequiredConsentPolicy docType @ '')''))
            else
              (case ValidateUpload filename data of
                 (_, _, Some err) \<Rightarrow> (let (status, msg) = mapPreprocessError err in Inl (writeErr h status msg))
               | (_, detectedMIME, None) \<Rightarrow>
                   Inr \<lparr>jb_start = pf_now pf w, jb_docType = docType, jb_refresh = refresh,
                        jb_filename = filename, jb_data = data, jb_mime = detectedMIME\<rparr>))"

definition consent_of :: "('w, 'r) Server \<Rightarrow> request \<Rightarrow> job \<Rightarrow> int \<Rightarrow> consent_record" where
  "consent_of s r j now =
     (let (clientIP, userAgent) = requestOrigin s r; (authSubject, authClient, authEmail) = resolveActor s r in
      \<lparr>cs_UserSub = authSubject, cs_UserEmail = authEmail, cs_IP = clientIP, cs_UserAgent = userAgent,
       cs_PolicyVersion = RequiredConsentPolicy (jb_docType j), cs_ContentSHA256 = shaHex (jb_data j),
       cs_DocType = jb_docType j, cs_AcceptedAt = Some now\<rparr>)"

definition args_of ::
    "('w, 'r) Server \<Rightarrow> request \<Rightarrow> job \<Rightarrow> string \<Rightarrow> 'r extract_result \<Rightarrow> bool \<Rightarrow> int \<Rightarrow> 'r persistArgs" where
  "args_of s r j mime result refresh now =
     (let (clientIP, userAgent) = requestOrigin s r; (authSubject, authClient, authEmail) = resolveActor s r in
      \<lparr>pa_reqID = rq_RequestID r, pa_docType = jb_docType j, pa_shaHex = shaHex (jb_data j),
       pa_filename = jb_filename j, pa_docMIME = mime, pa_result = result, pa_duration = now - jb_start j,
       pa_refresh = refresh, pa_clientIP = clientIP, pa_userAgent = userAgent,
       pa_authSubject = authSubject, pa_authClient = authClient, pa_authEmail = authEmail\<rparr>)"

definition prefers_vision :: "string \<Rightarrow> bool" where
  "prefers_vision docType \<longleftrightarrow>
     docType = ''identity_document'' \<or> docType = ''address_proof'' \<or> docType = ''invoice_nf''"

definition extract_hit ::
    "('i, 'w, 'r) platform \<Rightarrow> ('w, 'r) Server \<Rightarrow> request \<Rightarrow> headers \<Rightarrow> job \<Rightarrow> 'r extract_result \<Rightarrow> 'w \<Rightarrow> 'r response \<times> 'w" where
  "extract_hit pf s r h j cached0 w =
     (let cached = stamp (shaHex (jb_data j)) ''hit'' cached0;
          w' = server_persist s (args_of s r j (jb_mime j) cached False (pf_now pf w)) w in
      (writeJSON h 200 (toExtractResponse cached), w'))"

definition extract_miss ::
    "('i, 'w, 'r) platform \<Rightarrow> ('w, 'r) Server \<Rightarrow> request \<Rightarrow> headers \<Rightarrow> job \<Rightarrow> 'w \<Rightarrow> 'r response \<times> 'w" where
  "extract_miss pf s r h0 j w0 =
     (case enforceLLMRateLimit s r h0 w0 of
        (Inl resp, w) \<Rightarrow> (resp, w)
      | (Inr h, w) \<Rightarrow>
          (case PrepareWithOptions (pf_pre pf) (jb_filename j) (jb_data j) (prefers_vision (jb_docType j)) of
             Inl err \<Rightarrow> (let (status, msg) = mapPreprocessError err in (writeErr h status msg, w))
           | Inr doc \<Rightarrow>
               (case ex_Extract (sv_extractor s) (jb_docType j) doc w of
                  (Inl err, w1) \<Rightarrow> (let (status, msg) = mapExtractError err in (writeErr h status msg, w1))
                | (Inr result0, w1) \<Rightarrow>
                    (let result = stamp (shaHex (jb_data j)) ''miss'' result0;
                         w2 = server_persist s
                           (args_of s r j (pd_MIME doc) result (jb_refresh j) (pf_now pf w1)) w1 in
                     (writeJSON h 200 (toExtractResponse result), w2)))))"

definition extract_job ::
    "('i, 'w, 'r) platform \<Rightarrow> ('w, 'r) Server \<Rightarrow> request \<Rightarrow> headers \<Rightarrow> job \<Rightarrow> 'w \<Rightarrow> 'r response \<times> 'w" where
  "extract_job pf s r h j w0 =
     (let w = recordConsent s (consent_of s r j (pf_now pf w0)) w0; sha = shaHex (jb_data j) in
      if jb_refresh j then extract_miss pf s r h j (invalidateCache s (jb_docType j) sha w)
      else case lookupCache s (jb_docType j) sha w of
        (Some cached, w') \<Rightarrow> extract_hit pf s r h j cached w'
      | (None, w') \<Rightarrow> extract_miss pf s r h j w')"

definition extract_handler ::
    "('i, 'w, 'r) platform \<Rightarrow> ('w, 'r) Server \<Rightarrow> request \<Rightarrow> headers \<Rightarrow> 'w \<Rightarrow> 'r response \<times> 'w" where
  "extract_handler pf s r h w =
     (case accept_request pf r h w of
        Inl resp \<Rightarrow> (resp, w)
      | Inr j \<Rightarrow> extract_job pf s r h j w)"

section \<open>The other handlers\<close>

definition health :: "headers \<Rightarrow> 'w \<Rightarrow> 'r response \<times> 'w" where
  "health h w = (writeJSON h 200 (StatusBody ''ok''), w)"

definition ready :: "('w, 'r) Server \<Rightarrow> headers \<Rightarrow> 'w \<Rightarrow> 'r response \<times> 'w" where
  "ready s h w =
     (let (dbOK, w') = (case sv_pool s of None \<Rightarrow> (False, w) | Some ping \<Rightarrow> ping w) in
      if \<not> dbOK then (writeJSON h 503 (StatusBody ''not_ready''), w')
      else (writeJSON h 200 (StatusBody ''ready''), w'))"

definition listExtractions :: "('w, 'r) Server \<Rightarrow> request \<Rightarrow> headers \<Rightarrow> 'w \<Rightarrow> 'r response \<times> 'w" where
  "listExtractions s r h w =
     (case sv_extractions s of
        None \<Rightarrow> (writeErr h 503 ''extractions unavailable'', w)
      | Some es \<Rightarrow>
          (let subject = actor_subject s r in
           if subject = [] then (writeErr h 401 ''unauthorized'', w)
           else
             let docType = TrimSpace (values_Get (rq_Query r) ''doc_type'') in
             case es_ListBySubject es subject docType 20 w of
               (Inl err, w') \<Rightarrow> (writeErr h 500 ''list failed'', w')
             | (Inr items, w') \<Rightarrow> (writeJSON h 200 (ListBody items), w')))"

definition getExtraction :: "('w, 'r) Server \<Rightarrow> request \<Rightarrow> string \<Rightarrow> headers \<Rightarrow> 'w \<Rightarrow> 'r response \<times> 'w" where
  "getExtraction s r i h w =
     (case sv_extractions s of
        None \<Rightarrow> (writeErr h 503 ''extractions unavailable'', w)
      | Some es \<Rightarrow>
          (let subject = actor_subject s r in
           if subject = [] then (writeErr h 401 ''unauthorized'', w)
           else
             case es_GetByIDForSubject es i subject w of
               (Inl err, w') \<Rightarrow>
                 (if err = ErrNotFound then writeErr h 404 ''not found'' else writeErr h 500 ''get failed'', w')
             | (Inr item, w') \<Rightarrow> (writeJSON h 200 (ItemBody item), w')))"

section \<open>Middleware and routes\<close>

definition cors_allowed :: "('w, 'r) Server \<Rightarrow> string list" where
  "cors_allowed s = filter (\<lambda>o'. o' \<noteq> []) (map TrimSpace (sv_corsOrigins s))"

definition cors_headers :: "('w, 'r) Server \<Rightarrow> request \<Rightarrow> headers \<Rightarrow> headers" where
  "cors_headers s r h =
     (let origin = rq_Header r ''Origin'' in
      if origin \<noteq> [] \<and> List.member (cors_allowed s) origin
      then h(''Access-Control-Allow-Origin'' \<mapsto> origin, ''Vary'' \<mapsto> ''Origin'',
             ''Access-Control-Allow-Credentials'' \<mapsto> ''true'',
             ''Access-Control-Allow-Headers'' \<mapsto> ''Authorization, Content-Type'',
             ''Access-Control-Allow-Methods'' \<mapsto> ''GET, POST, OPTIONS'')
      else h)"

definition cors ::
    "('w, 'r) Server \<Rightarrow> (request \<Rightarrow> headers \<Rightarrow> 'w \<Rightarrow> 'r response \<times> 'w) \<Rightarrow> request \<Rightarrow> headers \<Rightarrow> 'w \<Rightarrow> 'r response \<times> 'w" where
  "cors s next_handler r h w =
     (let h' = cors_headers s r h in
      if rq_Method r = ''OPTIONS'' then (\<lparr>rp_Status = 204, rp_Header = h', rp_Body = NoBody\<rparr>, w)
      else next_handler r h' w)"

definition access_level :: "nat \<Rightarrow> level \<times> string" where
  "access_level status =
     (if 500 \<le> status then (LevelError, ''error'')
      else if 400 \<le> status then (LevelWarn, ''error'')
      else (LevelInfo, ''ok''))"

definition accessLog ::
    "('i, 'w, 'r) platform \<Rightarrow> (request \<Rightarrow> headers \<Rightarrow> 'w \<Rightarrow> 'r response \<times> 'w) \<Rightarrow> request \<Rightarrow> headers \<Rightarrow> 'w \<Rightarrow> 'r response \<times> 'w" where
  "accessLog pf next_handler r h w =
     (let start = pf_now pf w; reqID = rq_RequestID r;
          (resp, w') = next_handler r (if reqID = [] then h else h(''X-Request-ID'' \<mapsto> reqID)) w in
      if rq_Path r = ''/health'' \<or> rq_Path r = ''/ready'' then (resp, w')
      else
        let status = (if rp_Status resp = 0 then 200 else rp_Status resp); (lv, outcome) = access_level status in
        (resp, pf_log pf
           \<lparr>le_level = lv, le_request_id = reqID, le_method = rq_Method r, le_path = rq_Path r,
            le_status_code = status, le_bytes = length (pf_encode pf (rp_Body resp)),
            le_duration_ms = milliseconds (pf_now pf w' - start), le_outcome = outcome\<rparr> w'))"

definition authenticate ::
    "('w, 'r) Server \<Rightarrow> (request \<Rightarrow> headers \<Rightarrow> 'w \<Rightarrow> 'r response \<times> 'w) \<Rightarrow> request \<Rightarrow> headers \<Rightarrow> 'w \<Rightarrow> 'r response \<times> 'w" where
  "authenticate s next_handler r h w =
     (case sv_auth s of
        None \<Rightarrow> (writeErr h 500 ''authentication not configured'', w)
      | Some auth \<Rightarrow>
          (let raw = TrimSpace (rq_Header r ''Authorization'') in
           if \<not> HasPrefix raw ''Bearer '' then (writeErr h 401 ''missing or invalid authorization'', w)
           else
             case auth (TrimSpace (TrimPrefix raw ''Bearer '')) w of
               (None, w') \<Rightarrow> (writeErr h 401 ''unauthorized'', w')
             | (Some p, w') \<Rightarrow>
                 if \<not> HasScope p ScopeExtractWrite then (writeErr h 403 ''missing permission extract:write'', w')
                 else next_handler (WithPrincipal r p) h w'))"

definition dispatch ::
    "('i, 'w, 'r) platform \<Rightarrow> ('w, 'r) Server \<Rightarrow> request \<Rightarrow> headers \<Rightarrow> 'w \<Rightarrow> 'r response \<times> 'w" where
  "dispatch pf s r h w =
     (case pf_route pf (rq_Method r) (rq_Path r) of
        RHealth \<Rightarrow> health h w
      | RReady \<Rightarrow> ready s h w
      | RExtract \<Rightarrow> authenticate s (extract_handler pf s) r h w
      | RList \<Rightarrow> authenticate s (listExtractions s) r h w
      | RGet i \<Rightarrow> authenticate s (\<lambda>r. getExtraction s r i) r h w
      | RUnmatchedV1 \<Rightarrow> authenticate s (\<lambda>r h w. (pf_fallback pf (rq_Method r) (rq_Path r) h, w)) r h w
      | RUnmatched \<Rightarrow> (pf_fallback pf (rq_Method r) (rq_Path r) h, w))"

text \<open>The chain of the router: CORS, the access log and the routes.\<close>

definition ServeHTTP ::
    "('i, 'w, 'r) platform \<Rightarrow> ('w, 'r) Server \<Rightarrow> request \<Rightarrow> 'w \<Rightarrow> 'r response \<times> 'w" where
  "ServeHTTP pf s r w = cors s (accessLog pf (dispatch pf s)) r Map.empty w"

text \<open>A fresh request carries no principal; a server answers requests one after the other.\<close>

definition fresh :: "request \<Rightarrow> bool" where
  "fresh r \<longleftrightarrow> rq_Principal r = None"

fun serve_all ::
    "('i, 'w, 'r) platform \<Rightarrow> ('w, 'r) Server \<Rightarrow> request list \<Rightarrow> 'w \<Rightarrow> 'r response list \<times> 'w" where
  "serve_all pf s [] w = ([], w)"
| "serve_all pf s (r # rs) w =
     (case ServeHTTP pf s r w of
        (resp, w') \<Rightarrow> (case serve_all pf s rs w' of (resps, w'') \<Rightarrow> (resp # resps, w'')))"

end
