(* ===== verification/Http_Trace.thy ===== *)
theory Http_Trace
  imports Http_Server
begin

text \<open>
  The calls a request makes. Every dependency of the server is wrapped so that it writes an event, with
  its arguments and its answer, to a trace; the wrapped server answers every request exactly as the
  server does. The traces of a request are the runs of a small state machine, the protocol of the
  service, whose steps carry the conditions under which each call is made.
\<close>

section \<open>Events\<close>

datatype 'r event =
    EvAuth string "principal option"
  | EvPing bool
  | EvConsent consent_record "store_error option"
  | EvCacheGet string string "'r extract_result option"
  | EvCacheSet string string "'r extract_result"
  | EvCacheDelete string string
  | EvAllow string string "limit_result option"
  | EvExtract string prepared "extract_error + 'r extract_result"
  | EvStore bool "'r extraction_record" "store_error option"
  | EvList string string int "store_error + summary list"
  | EvGet string string "store_error + summary"
  | EvLog log_entry

type_synonym ('w, 'r) traced = "'w \<times> 'r event list"

definition tap :: "('w \<Rightarrow> 'x \<times> 'w) \<Rightarrow> ('x \<Rightarrow> 'r event) \<Rightarrow> ('w, 'r) traced \<Rightarrow> 'x \<times> ('w, 'r) traced" where
  "tap f ev wt = (case wt of (w, t) \<Rightarrow> (case f w of (x, w') \<Rightarrow> (x, w', t @ [ev x])))"

definition tap_unit :: "('w \<Rightarrow> 'w) \<Rightarrow> 'r event \<Rightarrow> ('w, 'r) traced \<Rightarrow> ('w, 'r) traced" where
  "tap_unit f ev wt = (case wt of (w, t) \<Rightarrow> (f w, t @ [ev]))"

definition traced_cache :: "('w, 'r) ResultCache \<Rightarrow> (('w, 'r) traced, 'r) ResultCache" where
  "traced_cache c =
     \<lparr>rc_Get = (\<lambda>d h. tap (rc_Get c d h) (EvCacheGet d h)),
      rc_Set = (\<lambda>d h x. tap_unit (rc_Set c d h x) (EvCacheSet d h x)),
      rc_Delete = (\<lambda>d h. tap_unit (rc_Delete c d h) (EvCacheDelete d h))\<rparr>"

definition traced_store :: "('w, 'r) ExtractionStore \<Rightarrow> (('w, 'r) traced, 'r) ExtractionStore" where
  "traced_store es =
     \<lparr>es_Insert = (\<lambda>rec. tap (es_Insert es rec) (EvStore False rec)),
      es_Replace = (\<lambda>rec. tap (es_Replace es rec) (EvStore True rec)),
      es_ListBySubject = (\<lambda>s d n. tap (es_ListBySubject es s d n) (EvList s d n)),
      es_GetByIDForSubject = (\<lambda>i s. tap (es_GetByIDForSubject es i s) (EvGet i s))\<rparr>"

definition traced_extractor :: "('w, 'r) Extractor \<Rightarrow> (('w, 'r) traced, 'r) Extractor" where
  "traced_extractor e =
     \<lparr>ex_KnownTypes = ex_KnownTypes e, ex_Extract = (\<lambda>d doc. tap (ex_Extract e d doc) (EvExtract d doc))\<rparr>"

definition traced_server :: "('w, 'r) Server \<Rightarrow> (('w, 'r) traced, 'r) Server" where
  "traced_server s =
     \<lparr>sv_extractor = traced_extractor (sv_extractor s),
      sv_pool = map_option (\<lambda>p. tap p EvPing) (sv_pool s),
      sv_cache = map_option traced_cache (sv_cache s),
      sv_extractions = map_option traced_store (sv_extractions s),
      sv_consents = map_option (\<lambda>c rec. tap (c rec) (EvConsent rec)) (sv_consents s),
      sv_trustedProxies = sv_trustedProxies s, sv_corsOrigins = sv_corsOrigins s,
      sv_auth = map_option (\<lambda>a tok. tap (a tok) (EvAuth tok)) (sv_auth s),
      sv_limiter = map_option (\<lambda>l k i. tap (l k i) (EvAllow k i)) (sv_limiter s),
      sv_m2mUserForwardSecret = sv_m2mUserForwardSecret s\<rparr>"

definition traced_platform :: "('i, 'w, 'r) platform \<Rightarrow> ('i, ('w, 'r) traced, 'r) platform" where
  "traced_platform pf =
     \<lparr>pf_now = (\<lambda>wt. pf_now pf (fst wt)), pf_pre = pf_pre pf, pf_route = pf_route pf,
      pf_fallback = pf_fallback pf, pf_encode = pf_encode pf,
      pf_log = (\<lambda>e. tap_unit (pf_log pf e) (EvLog e))\<rparr>"

definition traced_serve ::
    "('i, 'w, 'r) platform \<Rightarrow> ('w, 'r) Server \<Rightarrow> request \<Rightarrow> 'w \<Rightarrow> 'r response \<times> ('w, 'r) traced" where
  "traced_serve pf s r w = ServeHTTP (traced_platform pf) (traced_server s) r (w, [])"

definition calls :: "('i, 'w, 'r) platform \<Rightarrow> ('w, 'r) Server \<Rightarrow> request \<Rightarrow> 'w \<Rightarrow> 'r event list" where
  "calls pf s r w = snd (snd (traced_serve pf s r w))"

section \<open>The protocol\<close>

datatype 'r phase =
    Start
  | Admitted principal
  | Agreed principal string bytes
  | Missed principal string bytes
  | Granted principal string bytes
  | Ready principal string bytes "'r extract_result"
  | Saved principal string bytes "'r extract_result"
  | Done

text \<open>A request that may be worked on: a document type, an accepted consent and a valid upload.\<close>

definition acceptable :: "request \<Rightarrow> string \<Rightarrow> bytes \<Rightarrow> bool" where
  "acceptable r d data \<longleftrightarrow>
     d = TrimSpace (values_Get (rq_Query r) ''doc_type'') \<and> d \<noteq> [] \<and> consentAccepted r d
     \<and> (\<exists>f. readUpload r = Inr (f, data) \<and> snd (snd (ValidateUpload f data)) = None)"

definition agrees :: "('w, 'r) Server \<Rightarrow> request \<Rightarrow> principal \<Rightarrow> string \<Rightarrow> bytes \<Rightarrow> consent_record \<Rightarrow> bool" where
  "agrees s r p d data c \<longleftrightarrow>
     cs_UserSub c = actor_subject s (WithPrincipal r p) \<and> cs_DocType c = d
     \<and> cs_ContentSHA256 c = shaHex data \<and> cs_PolicyVersion c = RequiredConsentPolicy d"

definition attributed ::
    "('w, 'r) Server \<Rightarrow> request \<Rightarrow> principal \<Rightarrow> string \<Rightarrow> bytes \<Rightarrow> 'r extract_result \<Rightarrow> 'r extraction_record \<Rightarrow> bool" where
  "attributed s r p d data x rec \<longleftrightarrow>
     er_AuthSubject rec = actor_subject s (WithPrincipal r p) \<and> er_DocType rec = d
     \<and> er_ContentSHA256 rec = shaHex data \<and> rs_Data (er_Result rec) = rs_Data x
     \<and> mt_ContentSHA256 (rs_Meta (er_Result rec)) = shaHex data"

definition cacheable :: "bytes \<Rightarrow> 'r extract_result \<Rightarrow> 'r extract_result \<Rightarrow> bool" where
  "cacheable data x y \<longleftrightarrow>
     rs_Data y = rs_Data x \<and> mt_ContentSHA256 (rs_Meta y) = shaHex data \<and> mt_Cache (rs_Meta y) = []"

inductive step ::
    "('i, 'w, 'r) platform \<Rightarrow> ('w, 'r) Server \<Rightarrow> request \<Rightarrow> 'r phase \<Rightarrow> 'r event list \<Rightarrow> 'r phase \<Rightarrow> bool"
  for pf s r where
  admit: "HasScope p ScopeExtractWrite \<Longrightarrow> step pf s r Start [EvAuth tok (Some p)] (Admitted p)"
| deny: "\<forall>p. a = Some p \<longrightarrow> \<not> HasScope p ScopeExtractWrite \<Longrightarrow> step pf s r Start [EvAuth tok a] Done"
| ping: "step pf s r Start [EvPing b] Done"
| listed: "u = actor_subject s (WithPrincipal r p) \<Longrightarrow> u \<noteq> [] \<Longrightarrow>
    step pf s r (Admitted p) [EvList u d 20 x] Done"
| got: "u = actor_subject s (WithPrincipal r p) \<Longrightarrow> u \<noteq> [] \<Longrightarrow>
    step pf s r (Admitted p) [EvGet i u y] Done"
| agree: "acceptable r d data \<Longrightarrow> agrees s r p d data c \<Longrightarrow>
    step pf s r (Admitted p) [EvConsent c e] (Agreed p d data)"
| agree_silent: "acceptable r d data \<Longrightarrow> sv_consents s = None \<Longrightarrow>
    step pf s r (Admitted p) [] (Agreed p d data)"
| hit: "\<not> truthyQuery r ''refresh'' \<Longrightarrow>
    step pf s r (Agreed p d data) [EvCacheGet d (shaHex data) (Some x)] (Ready p d data x)"
| miss: "\<not> truthyQuery r ''refresh'' \<Longrightarrow>
    step pf s r (Agreed p d data) [EvCacheGet d (shaHex data) None] (Missed p d data)"
| purge: "truthyQuery r ''refresh'' \<Longrightarrow>
    step pf s r (Agreed p d data) [EvCacheDelete d (shaHex data)] (Missed p d data)"
| uncached: "sv_cache s = None \<Longrightarrow> step pf s r (Agreed p d data) [] (Missed p d data)"
| grant: "lr_Allowed l \<Longrightarrow> i = limit_identity s r p \<Longrightarrow> i \<noteq> [] \<Longrightarrow>
    step pf s r (Missed p d data) [EvAllow (kind_string (pr_Kind p)) i (Some l)] (Granted p d data)"
| refuse: "\<forall>l. a = Some l \<longrightarrow> \<not> lr_Allowed l \<Longrightarrow>
    step pf s r (Missed p d data) [EvAllow (kind_string (pr_Kind p)) i a] Done"
| extracted: "PrepareWithOptions (pf_pre pf) f data (prefers_vision d) = Inr doc \<Longrightarrow>
    step pf s r (Granted p d data) [EvExtract d doc (Inr x)] (Ready p d data x)"
| extract_failed: "PrepareWithOptions (pf_pre pf) f data (prefers_vision d) = Inr doc \<Longrightarrow>
    step pf s r (Granted p d data) [EvExtract d doc (Inl e)] Done"
| stored: "attributed s r p d data x rec \<Longrightarrow>
    step pf s r (Ready p d data x) [EvStore rep rec None] (Saved p d data x)"
| store_failed: "attributed s r p d data x rec \<Longrightarrow>
    step pf s r (Ready p d data x) [EvStore rep rec (Some e)] Done"
| unstored: "sv_extractions s = None \<Longrightarrow> step pf s r (Ready p d data x) [] (Saved p d data x)"
| cached: "cacheable data x y \<Longrightarrow> step pf s r (Saved p d data x) [EvCacheSet d (shaHex data) y] Done"
| finish: "step pf s r ph [] Done"

inductive run ::
    "('i, 'w, 'r) platform \<Rightarrow> ('w, 'r) Server \<Rightarrow> request \<Rightarrow> 'r phase \<Rightarrow> 'r event list \<Rightarrow> 'r phase \<Rightarrow> bool"
  for pf s r where
  run_refl: "run pf s r ph [] ph"
| run_step: "run pf s r ph es ph' \<Longrightarrow> step pf s r ph' e ph'' \<Longrightarrow> run pf s r ph (es @ e) ph''"

lemma run_trans:
  "run pf s r ph' es' ph'' \<Longrightarrow> run pf s r ph es ph' \<Longrightarrow> run pf s r ph (es @ es') ph''"
  by (induction rule: run.induct) (auto simp flip: append_assoc intro: run_step)

lemma run_one: "step pf s r ph es ph' \<Longrightarrow> run pf s r ph es ph'"
  using run_step [OF run_refl] by fastforce

lemma run_done: "run pf s r ph [] Done"
  by (rule run_one) (rule finish)

section \<open>The traced server behaves as the server\<close>

lemma tap_apply: "tap f ev (w, t) = (fst (f w), snd (f w), t @ [ev (fst (f w))])"
  by (simp add: tap_def split: prod.split)

lemma tap_unit_apply: "tap_unit f ev (w, t) = (f w, t @ [ev])"
  by (simp add: tap_unit_def)

lemma traced_server_sel:
  "sv_extractor (traced_server s) = traced_extractor (sv_extractor s)"
  "sv_pool (traced_server s) = map_option (\<lambda>p. tap p EvPing) (sv_pool s)"
  "sv_cache (traced_server s) = map_option traced_cache (sv_cache s)"
  "sv_extractions (traced_server s) = map_option traced_store (sv_extractions s)"
  "sv_consents (traced_server s) = map_option (\<lambda>c rec. tap (c rec) (EvConsent rec)) (sv_consents s)"
  "sv_trustedProxies (traced_server s) = sv_trustedProxies s"
  "sv_corsOrigins (traced_server s) = sv_corsOrigins s"
  "sv_auth (traced_server s) = map_option (\<lambda>a tok. tap (a tok) (EvAuth tok)) (sv_auth s)"
  "sv_limiter (traced_server s) = map_option (\<lambda>l k i. tap (l k i) (EvAllow k i)) (sv_limiter s)"
  "sv_m2mUserForwardSecret (traced_server s) = sv_m2mUserForwardSecret s"
  by (simp_all add: traced_server_def)

lemma traced_platform_sel:
  "pf_now (traced_platform pf) (w, t) = pf_now pf w" "pf_pre (traced_platform pf) = pf_pre pf"
  "pf_route (traced_platform pf) = pf_route pf" "pf_fallback (traced_platform pf) = pf_fallback pf"
  "pf_encode (traced_platform pf) = pf_encode pf"
  "pf_log (traced_platform pf) e (w, t) = (pf_log pf e w, t @ [EvLog e])"
  by (simp_all add: traced_platform_def tap_unit_apply)

lemma traced_cache_sel:
  "rc_Get (traced_cache c) d h (w, t) = (fst (rc_Get c d h w), snd (rc_Get c d h w), t @ [EvCacheGet d h (fst (rc_Get c d h w))])"
  "rc_Set (traced_cache c) d h x (w, t) = (rc_Set c d h x w, t @ [EvCacheSet d h x])"
  "rc_Delete (traced_cache c) d h (w, t) = (rc_Delete c d h w, t @ [EvCacheDelete d h])"
  by (simp_all add: traced_cache_def tap_apply tap_unit_apply)

lemma traced_store_sel:
  "es_Insert (traced_store es) rec (w, t) =
     (fst (es_Insert es rec w), snd (es_Insert es rec w), t @ [EvStore False rec (fst (es_Insert es rec w))])"
  "es_Replace (traced_store es) rec (w, t) =
     (fst (es_Replace es rec w), snd (es_Replace es rec w), t @ [EvStore True rec (fst (es_Replace es rec w))])"
  "es_ListBySubject (traced_store es) u d n (w, t) =
     (fst (es_ListBySubject es u d n w), snd (es_ListBySubject es u d n w), t @ [EvList u d n (fst (es_ListBySubject es u d n w))])"
  "es_GetByIDForSubject (traced_store es) i u (w, t) =
     (fst (es_GetByIDForSubject es i u w), snd (es_GetByIDForSubject es i u w), t @ [EvGet i u (fst (es_GetByIDForSubject es i u w))])"
  by (simp_all add: traced_store_def tap_apply)

lemma traced_extract:
  "ex_Extract (traced_extractor e) d doc (w, t) =
     (fst (ex_Extract e d doc w), snd (ex_Extract e d doc w), t @ [EvExtract d doc (fst (ex_Extract e d doc w))])"
  by (simp add: traced_extractor_def tap_apply)

lemma traced_pure:
  "acceptsUserForward (traced_server s) r = acceptsUserForward s r"
  by (simp add: acceptsUserForward_def traced_server_sel)

lemma traced_pure2:
  "resolveActor (traced_server s) r = resolveActor s r"
  "requestOrigin (traced_server s) r = requestOrigin s r"
  "limit_identity (traced_server s) r p = limit_identity s r p"
  "cors_headers (traced_server s) r h = cors_headers s r h"
  unfolding resolveActor_def requestOrigin_def limit_identity_def cors_headers_def cors_allowed_def
    traced_pure traced_server_sel by (rule refl)+

lemma traced_pure3:
  "consent_of (traced_server s) r j n = consent_of s r j n"
  "args_of (traced_server s) r j mime x b n = args_of s r j mime x b n"
  "actor_subject (traced_server s) r = actor_subject s r"
  by (simp_all add: consent_of_def args_of_def actor_subject_def traced_pure2)

lemma traced_accept: "accept_request (traced_platform pf) r h (w, t) = accept_request pf r h w"
  unfolding accept_request_def traced_platform_sel ..

lemmas traced = traced_server_sel traced_platform_sel traced_cache_sel traced_store_sel traced_extract
  traced_pure traced_pure2 traced_pure3 traced_accept tap_apply tap_unit_apply

section \<open>Every request follows the protocol\<close>

text \<open>The wrapped operation does what the operation does, and what it appends to the trace is a run.\<close>

definition simulates ::
    "('i, 'w, 'r) platform \<Rightarrow> ('w, 'r) Server \<Rightarrow> request \<Rightarrow> 'r phase \<Rightarrow> (('w, 'r) traced \<Rightarrow> 'x \<times> ('w, 'r) traced)
      \<Rightarrow> ('w \<Rightarrow> 'x \<times> 'w) \<Rightarrow> ('x \<Rightarrow> 'r phase) \<Rightarrow> bool" where
  "simulates pf s r ph m' m post \<longleftrightarrow>
     (\<forall>w t. \<exists>es. m' (w, t) = (fst (m w), snd (m w), t @ es) \<and> run pf s r ph es (post (fst (m w))))"

lemma simulatesI:
  "(\<And>w t. \<exists>es. m' (w, t) = (fst (m w), snd (m w), t @ es) \<and> run pf s r ph es (post (fst (m w)))) \<Longrightarrow>
     simulates pf s r ph m' m post"
  by (simp add: simulates_def)

lemma simulatesD:
  assumes "simulates pf s r ph m' m post"
  obtains es where "m' (w, t) = (fst (m w), snd (m w), t @ es)" and "run pf s r ph es (post (fst (m w)))"
  using assms unfolding simulates_def by blast

text \<open>Sequencing, and operations whose only result is the new state.\<close>

definition lift_unit :: "('w \<Rightarrow> 'w) \<Rightarrow> 'w \<Rightarrow> unit \<times> 'w" where
  "lift_unit f w = ((), f w)"

lemma simulates_bind:
  assumes "simulates pf s r ph m' m mid"
    and "\<And>x. simulates pf s r (mid x) (k' x) (k x) post"
  shows "simulates pf s r ph (\<lambda>wt. case m' wt of (x, wt') \<Rightarrow> k' x wt') (\<lambda>w. case m w of (x, w') \<Rightarrow> k x w') post"
proof (rule simulatesI)
  fix w t
  obtain es where m: "m' (w, t) = (fst (m w), snd (m w), t @ es)" and r1: "run pf s r ph es (mid (fst (m w)))"
    by (rule simulatesD [OF assms(1)])
  obtain es' where k: "k' (fst (m w)) (snd (m w), t @ es) =
      (fst (k (fst (m w)) (snd (m w))), snd (k (fst (m w)) (snd (m w))), (t @ es) @ es')"
    and r2: "run pf s r (mid (fst (m w))) es' (post (fst (k (fst (m w)) (snd (m w)))))"
    by (rule simulatesD [OF assms(2)])
  show "\<exists>es. (case m' (w, t) of (x, wt') \<Rightarrow> k' x wt') =
      (fst (case m w of (x, w') \<Rightarrow> k x w'), snd (case m w of (x, w') \<Rightarrow> k x w'), t @ es)
      \<and> run pf s r ph es (post (fst (case m w of (x, w') \<Rightarrow> k x w')))"
    by (rule exI [of _ "es @ es'"]) (use m k run_trans [OF r2 r1] in \<open>simp add: case_prod_beta\<close>)
qed

lemma simulates_return: "run pf s r ph [] (post x) \<Longrightarrow> simulates pf s r ph (\<lambda>wt. (x, wt)) (\<lambda>w. (x, w)) post"
  by (rule simulatesI) (auto intro!: exI [of _ "[]"])

lemma simulates_done: "simulates pf s r ph (\<lambda>wt. (x, wt)) (\<lambda>w. (x, w)) (\<lambda>_. Done)"
  by (rule simulates_return) (rule run_done)

lemma simulates_tap:
  "(\<And>x. step pf s r ph [ev x] (post x)) \<Longrightarrow> simulates pf s r ph (tap f ev) f post"
  by (rule simulatesI) (auto simp: tap_apply intro!: exI [of _ "[_]"] run_one)

lemma WithPrincipal_sel:
  "rq_Query (WithPrincipal r p) = rq_Query r" "rq_Header (WithPrincipal r p) = rq_Header r"
  "rq_Form (WithPrincipal r p) = rq_Form r" "rq_RequestID (WithPrincipal r p) = rq_RequestID r"
  "rq_Method (WithPrincipal r p) = rq_Method r" "rq_Path (WithPrincipal r p) = rq_Path r"
  "PrincipalFromContext (WithPrincipal r p) = Some p"
  by (simp_all add: WithPrincipal_def PrincipalFromContext_def)

lemma WithPrincipal_pure:
  "truthyQuery (WithPrincipal r p) k = truthyQuery r k"
  "consentAccepted (WithPrincipal r p) d = consentAccepted r d"
  "readUpload (WithPrincipal r p) = readUpload r"
  "acceptsUserForward s (WithPrincipal r p) = acceptsUserForward s r"
  "limit_identity s (WithPrincipal r p) q = limit_identity s r q"
  unfolding truthyQuery_def consentAccepted_def consent_value_def FormValue_def readUpload_def
    acceptsUserForward_def limit_identity_def WithPrincipal_sel by (rule refl)+

lemma accept_request_acceptable:
  assumes "accept_request pf (WithPrincipal r p) h w = Inr j"
  shows "acceptable r (jb_docType j) (jb_data j)" "jb_refresh j = truthyQuery r ''refresh''"
  using assms
  by (auto simp: accept_request_def acceptable_def Let_def WithPrincipal_sel WithPrincipal_pure
      split: if_splits sum.splits prod.splits option.splits)

lemma simulates_limit:
  "simulates pf s r (Missed p d data) (enforceLLMRateLimit (traced_server s) (WithPrincipal r p) h)
     (enforceLLMRateLimit s (WithPrincipal r p) h) (case_sum (\<lambda>_. Done) (\<lambda>_. Granted p d data))"
proof (rule simulatesI)
  fix w t
  let ?r = "WithPrincipal r p" and ?k = "kind_string (pr_Kind p)" and ?i = "limit_identity s r p"
  show "\<exists>es. enforceLLMRateLimit (traced_server s) ?r h (w, t) =
      (fst (enforceLLMRateLimit s ?r h w), snd (enforceLLMRateLimit s ?r h w), t @ es)
      \<and> run pf s r (Missed p d data) es (case_sum (\<lambda>_. Done) (\<lambda>_. Granted p d data) (fst (enforceLLMRateLimit s ?r h w)))"
  proof (cases "sv_limiter s = None \<or> ?i = []")
    case True
    then show ?thesis
      by (intro exI [of _ "[]"])
        (auto simp: enforceLLMRateLimit_def traced WithPrincipal_sel WithPrincipal_pure Let_def run_done
          split: option.split)
  next
    case False
    then obtain l where l: "sv_limiter s = Some l" and i: "?i \<noteq> []" by auto
    obtain a w' where a: "l ?k ?i w = (a, w')" by (cases "l ?k ?i w")
    show ?thesis
    proof (cases "\<exists>x. a = Some x \<and> lr_Allowed x")
      case True
      then obtain x where x: "a = Some x" "lr_Allowed x" by blast
      from x l i a show ?thesis
        by (intro exI [of _ "[EvAllow ?k ?i a]"])
          (simp add: enforceLLMRateLimit_def traced WithPrincipal_sel WithPrincipal_pure Let_def run_one grant)
    next
      case False
      with l i a show ?thesis
        by (intro exI [of _ "[EvAllow ?k ?i a]"])
          (cases a; simp add: enforceLLMRateLimit_def traced WithPrincipal_sel WithPrincipal_pure Let_def
            run_one refuse)
    qed
  qed
qed

lemma result_stamp:
  "rs_Data (stamp h v x) = rs_Data x" "mt_ContentSHA256 (rs_Meta (stamp h v x)) = h"
  "rs_Data (set_Cache v x) = rs_Data x" "mt_Cache (rs_Meta (set_Cache v x)) = v"
  "mt_ContentSHA256 (rs_Meta (set_Cache v x)) = mt_ContentSHA256 (rs_Meta x)"
  "rs_DocType (stamp h v x) = rs_DocType x"
  by (simp_all add: stamp_def set_Cache_def)

lemma args_of_sel:
  "pa_docType (args_of s r j mime x b n) = jb_docType j" "pa_shaHex (args_of s r j mime x b n) = shaHex (jb_data j)"
  "pa_result (args_of s r j mime x b n) = x" "pa_refresh (args_of s r j mime x b n) = b"
  "pa_authSubject (args_of s r j mime x b n) = actor_subject s r"
  by (simp_all add: args_of_def actor_subject_def case_prod_beta Let_def)

lemma record_of_sel:
  "er_DocType (record_of a) = pa_docType a" "er_ContentSHA256 (record_of a) = pa_shaHex a"
  "er_AuthSubject (record_of a) = pa_authSubject a" "er_Result (record_of a) = pa_result a"
  by (simp_all add: record_of_def)

lemma attributed_args:
  "attributed s r p (jb_docType j) (jb_data j) x
     (record_of (args_of s (WithPrincipal r p) j mime (stamp (shaHex (jb_data j)) v x) b n))"
  by (simp add: attributed_def record_of_sel args_of_sel result_stamp)

lemma cacheable_args: "cacheable data x (set_Cache [] (stamp (shaHex data) v x))"
  by (simp add: cacheable_def result_stamp)

lemma simulates_persist:
  assumes "attributed s r p d data x (record_of a)" and "pa_docType a = d" and "pa_shaHex a = shaHex data"
    and "cacheable data x (set_Cache [] (pa_result a))"
  shows "\<exists>es. server_persist (traced_server s) a (w, t) = (server_persist s a w, t @ es)
    \<and> run pf s r (Ready p d data x) es Done"
proof -
  obtain es1 where st: "store_extraction (traced_server s) a (w, t) =
      (fst (store_extraction s a w), snd (store_extraction s a w), t @ es1)"
    and r1: "run pf s r (Ready p d data x) es1 (if fst (store_extraction s a w) = None then Saved p d data x else Done)"
  proof (cases "sv_extractions s")
    case None
    show thesis
      by (rule that [of "[]"]) (use None in \<open>simp_all add: store_extraction_def traced run_one unstored\<close>)
  next
    case (Some e)
    let ?op = "if pa_refresh a then es_Replace e (record_of a) w else es_Insert e (record_of a) w"
    have op: "store_extraction s a w = ?op" using Some by (simp add: store_extraction_def)
    have "step pf s r (Ready p d data x) [EvStore (pa_refresh a) (record_of a) (fst ?op)]
        (if fst ?op = None then Saved p d data x else Done)"
      using assms(1) by (cases "fst ?op") (auto intro: stored store_failed)
    then have "run pf s r (Ready p d data x) [EvStore (pa_refresh a) (record_of a) (fst (store_extraction s a w))]
        (if fst (store_extraction s a w) = None then Saved p d data x else Done)"
      unfolding op by (rule run_one)
    then show thesis
      by (rule that [rotated]) (use Some in \<open>simp add: store_extraction_def traced\<close>)
  qed
  show ?thesis
  proof (cases "fst (store_extraction s a w) = None \<and> sv_cache s \<noteq> None")
    case True
    then obtain c where c: "sv_cache s = Some c" and ok: "fst (store_extraction s a w) = None" by auto
    have "run pf s r (Saved p d data x) [EvCacheSet d (shaHex data) (set_Cache [] (pa_result a))] Done"
      using assms(4) by (intro run_one cached)
    then have "run pf s r (Ready p d data x) (es1 @ [EvCacheSet d (shaHex data) (set_Cache [] (pa_result a))]) Done"
      by (rule run_trans) (use r1 ok in simp)
    moreover have "server_persist (traced_server s) a (w, t) =
        (server_persist s a w, t @ es1 @ [EvCacheSet d (shaHex data) (set_Cache [] (pa_result a))])"
      using c ok st assms(2,3) by (simp add: server_persist_def traced case_prod_beta)
    ultimately show ?thesis by blast
  next
    case False
    have "run pf s r (Ready p d data x) (es1 @ []) Done"
      by (rule run_trans [OF run_done r1])
    moreover have "server_persist (traced_server s) a (w, t) = (server_persist s a w, t @ es1)"
      using False st by (auto simp: server_persist_def traced case_prod_beta split: option.split)
    ultimately show ?thesis by auto
  qed
qed

lemma persist_args:
  "\<exists>es. server_persist (traced_server s)
       (args_of s (WithPrincipal r p) j mime (stamp (shaHex (jb_data j)) v x) b n) (w, t) =
     (server_persist s (args_of s (WithPrincipal r p) j mime (stamp (shaHex (jb_data j)) v x) b n) w, t @ es)
     \<and> run pf s r (Ready p (jb_docType j) (jb_data j) x) es Done"
  by (rule simulates_persist [OF attributed_args]) (simp_all add: args_of_sel cacheable_args)

lemma simulates_hit:
  "simulates pf s r (Ready p (jb_docType j) (jb_data j) x)
     (extract_hit (traced_platform pf) (traced_server s) (WithPrincipal r p) h j x)
     (extract_hit pf s (WithPrincipal r p) h j x) (\<lambda>_. Done)"
proof (rule simulatesI)
  fix w t
  let ?a = "args_of s (WithPrincipal r p) j (jb_mime j) (stamp (shaHex (jb_data j)) ''hit'' x) False (pf_now pf w)"
  obtain es where "server_persist (traced_server s) ?a (w, t) = (server_persist s ?a w, t @ es)"
    and "run pf s r (Ready p (jb_docType j) (jb_data j) x) es Done"
    using persist_args [where s = s and pf = pf and mime = "jb_mime j"] by blast
  then show "\<exists>es. extract_hit (traced_platform pf) (traced_server s) (WithPrincipal r p) h j x (w, t) =
      (fst (extract_hit pf s (WithPrincipal r p) h j x w), snd (extract_hit pf s (WithPrincipal r p) h j x w), t @ es)
      \<and> run pf s r (Ready p (jb_docType j) (jb_data j) x) es Done"
    by (auto simp: extract_hit_def traced Let_def)
qed

lemma simulates_extract:
  assumes "PrepareWithOptions (pf_pre pf) (jb_filename j) (jb_data j) (prefers_vision (jb_docType j)) = Inr doc"
  shows "simulates pf s r (Granted p (jb_docType j) (jb_data j))
     (\<lambda>wt. case ex_Extract (sv_extractor (traced_server s)) (jb_docType j) doc wt of
        (Inl err, w1) \<Rightarrow> (let (status, msg) = mapExtractError err in (writeErr h status msg, w1))
      | (Inr x, w1) \<Rightarrow>
          (let result = stamp (shaHex (jb_data j)) ''miss'' x;
               w2 = server_persist (traced_server s) (args_of (traced_server s) (WithPrincipal r p) j (pd_MIME doc) result
                 (jb_refresh j) (pf_now (traced_platform pf) w1)) w1 in
           (writeJSON h 200 (toExtractResponse result), w2)))
     (\<lambda>w. case ex_Extract (sv_extractor s) (jb_docType j) doc w of
        (Inl err, w1) \<Rightarrow> (let (status, msg) = mapExtractError err in (writeErr h status msg, w1))
      | (Inr x, w1) \<Rightarrow>
          (let result = stamp (shaHex (jb_data j)) ''miss'' x;
               w2 = server_persist s (args_of s (WithPrincipal r p) j (pd_MIME doc) result
                 (jb_refresh j) (pf_now pf w1)) w1 in
           (writeJSON h 200 (toExtractResponse result), w2)))
     (\<lambda>_. Done)"
proof (rule simulates_bind [where mid = "case_sum (\<lambda>_. Done) (Ready p (jb_docType j) (jb_data j))"])
  have "step pf s r (Granted p (jb_docType j) (jb_data j)) [EvExtract (jb_docType j) doc x]
      (case_sum (\<lambda>_. Done) (Ready p (jb_docType j) (jb_data j)) x)" for x :: "extract_error + 'c extract_result"
    using assms by (cases x) (auto intro: extracted extract_failed)
  then show "simulates pf s r (Granted p (jb_docType j) (jb_data j))
     (ex_Extract (sv_extractor (traced_server s)) (jb_docType j) doc) (ex_Extract (sv_extractor s) (jb_docType j) doc)
     (case_sum (\<lambda>_. Done) (Ready p (jb_docType j) (jb_data j)))"
    by (simp add: traced_server_sel traced_extractor_def simulates_tap)
next
  fix x :: "extract_error + 'c extract_result"
  show "simulates pf s r (case_sum (\<lambda>_. Done) (Ready p (jb_docType j) (jb_data j)) x)
     (\<lambda>w1. case x of Inl err \<Rightarrow> (let (status, msg) = mapExtractError err in (writeErr h status msg, w1))
      | Inr x \<Rightarrow>
          (let result = stamp (shaHex (jb_data j)) ''miss'' x;
               w2 = server_persist (traced_server s) (args_of (traced_server s) (WithPrincipal r p) j (pd_MIME doc) result
                 (jb_refresh j) (pf_now (traced_platform pf) w1)) w1 in
           (writeJSON h 200 (toExtractResponse result), w2)))
     (\<lambda>w1. case x of Inl err \<Rightarrow> (let (status, msg) = mapExtractError err in (writeErr h status msg, w1))
      | Inr x \<Rightarrow>
          (let result = stamp (shaHex (jb_data j)) ''miss'' x;
               w2 = server_persist s (args_of s (WithPrincipal r p) j (pd_MIME doc) result
                 (jb_refresh j) (pf_now pf w1)) w1 in
           (writeJSON h 200 (toExtractResponse result), w2)))
     (\<lambda>_. Done)"
  proof (cases x)
    case (Inl e)
    then show ?thesis by (simp add: case_prod_beta simulates_done)
  next
    case (Inr y)
    show ?thesis
      unfolding Inr sum.case Let_def using persist_args by (auto simp: traced intro!: simulatesI)
  qed
qed

lemma simulates_miss:
  "simulates pf s r (Missed p (jb_docType j) (jb_data j))
     (extract_miss (traced_platform pf) (traced_server s) (WithPrincipal r p) h j)
     (extract_miss pf s (WithPrincipal r p) h j) (\<lambda>_. Done)"
proof -
  let ?prep = "PrepareWithOptions (pf_pre pf) (jb_filename j) (jb_data j) (prefers_vision (jb_docType j))"
  show ?thesis
    unfolding extract_miss_def [abs_def] traced_platform_sel(2)
  proof (rule simulates_bind [OF simulates_limit], goal_cases)
    case (1 x)
    show ?case
    proof (cases x)
      case (Inl resp)
      show ?thesis unfolding Inl sum.case by (rule simulates_done)
    next
      case (Inr h')
      show ?thesis
      proof (cases ?prep)
        case (Inl e)
        show ?thesis unfolding Inl Inr sum.case case_prod_beta Let_def by (rule simulates_done)
      next
        case prep: (Inr doc)
        show ?thesis unfolding Inr prep sum.case by (rule simulates_extract [OF prep])
      qed
    qed
  qed
qed

lemma simulates_after_consent:
  "simulates pf s r (Agreed p (jb_docType j) (jb_data j))
     (\<lambda>wt. if jb_refresh j
        then extract_miss (traced_platform pf) (traced_server s) (WithPrincipal r p) h j
          (invalidateCache (traced_server s) (jb_docType j) (shaHex (jb_data j)) wt)
        else case lookupCache (traced_server s) (jb_docType j) (shaHex (jb_data j)) wt of
          (Some x, wt') \<Rightarrow> extract_hit (traced_platform pf) (traced_server s) (WithPrincipal r p) h j x wt'
        | (None, wt') \<Rightarrow> extract_miss (traced_platform pf) (traced_server s) (WithPrincipal r p) h j wt')
     (\<lambda>w. if jb_refresh j
        then extract_miss pf s (WithPrincipal r p) h j (invalidateCache s (jb_docType j) (shaHex (jb_data j)) w)
        else case lookupCache s (jb_docType j) (shaHex (jb_data j)) w of
          (Some x, w') \<Rightarrow> extract_hit pf s (WithPrincipal r p) h j x w'
        | (None, w') \<Rightarrow> extract_miss pf s (WithPrincipal r p) h j w')
     (\<lambda>_. Done)" if "jb_refresh j = truthyQuery r ''refresh''"
proof (cases "jb_refresh j")
  case True
  let ?d = "jb_docType j" and ?h = "shaHex (jb_data j)"
  have "simulates pf s r (Agreed p ?d (jb_data j)) (lift_unit (invalidateCache (traced_server s) ?d ?h))
      (lift_unit (invalidateCache s ?d ?h)) (\<lambda>_. Missed p ?d (jb_data j))"
  proof (cases "sv_cache s")
    case None
    then show ?thesis
      by (intro simulatesI exI [of _ "[]"])
        (simp add: lift_unit_def invalidateCache_def traced run_one uncached)
  next
    case (Some c)
    show ?thesis
      by (intro simulatesI exI [of _ "[EvCacheDelete ?d ?h]"])
        (use Some True that in \<open>simp add: lift_unit_def invalidateCache_def traced run_one purge\<close>)
  qed
  from simulates_bind [OF this simulates_miss] True show ?thesis by (simp add: lift_unit_def)
next
  case False
  let ?d = "jb_docType j" and ?h = "shaHex (jb_data j)"
  let ?mid = "case_option (Missed p ?d (jb_data j)) (Ready p ?d (jb_data j))"
  have "simulates pf s r (Agreed p ?d (jb_data j)) (lookupCache (traced_server s) ?d ?h) (lookupCache s ?d ?h) ?mid"
  proof (cases "sv_cache s")
    case None
    then show ?thesis
      by (intro simulatesI exI [of _ "[]"]) (simp add: lookupCache_def traced run_one uncached)
  next
    case (Some c)
    have "step pf s r (Agreed p ?d (jb_data j)) [EvCacheGet ?d ?h x] (?mid x)" for x
      using False that by (cases x) (auto intro: hit miss)
    then have "simulates pf s r (Agreed p ?d (jb_data j)) (tap (rc_Get c ?d ?h) (EvCacheGet ?d ?h)) (rc_Get c ?d ?h) ?mid"
      by (rule simulates_tap)
    with Some show ?thesis by (simp add: lookupCache_def [abs_def] traced_server_sel traced_cache_def)
  qed
  then have "simulates pf s r (Agreed p ?d (jb_data j))
      (\<lambda>wt. case lookupCache (traced_server s) ?d ?h wt of
          (Some x, wt') \<Rightarrow> extract_hit (traced_platform pf) (traced_server s) (WithPrincipal r p) h j x wt'
        | (None, wt') \<Rightarrow> extract_miss (traced_platform pf) (traced_server s) (WithPrincipal r p) h j wt')
      (\<lambda>w. case lookupCache s ?d ?h w of
          (Some x, w') \<Rightarrow> extract_hit pf s (WithPrincipal r p) h j x w'
        | (None, w') \<Rightarrow> extract_miss pf s (WithPrincipal r p) h j w') (\<lambda>_. Done)"
  proof (rule simulates_bind, goal_cases)
    case (1 x)
    show ?case by (cases x) (simp_all add: simulates_miss simulates_hit)
  qed
  with False show ?thesis by simp
qed

lemma consent_of_agrees:
  "agrees s r p (jb_docType j) (jb_data j) (consent_of s (WithPrincipal r p) j n)"
  by (simp add: agrees_def consent_of_def actor_subject_def case_prod_beta Let_def)

lemma simulates_job:
  assumes "acceptable r (jb_docType j) (jb_data j)" and "jb_refresh j = truthyQuery r ''refresh''"
  shows "simulates pf s r (Admitted p)
     (extract_job (traced_platform pf) (traced_server s) (WithPrincipal r p) h j)
     (extract_job pf s (WithPrincipal r p) h j) (\<lambda>_. Done)"
proof -
  let ?r = "WithPrincipal r p" and ?d = "jb_docType j"
  have "simulates pf s r (Admitted p)
      (lift_unit (\<lambda>wt. recordConsent (traced_server s) (consent_of (traced_server s) ?r j (pf_now (traced_platform pf) wt)) wt))
      (lift_unit (\<lambda>w. recordConsent s (consent_of s ?r j (pf_now pf w)) w)) (\<lambda>_. Agreed p ?d (jb_data j))"
  proof (rule simulatesI, goal_cases)
    case (1 w t)
    show ?case
    proof (cases "sv_consents s")
      case None
      then show ?thesis
        by (intro exI [of _ "[]"]) (simp add: lift_unit_def recordConsent_def traced run_one agree_silent assms)
    next
      case (Some c)
      let ?c = "consent_of s ?r j (pf_now pf w)"
      have "run pf s r (Admitted p) [EvConsent ?c (fst (c ?c w))] (Agreed p ?d (jb_data j))"
        by (intro run_one agree assms consent_of_agrees)
      with Some show ?thesis
        by (intro exI [of _ "[EvConsent ?c (fst (c ?c w))]"]) (simp add: lift_unit_def recordConsent_def traced)
    qed
  qed
  from simulates_bind [OF this simulates_after_consent [OF assms(2), where h = h]] show ?thesis
    unfolding extract_job_def [abs_def] Let_def by (simp add: lift_unit_def)
qed

lemma simulates_extract_handler:
  "simulates pf s r (Admitted p) (extract_handler (traced_platform pf) (traced_server s) (WithPrincipal r p) h)
     (extract_handler pf s (WithPrincipal r p) h) (\<lambda>_. Done)"
proof (rule simulatesI, goal_cases)
  case (1 w t)
  show ?case
  proof (cases "accept_request pf (WithPrincipal r p) h w")
    case (Inl resp)
    then show ?thesis by (intro exI [of _ "[]"]) (simp add: extract_handler_def traced run_done)
  next
    case (Inr j)
    from simulates_job [OF accept_request_acceptable [OF Inr], where pf = pf and s = s and p = p and h = h]
    show ?thesis using Inr by (simp add: extract_handler_def traced simulates_def)
  qed
qed

lemma simulates_list:
  "simulates pf s r (Admitted p) (listExtractions (traced_server s) (WithPrincipal r p) h)
     (listExtractions s (WithPrincipal r p) h) (\<lambda>_. Done)"
proof (cases "sv_extractions s = None \<or> actor_subject s (WithPrincipal r p) = []")
  case True
  then show ?thesis
    by (intro simulatesI exI [of _ "[]"]) (auto simp: listExtractions_def traced Let_def run_done split: option.split)
next
  case False
  then obtain es where es: "sv_extractions s = Some es" and u: "actor_subject s (WithPrincipal r p) \<noteq> []" by auto
  let ?u = "actor_subject s (WithPrincipal r p)" and ?d = "TrimSpace (values_Get (rq_Query r) ''doc_type'')"
  show ?thesis
  proof (rule simulatesI, goal_cases)
    case (1 w t)
    have "run pf s r (Admitted p) [EvList ?u ?d 20 (fst (es_ListBySubject es ?u ?d 20 w))] Done"
      using u by (intro run_one listed) simp_all
    with es u show ?case
      by (intro exI [of _ "[EvList ?u ?d 20 (fst (es_ListBySubject es ?u ?d 20 w))]"])
        (cases "es_ListBySubject es ?u ?d 20 w"; cases "fst (es_ListBySubject es ?u ?d 20 w)";
         simp add: listExtractions_def traced WithPrincipal_sel Let_def)
  qed
qed

lemma simulates_get:
  "simulates pf s r (Admitted p) (getExtraction (traced_server s) (WithPrincipal r p) i h)
     (getExtraction s (WithPrincipal r p) i h) (\<lambda>_. Done)"
proof (cases "sv_extractions s = None \<or> actor_subject s (WithPrincipal r p) = []")
  case True
  then show ?thesis
    by (intro simulatesI exI [of _ "[]"]) (auto simp: getExtraction_def traced Let_def run_done split: option.split)
next
  case False
  then obtain es where es: "sv_extractions s = Some es" and u: "actor_subject s (WithPrincipal r p) \<noteq> []" by auto
  let ?u = "actor_subject s (WithPrincipal r p)"
  show ?thesis
  proof (rule simulatesI, goal_cases)
    case (1 w t)
    have "run pf s r (Admitted p) [EvGet i ?u (fst (es_GetByIDForSubject es i ?u w))] Done"
      using u by (intro run_one got) simp_all
    with es u show ?case
      by (intro exI [of _ "[EvGet i ?u (fst (es_GetByIDForSubject es i ?u w))]"])
        (cases "es_GetByIDForSubject es i ?u w"; cases "fst (es_GetByIDForSubject es i ?u w)";
         simp add: getExtraction_def traced Let_def)
  qed
qed

lemma simulates_authenticate:
  assumes "\<And>p h. simulates pf s r (Admitted p) (n' (WithPrincipal r p) h) (n (WithPrincipal r p) h) (\<lambda>_. Done)"
  shows "simulates pf s r Start (authenticate (traced_server s) n' r h) (authenticate s n r h) (\<lambda>_. Done)"
proof (cases "sv_auth s = None \<or> \<not> HasPrefix (TrimSpace (rq_Header r ''Authorization'')) ''Bearer ''")
  case True
  then show ?thesis
    by (intro simulatesI exI [of _ "[]"]) (auto simp: authenticate_def traced Let_def run_done split: option.split)
next
  case False
  let ?raw = "TrimSpace (rq_Header r ''Authorization'')"
  let ?tok = "TrimSpace (TrimPrefix ?raw ''Bearer '')"
  from False obtain a where a: "sv_auth s = Some a" and raw: "HasPrefix ?raw ''Bearer ''" by auto
  let ?mid = "\<lambda>x. case x of Some p \<Rightarrow> if HasScope p ScopeExtractWrite then Admitted p else Done | None \<Rightarrow> Done"
  have "simulates pf s r Start (tap (a ?tok) (EvAuth ?tok)) (a ?tok) ?mid"
    by (rule simulates_tap) (auto intro: admit deny split: option.split)
  from simulates_bind [OF this, where post = "\<lambda>_. Done"
      and k' = "\<lambda>x wt. case x of None \<Rightarrow> (writeErr h 401 ''unauthorized'', wt)
        | Some p \<Rightarrow> if \<not> HasScope p ScopeExtractWrite then (writeErr h 403 ''missing permission extract:write'', wt)
            else n' (WithPrincipal r p) h wt"
      and k = "\<lambda>x w. case x of None \<Rightarrow> (writeErr h 401 ''unauthorized'', w)
        | Some p \<Rightarrow> if \<not> HasScope p ScopeExtractWrite then (writeErr h 403 ''missing permission extract:write'', w)
            else n (WithPrincipal r p) h w"]
  have "simulates pf s r Start
      (\<lambda>wt. case tap (a ?tok) (EvAuth ?tok) wt of (x, wt') \<Rightarrow> case x of None \<Rightarrow> (writeErr h 401 ''unauthorized'', wt')
        | Some p \<Rightarrow> if \<not> HasScope p ScopeExtractWrite then (writeErr h 403 ''missing permission extract:write'', wt')
            else n' (WithPrincipal r p) h wt')
      (\<lambda>w. case a ?tok w of (x, w') \<Rightarrow> case x of None \<Rightarrow> (writeErr h 401 ''unauthorized'', w')
        | Some p \<Rightarrow> if \<not> HasScope p ScopeExtractWrite then (writeErr h 403 ''missing permission extract:write'', w')
            else n (WithPrincipal r p) h w') (\<lambda>_. Done)"
    using assms by (auto simp: simulates_done split: option.split)
  then show ?thesis
    unfolding authenticate_def [abs_def] Let_def traced_server_sel a option.map option.case using raw by simp
qed

lemma simulates_ready: "simulates pf s r Start (ready (traced_server s) h) (ready s h) (\<lambda>_. Done)"
proof (cases "sv_pool s")
  case None
  then show ?thesis by (intro simulatesI exI [of _ "[]"]) (simp add: ready_def traced run_done)
next
  case (Some ping_db)
  show ?thesis
  proof (rule simulatesI, goal_cases)
    case (1 w t)
    show ?case
      by (intro exI [of _ "[EvPing (fst (ping_db w))]"] conjI run_one ping)
        (use Some in \<open>simp add: ready_def traced case_prod_beta\<close>)
  qed
qed

lemma simulates_dispatch:
  "simulates pf s r Start (dispatch (traced_platform pf) (traced_server s) r h) (dispatch pf s r h) (\<lambda>_. Done)"
  unfolding dispatch_def [abs_def] traced_platform_sel
  by (cases "pf_route pf (rq_Method r) (rq_Path r)")
    (simp_all add: health_def simulates_done simulates_ready simulates_authenticate simulates_extract_handler
      simulates_list simulates_get)

definition logs_as :: "request \<Rightarrow> 'r response \<Rightarrow> 'r event list \<Rightarrow> bool" where
  "logs_as r resp es \<longleftrightarrow>
     (if rq_Method r = ''OPTIONS'' \<or> rq_Path r = ''/health'' \<or> rq_Path r = ''/ready'' then es = []
      else \<exists>e. es = [EvLog e] \<and> le_request_id e = rq_RequestID r \<and> le_method e = rq_Method r
        \<and> le_path e = rq_Path r \<and> le_status_code e = (if rp_Status resp = 0 then 200 else rp_Status resp)
        \<and> (le_level e, le_outcome e) = access_level (le_status_code e))"

lemma ServeHTTP_traced:
  obtains es l where "calls pf s r w = es @ l" and "run pf s r Start es Done"
    and "logs_as r (fst (ServeHTTP pf s r w)) l"
    and "traced_serve pf s r w = (fst (ServeHTTP pf s r w), snd (ServeHTTP pf s r w), calls pf s r w)"
proof (cases "rq_Method r = ''OPTIONS''")
  case True
  show thesis
    by (rule that [of "[]" "[]"])
      (use True in \<open>simp_all add: calls_def traced_serve_def ServeHTTP_def cors_def traced run_done logs_as_def Let_def\<close>)
next
  case False
  let ?h = "cors_headers s r Map.empty"
  let ?h' = "if rq_RequestID r = [] then ?h else ?h(''X-Request-ID'' \<mapsto> rq_RequestID r)"
  obtain es where d: "dispatch (traced_platform pf) (traced_server s) r ?h' (w, []) =
      (fst (dispatch pf s r ?h' w), snd (dispatch pf s r ?h' w), [] @ es)" and r: "run pf s r Start es Done"
    by (rule simulatesD [OF simulates_dispatch])
  obtain resp w' where rw: "dispatch pf s r ?h' w = (resp, w')" by (cases "dispatch pf s r ?h' w")
  obtain lv oc where lv: "access_level (if rp_Status resp = 0 then 200 else rp_Status resp) = (lv, oc)"
    by (cases "access_level (if rp_Status resp = 0 then 200 else rp_Status resp)")
  have S: "ServeHTTP pf s r w = accessLog pf (dispatch pf s) r ?h w"
    and T: "traced_serve pf s r w = accessLog (traced_platform pf) (dispatch (traced_platform pf) (traced_server s)) r ?h (w, [])"
    using False by (simp_all add: ServeHTTP_def traced_serve_def cors_def traced Let_def)
  show thesis
  proof (cases "rq_Path r = ''/health'' \<or> rq_Path r = ''/ready''")
    case True
    have S': "ServeHTTP pf s r w = (resp, w')" and T': "traced_serve pf s r w = (resp, w', es)"
      unfolding S T accessLog_def Let_def rw d using True by (simp_all add: rw)
    show thesis
      by (rule that [of es "[]"]) (use True r in \<open>simp_all add: S' T' calls_def logs_as_def\<close>)
  next
    case False': False
    let ?e = "\<lparr>le_level = lv, le_request_id = rq_RequestID r, le_method = rq_Method r, le_path = rq_Path r,
      le_status_code = (if rp_Status resp = 0 then 200 else rp_Status resp),
      le_bytes = length (pf_encode pf (rp_Body resp)), le_duration_ms = milliseconds (pf_now pf w' - pf_now pf w),
      le_outcome = oc\<rparr>"
    have S': "ServeHTTP pf s r w = (resp, pf_log pf ?e w')"
      and T': "traced_serve pf s r w = (resp, pf_log pf ?e w', es @ [EvLog ?e])"
      unfolding S T accessLog_def Let_def rw d using False' by (simp_all add: rw lv traced)
    show thesis
      by (rule that [of es "[EvLog ?e]"]) (use False False' r lv in \<open>simp_all add: S' T' calls_def logs_as_def\<close>)
  qed
qed

section \<open>What the protocol guarantees\<close>

text \<open>The place of a call in the protocol, and the places that are still to come.\<close>

fun call_rank :: "'r event \<Rightarrow> nat" where
  "call_rank (EvAuth _ _) = 0"
| "call_rank (EvConsent _ _) = 1"
| "call_rank (EvCacheGet _ _ _) = 2"
| "call_rank (EvCacheDelete _ _) = 2"
| "call_rank (EvAllow _ _ _) = 3"
| "call_rank (EvExtract _ _ _) = 4"
| "call_rank (EvStore _ _ _) = 5"
| "call_rank (EvCacheSet _ _ _) = 6"
| "call_rank (EvPing _) = 7"
| "call_rank (EvList _ _ _ _) = 7"
| "call_rank (EvGet _ _ _) = 7"
| "call_rank (EvLog _) = 8"

fun phase_rank :: "'r phase \<Rightarrow> nat" where
  "phase_rank Start = 0"
| "phase_rank (Admitted _) = 1"
| "phase_rank (Agreed _ _ _) = 2"
| "phase_rank (Missed _ _ _) = 3"
| "phase_rank (Granted _ _ _) = 4"
| "phase_rank (Ready _ _ _ _) = 5"
| "phase_rank (Saved _ _ _ _) = 6"
| "phase_rank Done = 8"

lemma step_rank:
  "step pf s r ph es ph' \<Longrightarrow> es = [] \<and> phase_rank ph \<le> phase_rank ph'
     \<or> (\<exists>e. es = [e] \<and> phase_rank ph \<le> call_rank e \<and> call_rank e < phase_rank ph')"
  by (induction rule: step.induct) (simp_all, (rename_tac ph; case_tac ph; simp)+)

lemma run_rank:
  "run pf s r ph es ph' \<Longrightarrow> sorted_wrt (<) (map call_rank es) \<and> (\<forall>e \<in> set es. call_rank e < phase_rank ph')"
proof (induction rule: run.induct)
  case (run_step ph es ph' es' ph'')
  from step_rank [OF run_step.hyps(2)] show ?case
  proof (elim disjE exE conjE)
    assume "es' = []" "phase_rank ph' \<le> phase_rank ph''"
    with run_step.IH show ?thesis by force
  next
    fix e assume "es' = [e]" "phase_rank ph' \<le> call_rank e" "call_rank e < phase_rank ph''"
    with run_step.IH show ?thesis by (force simp: sorted_wrt_append)
  qed
qed simp

text \<open>
  What has happened when a phase is reached. The third line of the guard of an extraction says that the
  answer was not in the cache.
\<close>

definition admitted :: "principal \<Rightarrow> 'r event set \<Rightarrow> bool" where
  "admitted p E \<longleftrightarrow> (\<exists>tok. EvAuth tok (Some p) \<in> E) \<and> HasScope p ScopeExtractWrite"

definition cache_hit :: "'r event set \<Rightarrow> bool" where
  "cache_hit E \<longleftrightarrow> (\<exists>d h x. EvCacheGet d h (Some x) \<in> E)"

definition rate_allowed :: "('w, 'r) Server \<Rightarrow> request \<Rightarrow> principal \<Rightarrow> 'r event set \<Rightarrow> bool" where
  "rate_allowed s r p E \<longleftrightarrow>
     (\<exists>l. EvAllow (kind_string (pr_Kind p)) (limit_identity s r p) (Some l) \<in> E \<and> lr_Allowed l)
     \<and> limit_identity s r p \<noteq> []"

definition obtained :: "string \<Rightarrow> bytes \<Rightarrow> 'r extract_result \<Rightarrow> 'r event set \<Rightarrow> bool" where
  "obtained d data x E \<longleftrightarrow>
     EvCacheGet d (shaHex data) (Some x) \<in> E \<or> (\<exists>doc. EvExtract d doc (Inr x) \<in> E)"

definition db_accepted :: "('w, 'r) Server \<Rightarrow> request \<Rightarrow> principal \<Rightarrow> string \<Rightarrow> bytes \<Rightarrow> 'r extract_result \<Rightarrow> 'r event set \<Rightarrow> bool" where
  "db_accepted s r p d data x E \<longleftrightarrow>
     sv_extractions s = None \<or> (\<exists>rep rec. EvStore rep rec None \<in> E \<and> attributed s r p d data x rec)"

fun reached :: "('w, 'r) Server \<Rightarrow> request \<Rightarrow> 'r phase \<Rightarrow> 'r event set \<Rightarrow> bool" where
  "reached s r Start E \<longleftrightarrow> E = {}"
| "reached s r (Admitted p) E \<longleftrightarrow> admitted p E \<and> \<not> cache_hit E"
| "reached s r (Agreed p d data) E \<longleftrightarrow> admitted p E \<and> acceptable r d data \<and> \<not> cache_hit E"
| "reached s r (Missed p d data) E \<longleftrightarrow> admitted p E \<and> acceptable r d data \<and> \<not> cache_hit E"
| "reached s r (Granted p d data) E \<longleftrightarrow>
     admitted p E \<and> acceptable r d data \<and> \<not> cache_hit E \<and> rate_allowed s r p E"
| "reached s r (Ready p d data x) E \<longleftrightarrow> admitted p E \<and> acceptable r d data \<and> obtained d data x E"
| "reached s r (Saved p d data x) E \<longleftrightarrow>
     admitted p E \<and> acceptable r d data \<and> obtained d data x E \<and> db_accepted s r p d data x E"
| "reached s r Done E \<longleftrightarrow> True"

lemmas reached_defs = admitted_def cache_hit_def rate_allowed_def obtained_def db_accepted_def

lemma step_reached:
  "step pf s r ph es ph' \<Longrightarrow> reached s r ph E \<Longrightarrow> reached s r ph' (E \<union> set es)"
  by (induction rule: step.induct) (auto simp: reached_defs)

lemma run_reached: "run pf s r ph es ph' \<Longrightarrow> reached s r ph {} \<Longrightarrow> reached s r ph' (set es)"
proof (induction rule: run.induct)
  case (run_step ph es ph' es' ph'')
  then show ?case using step_reached by fastforce
qed simp

text \<open>The last step before an event: the event was allowed by what had happened before it.\<close>

lemma run_event:
  assumes "run pf s r ph es ph'" and "ph = Start" and "e \<in> set es"
  shows "\<exists>es1 es2 ph1 ph2. es = es1 @ e # es2 \<and> run pf s r Start es1 ph1 \<and> step pf s r ph1 [e] ph2"
  using assms
proof (induction rule: run.induct)
  case (run_step ph es ph' es' ph'')
  show ?case
  proof (cases "e \<in> set es")
    case True
    with run_step.IH run_step.prems(1) obtain es1 es2 ph1 ph2
      where "es = es1 @ e # es2" "run pf s r Start es1 ph1" "step pf s r ph1 [e] ph2" by blast
    then show ?thesis by (metis append.assoc append_Cons)
  next
    case False
    with run_step.prems(2) have "es' = [e]"
      using step_rank [OF run_step.hyps(2)] by auto
    with run_step.hyps run_step.prems(1) show ?thesis by blast
  qed
qed simp

inductive_cases step_extractE: "step pf s r ph [EvExtract d doc x] ph'"
inductive_cases step_storeE: "step pf s r ph [EvStore rep rec e] ph'"
inductive_cases step_setE: "step pf s r ph [EvCacheSet d h y] ph'"
inductive_cases step_allowE: "step pf s r ph [EvAllow k i a] ph'"
inductive_cases step_listE: "step pf s r ph [EvList u d n x] ph'"
inductive_cases step_getE: "step pf s r ph [EvGet i u y] ph'"
inductive_cases step_cacheE: "step pf s r ph [EvCacheGet d h x] ph'"

lemma call_history:
  assumes "e \<in> set (calls pf s r w)" and "call_rank e < 8"
  obtains es1 es2 ph1 ph2 where "calls pf s r w = es1 @ e # es2" and "reached s r ph1 (set es1)"
    and "step pf s r ph1 [e] ph2"
proof -
  obtain es l where c: "calls pf s r w = es @ l" and r: "run pf s r Start es Done"
    and l: "logs_as r (fst (ServeHTTP pf s r w)) l"
    by (rule ServeHTTP_traced)
  have "e \<notin> set l" using l assms(2) by (auto simp: logs_as_def split: if_splits)
  with c assms(1) have "e \<in> set es" by simp
  from run_event [OF r refl this] obtain es1 es2 ph1 ph2 where h: "es = es1 @ e # es2"
    "run pf s r Start es1 ph1" "step pf s r ph1 [e] ph2" by blast
  have "reached s r ph1 (set es1)" using run_reached [OF h(2)] by simp
  with that [of es1 "es2 @ l"] h c show thesis by simp
qed

end
