(* ===== verification/Http_Laws.thy ===== *)
theory Http_Laws
  imports Http_Trace
begin

text \<open>
  The properties of the HTTP layer: what a request may do and in which order, how a cached answer is
  served, who is made the owner of what is stored, which headers count, and which status an error gets.
\<close>

section \<open>Samples\<close>

text \<open>A server whose dependencies all work; the cache answers as told.\<close>

definition sample_principal :: principal where
  "sample_principal = \<lparr>pr_Subject = ''u1'', pr_Client = ''kalke-cli'', pr_Email = [], pr_Kind = KindJWT,
     pr_Scopes = [''extract:write'']\<rparr>"

definition sample_server :: "unit extract_result option \<Rightarrow> (unit, unit) Server" where
  "sample_server cached =
     \<lparr>sv_extractor = \<lparr>ex_KnownTypes = [''rg''], ex_Extract = \<lambda>_ _ w. (Inr sample_result, w)\<rparr>,
      sv_pool = None,
      sv_cache = Some \<lparr>rc_Get = \<lambda>_ _ w. (cached, w), rc_Set = \<lambda>_ _ _ w. w, rc_Delete = \<lambda>_ _ w. w\<rparr>,
      sv_extractions = Some \<lparr>es_Insert = \<lambda>_ w. (None, w), es_Replace = \<lambda>_ w. (None, w),
        es_ListBySubject = \<lambda>_ _ _ w. (Inr [], w), es_GetByIDForSubject = \<lambda>_ _ w. (Inl ErrNotFound, w)\<rparr>,
      sv_consents = Some (\<lambda>_ w. (None, w)),
      sv_trustedProxies = [], sv_corsOrigins = [],
      sv_auth = Some (\<lambda>_ w. (Some sample_principal, w)),
      sv_limiter = Some (\<lambda>_ _ w. (Some \<lparr>lr_Allowed = True, lr_Limit = 60, lr_Remaining = 59, lr_RetryAfter = second\<rparr>, w)),
      sv_m2mUserForwardSecret = []\<rparr>"

definition sample_png :: bytes where
  "sample_png = [CHR 0x89, CHR ''P'', CHR ''N'', CHR ''G'', CHR 0x0D, CHR 0x0A, CHR 0x1A, CHR 0x0A]"

definition sample_platform :: "route \<Rightarrow> (unit, unit, unit) platform" where
  "sample_platform rt =
     \<lparr>pf_now = \<lambda>_. 0,
      pf_pre = \<lparr>env_imaging = \<lparr>DecodeConfig = \<lambda>_. Some (10, 10), Decode = \<lambda>_. Some (10, 10, ()),
          ScaleEncode = \<lambda>_ _ _. Some ''jpeg''\<rparr>,
        env_reader = \<lambda>_. None,
        env_render = \<lparr>LookPath = False, MkdirTemp = False, WriteFile = False, pdftoppm = \<lambda>_ _. None\<rparr>\<rparr>,
      pf_route = \<lambda>_ _. rt, pf_fallback = \<lambda>_ _ h. writeErr h 404 ''not found'',
      pf_encode = \<lambda>_. [], pf_log = \<lambda>_ w. w\<rparr>"

definition sample_request :: request where
  "sample_request =
     \<lparr>rq_Method = ''POST'', rq_Path = ''/v1/extract'', rq_Query = [(''doc_type'', ''rg'')],
      rq_Header = (\<lambda>k. if k = ''Authorization'' then ''Bearer t'' else []), rq_RemoteAddr = ''10.0.0.1:80'',
      rq_RequestID = ''r1'', rq_Form = Form [(''consent'', ''yes'')] (Some (''a.png'', Some sample_png)),
      rq_Principal = None\<rparr>"

definition sample_job :: job where
  "sample_job = \<lparr>jb_start = 0, jb_docType = ''rg'', jb_refresh = False, jb_filename = ''a.png'',
     jb_data = sample_png, jb_mime = ''image/png''\<rparr>"

lemma sample_readUpload: "readUpload sample_request = Inr (''a.png'', sample_png)"
  by (simp add: readUpload_def sample_request_def MaxUploadBytes_def sample_png_def)

lemma sample_pure:
  "TrimSpace ''rg'' = ''rg''" "consentAccepted sample_request ''rg''" "\<not> truthyQuery sample_request ''refresh''"
  "ValidateUpload ''a.png'' sample_png = (KindImage, ''image/png'', None)"
  "TrimSpace ''Bearer t'' = ''Bearer t''" "HasPrefix ''Bearer t'' ''Bearer ''"
  "HasScope sample_principal ScopeExtractWrite"
  "\<not> prefers_vision ''rg''"
  by code_simp+

definition sample_doc :: prepared where
  "sample_doc = \<lparr>pd_Kind = KindImage, pd_MIME = ''image/jpeg'', pd_Text = [],
     pd_Images = [\<lparr>img_MIME = ''image/jpeg'', img_Data = ''jpeg''\<rparr>], pd_Mode = ''vision'', pd_Filename = ''a.png''\<rparr>"

lemma sample_compact:
  "CompactImage \<lparr>DecodeConfig = \<lambda>_. Some (10, 10), Decode = \<lambda>_. Some (10, 10, ()),
     ScaleEncode = \<lambda>_ _ _. Some ''jpeg''\<rparr> sample_png = Inr (''jpeg'', ''image/jpeg'')"
  by code_simp

lemma sample_prepare: "PrepareWithOptions (pf_pre (sample_platform rt)) ''a.png'' sample_png False = Inr sample_doc"
  by (simp add: PrepareWithOptions_def sample_pure sample_platform_def sample_compact sample_doc_def)

lemma sample_sel:
  "rq_Method sample_request = ''POST''" "rq_Path sample_request = ''/v1/extract''"
  "rq_Query sample_request = [(''doc_type'', ''rg'')]" "rq_Header sample_request ''Authorization'' = ''Bearer t''"
  "rq_RequestID sample_request = ''r1''"
  "pf_route (sample_platform rt) m q = rt" "pf_now (sample_platform rt) w = 0"
  by (simp_all add: sample_request_def sample_platform_def)

lemma sample_accept:
  "accept_request (sample_platform rt) (WithPrincipal sample_request p) h w = Inr sample_job"
  by (simp add: accept_request_def WithPrincipal_sel WithPrincipal_pure sample_readUpload sample_pure sample_sel
      values_Get_def sample_job_def Let_def)

lemma sample_server_sel:
  "sv_extractor (sample_server c) = \<lparr>ex_KnownTypes = [''rg''], ex_Extract = \<lambda>_ _ w. (Inr sample_result, w)\<rparr>"
  "sv_cache (sample_server c) = Some \<lparr>rc_Get = \<lambda>_ _ w. (c, w), rc_Set = \<lambda>_ _ _ w. w, rc_Delete = \<lambda>_ _ w. w\<rparr>"
  "sv_extractions (sample_server c) = Some \<lparr>es_Insert = \<lambda>_ w. (None, w), es_Replace = \<lambda>_ w. (None, w),
     es_ListBySubject = \<lambda>_ _ _ w. (Inr [], w), es_GetByIDForSubject = \<lambda>_ _ w. (Inl ErrNotFound, w)\<rparr>"
  "sv_consents (sample_server c) = Some (\<lambda>_ w. (None, w))"
  "sv_auth (sample_server c) = Some (\<lambda>_ w. (Some sample_principal, w))"
  "sv_limiter (sample_server c) =
     Some (\<lambda>_ _ w. (Some \<lparr>lr_Allowed = True, lr_Limit = 60, lr_Remaining = 59, lr_RetryAfter = second\<rparr>, w))"
  by (simp_all add: sample_server_def)

lemma sample_identity: "limit_identity (sample_server c) sample_request sample_principal = ''u1''"
  by (simp add: limit_identity_def isM2MPrincipal_def acceptsUserForward_def sample_principal_def sample_server_def
      HasPrefix_def)

lemma sample_job_sel:
  "jb_docType sample_job = ''rg''" "\<not> jb_refresh sample_job" "jb_filename sample_job = ''a.png''"
  "jb_data sample_job = sample_png"
  by (simp_all add: sample_job_def)

lemmas sample_simps = calls_def traced_serve_def ServeHTTP_def cors_def accessLog_def dispatch_def authenticate_def
  extract_handler_def extract_job_def traced sample_sel sample_server_sel sample_pure sample_accept sample_job_sel
  recordConsent_def lookupCache_def Let_def

lemma sample_calls_miss:
  "EvExtract ''rg'' sample_doc (Inr sample_result)
     \<in> set (calls (sample_platform RExtract) (sample_server None) sample_request ())"
  "EvCacheSet ''rg'' (shaHex sample_png) (set_Cache [] (stamp (shaHex sample_png) ''miss'' sample_result))
     \<in> set (calls (sample_platform RExtract) (sample_server None) sample_request ())"
  by (simp_all add: sample_simps extract_miss_def enforceLLMRateLimit_def WithPrincipal_sel WithPrincipal_pure
      sample_identity sample_prepare server_persist_def store_extraction_def args_of_sel access_level_def)

lemma sample_calls_hit:
  "EvCacheGet ''rg'' (shaHex sample_png) (Some sample_result)
     \<in> set (calls (sample_platform RExtract) (sample_server (Some sample_result)) sample_request ())"
  by (simp add: sample_simps extract_hit_def server_persist_def store_extraction_def args_of_sel access_level_def)

section \<open>Helpers\<close>

lemma calls_sorted: "sorted_wrt (<) (map call_rank (calls pf s r w))"
proof -
  obtain es l where c: "calls pf s r w = es @ l" and r: "run pf s r Start es Done"
    and l: "logs_as r (fst (ServeHTTP pf s r w)) l"
    by (rule ServeHTTP_traced)
  from run_rank [OF r] l c show ?thesis by (auto simp: logs_as_def sorted_wrt_append split: if_splits)
qed

lemma earlier_call:
  assumes "calls pf s r w = es1 @ e # es2" and "e' \<in> set (calls pf s r w)" and "call_rank e' < call_rank e"
  shows "e' \<in> set es1"
  using calls_sorted [of pf s r w] assms by (auto simp: sorted_wrt_append)

lemma no_hit_before_limit:
  assumes "EvAllow k i a \<in> set (calls pf s r w)"
  shows "\<not> cache_hit (set (calls pf s r w))"
proof
  assume "cache_hit (set (calls pf s r w))"
  then obtain d h x where g: "EvCacheGet d h (Some x) \<in> set (calls pf s r w)" by (auto simp: cache_hit_def)
  obtain es1 es2 ph1 ph2 where c: "calls pf s r w = es1 @ EvAllow k i a # es2"
    and re: "reached s r ph1 (set es1)" and st: "step pf s r ph1 [EvAllow k i a] ph2"
    by (rule call_history [OF assms]) simp
  have "EvCacheGet d h (Some x) \<in> set es1" by (rule earlier_call [OF c g]) simp
  with re st show False by (auto simp: cache_hit_def elim!: step_allowE)
qed

lemma extract_history:
  assumes "EvExtract d doc x \<in> set (calls pf s r w)"
  obtains es1 es2 p data f where "calls pf s r w = es1 @ EvExtract d doc x # es2" and "admitted p (set es1)"
    and "acceptable r d data" and "rate_allowed s r p (set es1)"
    and "PrepareWithOptions (pf_pre pf) f data (prefers_vision d) = Inr doc"
proof -
  obtain es1 es2 ph1 ph2 where c: "calls pf s r w = es1 @ EvExtract d doc x # es2"
    and re: "reached s r ph1 (set es1)" and st: "step pf s r ph1 [EvExtract d doc x] ph2"
    by (rule call_history [OF assms]) simp
  from st re that [OF c] show thesis by (auto elim!: step_extractE)
qed

lemma extract_no_hit:
  assumes "EvExtract d doc x \<in> set (calls pf s r w)"
  shows "\<not> cache_hit (set (calls pf s r w))"
proof -
  obtain es1 es2 p where c: "calls pf s r w = es1 @ EvExtract d doc x # es2" and "rate_allowed s r p (set es1)"
    by (rule extract_history [OF assms])
  then obtain l where "EvAllow (kind_string (pr_Kind p)) (limit_identity s r p) (Some l) \<in> set (calls pf s r w)"
    by (auto simp: rate_allowed_def)
  then show ?thesis by (rule no_hit_before_limit)
qed

text \<open>Whose data an event touches: the acting user of an admitted principal.\<close>

fun owner_checked :: "('w, 'r) Server \<Rightarrow> request \<Rightarrow> 'r event set \<Rightarrow> 'r event \<Rightarrow> bool" where
  "owner_checked s r E (EvStore rep rec e) \<longleftrightarrow>
     (\<exists>p d data x. admitted p E \<and> acceptable r d data \<and> obtained d data x E \<and> attributed s r p d data x rec)"
| "owner_checked s r E (EvConsent c e) \<longleftrightarrow>
     (\<exists>p d data. admitted p E \<and> acceptable r d data \<and> agrees s r p d data c)"
| "owner_checked s r E (EvList u d n x) \<longleftrightarrow>
     n = 20 \<and> u \<noteq> [] \<and> (\<exists>p. admitted p E \<and> u = actor_subject s (WithPrincipal r p))"
| "owner_checked s r E (EvGet i u y) \<longleftrightarrow>
     u \<noteq> [] \<and> (\<exists>p. admitted p E \<and> u = actor_subject s (WithPrincipal r p))"
| "owner_checked s r E _ \<longleftrightarrow> True"

inductive_cases step_consentE: "step pf s r ph [EvConsent c e] ph'"

lemma owner_checked_mono:
  "owner_checked s r E e \<Longrightarrow> E \<subseteq> E' \<Longrightarrow> owner_checked s r E' e"
  by (cases e) (auto simp: admitted_def obtained_def subset_eq, blast+)

lemma step_owner:
  "step pf s r ph es ph' \<Longrightarrow> es = [e] \<Longrightarrow> reached s r ph E \<Longrightarrow> owner_checked s r E e"
  by (induction rule: step.induct) (auto, blast+)

lemma calls_owner: "e \<in> set (calls pf s r w) \<Longrightarrow> owner_checked s r (set (calls pf s r w)) e"
proof (cases "call_rank e < 8")
  case True
  assume e: "e \<in> set (calls pf s r w)"
  obtain es1 es2 ph1 ph2 where c: "calls pf s r w = es1 @ e # es2"
    and re: "reached s r ph1 (set es1)" and st: "step pf s r ph1 [e] ph2"
    by (rule call_history [OF e True])
  show ?thesis by (rule owner_checked_mono [OF step_owner [OF st refl re]]) (auto simp: c)
qed (cases e, simp_all)

subsection \<open>Forwarded identities\<close>

text \<open>Two requests that differ at most in the headers that carry a forwarded identity.\<close>

definition forward_headers :: "string list" where
  "forward_headers = [''X-Kalke-User-Sub'', ''X-Kalke-User-Email'', ''X-Kalke-Client-IP'', ''X-Kalke-User-Agent'']"

definition with_headers :: "request \<Rightarrow> (string \<Rightarrow> string) \<Rightarrow> request" where
  "with_headers r h = r\<lparr>rq_Header := h\<rparr>"

definition agree_off_forward :: "(string \<Rightarrow> string) \<Rightarrow> (string \<Rightarrow> string) \<Rightarrow> bool" where
  "agree_off_forward h h' \<longleftrightarrow> (\<forall>k. List.member forward_headers k \<or> h k = h' k)"

lemma agree_off_forwardD:
  assumes "agree_off_forward h h'"
  shows "h ''Origin'' = h' ''Origin''" "h ''Authorization'' = h' ''Authorization''"
    "h ''X-LGPD-Consent'' = h' ''X-LGPD-Consent''" "h ''X-Kalke-Forward-Secret'' = h' ''X-Kalke-Forward-Secret''"
    "h ''X-Real-IP'' = h' ''X-Real-IP''" "h ''User-Agent'' = h' ''User-Agent''"
proof -
  have "\<not> List.member forward_headers ''Origin''" "\<not> List.member forward_headers ''Authorization''"
    "\<not> List.member forward_headers ''X-LGPD-Consent''" "\<not> List.member forward_headers ''X-Kalke-Forward-Secret''"
    "\<not> List.member forward_headers ''X-Real-IP''" "\<not> List.member forward_headers ''User-Agent''"
    by code_simp+
  with assms show "h ''Origin'' = h' ''Origin''" "h ''Authorization'' = h' ''Authorization''"
    "h ''X-LGPD-Consent'' = h' ''X-LGPD-Consent''" "h ''X-Kalke-Forward-Secret'' = h' ''X-Kalke-Forward-Secret''"
    "h ''X-Real-IP'' = h' ''X-Real-IP''" "h ''User-Agent'' = h' ''User-Agent''"
    unfolding agree_off_forward_def by metis+
qed

lemma with_headers_sel:
  "rq_Header (with_headers r h) = h" "rq_Query (with_headers r h) = rq_Query r"
  "rq_Form (with_headers r h) = rq_Form r" "rq_RequestID (with_headers r h) = rq_RequestID r"
  "rq_Method (with_headers r h) = rq_Method r" "rq_Path (with_headers r h) = rq_Path r"
  "rq_RemoteAddr (with_headers r h) = rq_RemoteAddr r"
  "PrincipalFromContext (with_headers r h) = PrincipalFromContext r"
  "WithPrincipal (with_headers r h) p = with_headers (WithPrincipal r p) h"
  by (simp_all add: with_headers_def WithPrincipal_def PrincipalFromContext_def)

lemma forward_pure:
  assumes "agree_off_forward h (rq_Header r)" and "\<not> acceptsUserForward s r"
  shows "acceptsUserForward s (with_headers r h) = False" "resolveActor s (with_headers r h) = resolveActor s r"
    "requestOrigin s (with_headers r h) = requestOrigin s r" "limit_identity s (with_headers r h) p = limit_identity s r p"
    "accept_request pf (with_headers r h) hh w = accept_request pf r hh w"
    "cors_headers s (with_headers r h) hh = cors_headers s r hh"
proof -
  note eqs = agree_off_forwardD [OF assms(1)]
  show a: "acceptsUserForward s (with_headers r h) = False"
    using assms(2) unfolding acceptsUserForward_def with_headers_sel eqs by simp
  show "resolveActor s (with_headers r h) = resolveActor s r"
    unfolding resolveActor_def with_headers_sel a using assms(2) by (simp split: option.split)
  show "requestOrigin s (with_headers r h) = requestOrigin s r"
    unfolding requestOrigin_def with_headers_sel a clientIP_def remoteAddrIP_def eqs using assms(2) by (simp add: Let_def)
  show "limit_identity s (with_headers r h) p = limit_identity s r p"
    unfolding limit_identity_def a using assms(2) by simp
  show "accept_request pf (with_headers r h) hh w = accept_request pf r hh w"
    unfolding accept_request_def readUpload_def consentAccepted_def consent_value_def FormValue_def truthyQuery_def
      with_headers_sel eqs ..
  show "cors_headers s (with_headers r h) hh = cors_headers s r hh"
    unfolding cors_headers_def with_headers_sel eqs ..
qed

lemma forward_handlers:
  assumes "agree_off_forward h (rq_Header r)" and "\<not> acceptsUserForward s r"
  shows "extract_handler pf s (with_headers r h) hh w = extract_handler pf s r hh w"
    "listExtractions s (with_headers r h) hh w = listExtractions s r hh w"
    "getExtraction s (with_headers r h) i hh w = getExtraction s r i hh w"
proof -
  note eqs = forward_pure [OF assms]
  show "extract_handler pf s (with_headers r h) hh w = extract_handler pf s r hh w"
    unfolding extract_handler_def extract_job_def extract_hit_def extract_miss_def enforceLLMRateLimit_def
      consent_of_def args_of_def eqs with_headers_sel ..
  show "listExtractions s (with_headers r h) hh w = listExtractions s r hh w"
    unfolding listExtractions_def actor_subject_def eqs with_headers_sel ..
  show "getExtraction s (with_headers r h) i hh w = getExtraction s r i hh w"
    unfolding getExtraction_def actor_subject_def eqs with_headers_sel ..
qed

lemma forward_authenticate:
  assumes "agree_off_forward h (rq_Header r)" and "\<not> acceptsUserForward s r"
    and "\<And>p hh w. n (with_headers (WithPrincipal r p) h) hh w = n (WithPrincipal r p) hh w"
  shows "authenticate s n (with_headers r h) hh w = authenticate s n r hh w"
  unfolding authenticate_def with_headers_sel agree_off_forwardD [OF assms(1)] assms(3) ..

lemma forward_dispatch:
  assumes "agree_off_forward h (rq_Header r)" and "\<not> acceptsUserForward s r"
  shows "dispatch pf s (with_headers r h) hh w = dispatch pf s r hh w"
proof -
  have p: "agree_off_forward h (rq_Header (WithPrincipal r p))" "\<not> acceptsUserForward s (WithPrincipal r p)" for p
    using assms by (simp_all add: WithPrincipal_sel WithPrincipal_pure)
  show ?thesis
    unfolding dispatch_def with_headers_sel
    by (cases "pf_route pf (rq_Method r) (rq_Path r)")
      (simp_all add: forward_authenticate [OF assms] forward_handlers [OF p] with_headers_sel)
qed

subsection \<open>Error texts\<close>

text \<open>The texts that mean a busy provider and a document that is too large for it.\<close>

definition says_busy :: "string \<Rightarrow> bool" where
  "says_busy m \<longleftrightarrow> Contains m ''groq http 429'' \<or> Contains m ''Rate limit reached''"

definition says_large :: "string \<Rightarrow> bool" where
  "says_large m \<longleftrightarrow> Contains m ''groq http 413'' \<or> Contains m ''Request too large''"

lemma Contains_Cons: "Contains (c # s) p \<longleftrightarrow> HasPrefix (c # s) p \<or> Contains s p"
  by (simp add: Contains_def)

lemma Contains_skip:
  assumes "p = a # q" and "a \<notin> set u"
  shows "Contains (u @ s) p \<longleftrightarrow> Contains s p"
  using assms(2)
proof (induction u)
  case (Cons c u)
  then have "\<not> HasPrefix ((c # u) @ s) p" by (auto simp: HasPrefix_conv assms(1))
  with Cons show ?case by (simp add: Contains_Cons)
qed simp

lemma mark_heads:
  "''groq http 429'' = CHR ''g'' # ''roq http 429''" "''groq http 413'' = CHR ''g'' # ''roq http 413''"
  "''Rate limit reached'' = CHR ''R'' # ''ate limit reached''" "''Request too large'' = CHR ''R'' # ''equest too large''"
  by simp_all

lemma says_skip:
  assumes "CHR ''g'' \<notin> set u" and "CHR ''R'' \<notin> set u"
  shows "says_busy (u @ s) = says_busy s" "says_large (u @ s) = says_large s"
  unfolding says_busy_def says_large_def
  using Contains_skip [OF mark_heads(1) assms(1)] Contains_skip [OF mark_heads(2) assms(1)]
    Contains_skip [OF mark_heads(3) assms(2)] Contains_skip [OF mark_heads(4) assms(2)] by simp_all

lemma mapExtractError_says:
  "fst (mapExtractError err) =
     (if says_busy (extract_error_text err) then 429
      else if says_large (extract_error_text err) then 413
      else case err of ErrUnknownDocType _ \<Rightarrow> 400 | ErrInvalidJSON _ _ \<Rightarrow> 422 | ErrLLM _ \<Rightarrow> 502)"
  by (simp add: mapExtractError_def says_busy_def says_large_def Let_def split: extract_error.split)

lemma itoa_chars: "CHR ''g'' \<notin> set (itoa n)" "CHR ''R'' \<notin> set (itoa n)"
  using dec_digits [of "nat \<bar>n\<bar>"] by (auto simp: itoa_def list_all_iff is_digit_def in_range_def byte_def)

lemma itoa_three:
  assumes "100 \<le> n" and "n \<le> 999"
  shows "length (itoa n) = 3"
proof -
  have "dec m = dec (m div 10) @ [digit_char (m mod 10)]" if "10 \<le> m" for m
    using that by (simp add: dec.simps [of m])
  from this [of "nat n"] this [of "nat n div 10"] assms
  show ?thesis by (simp add: itoa_def dec.simps [of "nat n div 10 div 10"] nat_div_distrib)
qed

lemma HasPrefix_same_length: "length u = length p \<Longrightarrow> HasPrefix (u @ s) p \<longleftrightarrow> u = p"
  by (auto simp: HasPrefix_conv append_eq_append_conv)

text \<open>The status of a Groq error is found in its text, and nothing before the body can be mistaken for it.\<close>

lemma says_http:
  assumes "100 \<le> n" and "n \<le> 999"
  shows "says_busy (chat_error_text (HTTPError n b)) \<longleftrightarrow> n = 429 \<or> says_busy b"
    and "says_large (chat_error_text (HTTPError n b)) \<longleftrightarrow> n = 413 \<or> says_large b"
proof -
  let ?t = "''roq http '' @ itoa n @ '': ''"
  have g: "CHR ''g'' \<notin> set ?t" and R: "CHR ''R'' \<notin> set ?t" by (simp_all add: itoa_chars)
  have msg: "chat_error_text (HTTPError n b) = CHR ''g'' # ?t @ b" by simp
  have i: "itoa 429 = ''429''" "itoa 413 = ''413''" by code_simp+
  have p: "HasPrefix (CHR ''g'' # ?t @ b) (''groq http '' @ k) \<longleftrightarrow> itoa n = k" if "length k = 3" for k
    using HasPrefix_same_length [of "itoa n" k "'': '' @ b"] itoa_three [OF assms] that
    by (simp add: HasPrefix_conv)
  have R': "\<not> HasPrefix (CHR ''g'' # x) (CHR ''R'' # y)" for x y by (simp add: HasPrefix_conv)
  show "says_busy (chat_error_text (HTTPError n b)) \<longleftrightarrow> n = 429 \<or> says_busy b"
    using p [of "''429''"] itoa_inj [of n 429] i says_skip(1) [OF g R, of b] R' [of "?t @ b" "''ate limit reached''"]
    unfolding msg says_busy_def Contains_Cons by auto
  show "says_large (chat_error_text (HTTPError n b)) \<longleftrightarrow> n = 413 \<or> says_large b"
    using p [of "''413''"] itoa_inj [of n 413] i says_skip(2) [OF g R, of b] R' [of "?t @ b" "''equest too large''"]
    unfolding msg says_large_def Contains_Cons by auto
qed

subsection \<open>Seconds\<close>

lemma f64_zero: "f64 0 = 0"
  by (simp add: f64_def round_even_def Let_def)

text \<open>Rounding cannot lift a duration of at most a minute to the next whole second.\<close>

lemma Seconds_pos_floor:
  assumes "0 \<le> n" and "n < second" and "0 < k" and "k \<le> 60"
  shows "\<lfloor>f64 (f64 (of_int k) + f64 (of_int n / of_int second))\<rfloor> = k"
proof (cases "n = 0")
  case True
  with assms(3,4) show ?thesis by (simp add: f64_zero f64_of_int)
next
  case False
  let ?q = "of_int n / of_int second :: rat" and ?k = "of_int k :: rat"
  have k: "f64 ?k = ?k" "1 \<le> ?k" "?k \<le> 60" using assms(3,4) by (simp_all add: f64_of_int)
  have q1: "1 / 10 ^ 9 \<le> ?q" using False assms(1) by (simp add: second_def divide_right_mono)
  have q2: "?q \<le> 1 - 1 / 10 ^ 9" using assms(2) by (simp add: second_def field_simps)
  have q0: "0 < ?q" using q1 by (rule less_le_trans [rotated]) simp
  define e :: rat where "e = 1 / 10 ^ 10"
  have e0: "0 < e" by (simp add: e_def)
  have "f64 ?q \<le> (1 - 1 / 10 ^ 9) * (1 + 1 / 2 ^ 53)"
    by (rule order_trans [OF f64_le [OF q0] mult_right_mono [OF q2]]) simp
  also have "\<dots> \<le> 1 - e" by (simp add: e_def)
  finally have u1: "f64 ?q \<le> 1 - e" .
  have "e \<le> 1 / 10 ^ 9 * (1 - 1 / 2 ^ 53)" by (simp add: e_def)
  also have "\<dots> \<le> f64 ?q"
    by (rule order_trans [OF mult_right_mono [OF q1] f64_ge [OF q0]]) simp
  finally have u2: "e \<le> f64 ?q" .
  let ?x = "?k + f64 ?q"
  have x: "0 < ?x" "?x \<le> 61" using k u1 u2 e0 by linarith+
  have "?x / 2 ^ 53 \<le> 61 / 2 ^ 53" using x(2) by (rule divide_right_mono) simp
  also have "\<dots> < e" by (simp add: e_def)
  finally have "\<bar>f64 ?x - ?x\<bar> < e" by (rule le_less_trans [OF f64_error [OF x(1)]])
  then have "?k \<le> f64 ?x" "f64 ?x < ?k + 1" using u1 u2 unfolding abs_less_iff by linarith+
  then have "\<lfloor>f64 ?x\<rfloor> = k" by linarith
  then show ?thesis by (simp only: k(1))
qed

lemma retry_seconds_exact:
  assumes "second \<le> d" and "d \<le> minute"
  shows "retry_seconds d = d div second"
proof -
  have s: "0 < second" by (simp add: second_def)
  have "0 < d div second" "d div second \<le> 60"
    using assms s by (simp_all add: pos_imp_zdiv_pos_iff minute_def) (simp add: second_def)
  with Seconds_pos_floor [of "d mod second" "d div second"] s
  have "f64_int (Seconds_pos d) = d div second" by (simp add: f64_int_def Seconds_pos_def)
  with assms s \<open>0 < d div second\<close> show ?thesis by (simp add: retry_seconds_def)
qed

section \<open>Properties\<close>

text \<open>
  C5: Wrapping the dependencies of the server changes neither the response nor the effect on the world, and
  the calls of every request, whatever the dependencies answer, are a run of the protocol followed by its
  line in the access log. The line carries the status of the response, and there is none for a preflight
  request or a health check.
\<close>

theorem ServeHTTP_follows_protocol:
  "traced_serve pf s r w = (fst (ServeHTTP pf s r w), snd (ServeHTTP pf s r w), calls pf s r w)
   \<and> (\<exists>es l. calls pf s r w = es @ l \<and> run pf s r Start es Done \<and> logs_as r (fst (ServeHTTP pf s r w)) l)"
  using ServeHTTP_traced [of pf s r w] by metis


text \<open>
  C4: The model is only called for an authenticated principal with the scope extract:write or admin, with a
  document type, an accepted consent and a valid upload, after the rate limiter granted a unit to the acting
  user, on a document prepared from that upload, and never when the answer was in the cache.
\<close>

theorem extractor_guarded:
  assumes "EvExtract d doc x \<in> set (calls pf s r w)"
  shows "\<exists>es1 es2 p data f. calls pf s r w = es1 @ EvExtract d doc x # es2
    \<and> admitted p (set es1) \<and> acceptable r d data \<and> rate_allowed s r p (set es1)
    \<and> PrepareWithOptions (pf_pre pf) f data (prefers_vision d) = Inr doc
    \<and> \<not> cache_hit (set (calls pf s r w))"
  by (rule extract_history [OF assms]) (use extract_no_hit [OF assms] in blast)

theorem extractor_guarded_witness:
  "\<exists>es1 es2 p data. calls (sample_platform RExtract) (sample_server None) sample_request () =
       es1 @ EvExtract ''rg'' sample_doc (Inr sample_result) # es2
     \<and> admitted p (set es1) \<and> acceptable sample_request ''rg'' data"
  using extractor_guarded [OF sample_calls_miss(1)] by blast

text \<open>
  C31: An answer found in the cache is free: neither the rate limiter nor the model is called for the request.
\<close>

theorem cache_hit_is_free:
  assumes "EvCacheGet d h (Some x) \<in> set (calls pf s r w)"
  shows "EvAllow k i a \<notin> set (calls pf s r w) \<and> EvExtract d' doc y \<notin> set (calls pf s r w)"
proof -
  have "cache_hit (set (calls pf s r w))" using assms by (auto simp: cache_hit_def)
  then show ?thesis using no_hit_before_limit extract_no_hit by metis
qed

theorem cache_hit_is_free_witness:
  "EvAllow ''jwt'' ''u1'' None
     \<notin> set (calls (sample_platform RExtract) (sample_server (Some sample_result)) sample_request ())"
  using cache_hit_is_free [OF sample_calls_hit] by blast



text \<open>
  C8: Every record that a request stores, every consent it records and every read of stored extractions is made
  in the name of the acting user of a principal that this request authenticated with the scope
  extract:write or admin; a list asks for 20 entries.
\<close>

theorem data_access_attributed:
  "list_all (owner_checked s r (set (calls pf s r w))) (calls pf s r w)"
  by (simp add: list_all_iff calls_owner)

text \<open>
  C7: Forwarded identities fail closed. Without the shared forward secret the headers that carry the user, the
  client address and the user agent have no effect at all: the response, and the effect on the world, are the same
  whatever they contain.
\<close>

theorem forward_headers_ignored:
  assumes "\<not> acceptsUserForward s r" and "agree_off_forward h (rq_Header r)"
  shows "ServeHTTP pf s (with_headers r h) w = ServeHTTP pf s r w"
  unfolding ServeHTTP_def cors_def accessLog_def with_headers_sel forward_dispatch [OF assms(2,1)]
    forward_pure(6) [OF assms(2,1)] ..

theorem forward_headers_ignored_witness:
  "ServeHTTP (sample_platform RExtract) (sample_server None)
     (with_headers sample_request (\<lambda>k. if k = ''X-Kalke-User-Sub'' then ''root'' else rq_Header sample_request k)) () =
   ServeHTTP (sample_platform RExtract) (sample_server None) sample_request ()"
  by (rule forward_headers_ignored)
    (auto simp: acceptsUserForward_def sample_server_def agree_off_forward_def forward_headers_def)

text \<open>
  C32: The status of a failed extraction. A failed request to the provider with a three-digit status is a 429 exactly
  when the provider answered 429 or its message says so, a 413 when it answered 413 or says so, and a 502
  otherwise. An unknown document type is a 400, except that the search for these messages also reads the
  document type of the client: a type that contains one of them is answered with 429 or 413.
\<close>

theorem mapExtractError_statuses:
  assumes "100 \<le> n" and "n \<le> 999"
  shows "fst (mapExtractError (ErrLLM (HTTPError n b))) =
      (if n = 429 \<or> says_busy b then 429 else if n = 413 \<or> says_large b then 413 else 502)
    \<and> fst (mapExtractError (ErrUnknownDocType t)) = (if says_busy t then 429 else if says_large t then 413 else 400)"
proof -
  have "says_busy (extract_error_text (ErrLLM e)) = says_busy (chat_error_text e)"
    "says_large (extract_error_text (ErrLLM e)) = says_large (chat_error_text e)" for e
    using says_skip [of "''llm request failed: ''" "chat_error_text e"] by simp_all
  moreover have "says_busy (extract_error_text (ErrUnknownDocType t)) = says_busy t"
    "says_large (extract_error_text (ErrUnknownDocType t)) = says_large t"
    using says_skip [of "''unknown doc_type: ''" t] by simp_all
  ultimately show ?thesis by (simp only: mapExtractError_says says_http [OF assms] extract_error.case)
qed

theorem mapExtractError_statuses_witness:
  "fst (mapExtractError (ErrLLM (HTTPError 500 ''down''))) = 502
   \<and> fst (mapExtractError (ErrUnknownDocType ''Rate limit reached'')) = 429"
proof -
  have "\<not> says_busy ''down''" "\<not> says_large ''down''" "says_busy ''Rate limit reached''" by code_simp+
  with mapExtractError_statuses [of 500 "''down''" "''Rate limit reached''"] show ?thesis by simp
qed


definition sample_limited :: "(unit, unit) Server" where
  "sample_limited = (sample_server None)\<lparr>sv_limiter :=
     Some (\<lambda>k i w. Allow (Some (New_limiter (Some \<lparr>rc_incr = \<lambda>_ w. (Some 100, w), rc_expire = \<lambda>_ _ w. w\<rparr>) 60)) 0 k i w)\<rparr>"


end
