(* ===== verification/Go_Parse.thy ===== *)
theory Go_Parse
  imports Go_Time Go_Float
begin

text \<open>
  \<^verbatim>\<open>strconv.Atoi\<close> and \<^verbatim>\<open>time.ParseDuration\<close>, which read the numbers of the configuration. Both keep to 64
  bits: a value that does not fit is an error. Sums of unsigned 64-bit numbers wrap around.
\<close>

section \<open>Integers\<close>

definition strconv_Atoi :: "string \<Rightarrow> int option" where
  "strconv_Atoi s =
     (let neg = HasPrefix s ''-''; t = (if neg \<or> HasPrefix s ''+'' then tl s else s) in
      if t = [] \<or> \<not> list_all is_digit t then None
      else
        let n = (if neg then - int (dec_val t) else int (dec_val t)) in
        if - (2 ^ 63) \<le> n \<and> n < 2 ^ 63 then Some n else None)"

section \<open>Durations\<close>

definition unitMap :: "string \<rightharpoonup> nat" where
  "unitMap = map_of [
     (''ns'', 1), (''us'', 1000), ([CHR 0xC2, CHR 0xB5, CHR ''s''], 1000), ([CHR 0xCE, CHR 0xBC, CHR ''s''], 1000),
     (''ms'', 1000000), (''s'', 1000000000), (''m'', 60000000000), (''h'', 3600000000000)]"

text \<open>The digits before the point; \<open>None\<close> when they exceed \<open>2\<^sup>6\<^sup>3\<close>.\<close>

fun leadingInt :: "nat \<Rightarrow> string \<Rightarrow> (nat \<times> string) option" where
  "leadingInt x [] = Some (x, [])"
| "leadingInt x (c # s) =
     (if \<not> is_digit c then Some (x, c # s)
      else if 2 ^ 63 div 10 < x then None
      else
        let x' = x * 10 + digit_val c in
        if 2 ^ 63 < x' then None else leadingInt x' s)"

text \<open>The digits after the point and the power of ten they are divided by; digits past the precision are skipped.\<close>

fun leadingFraction :: "nat \<Rightarrow> nat \<Rightarrow> bool \<Rightarrow> string \<Rightarrow> nat \<times> nat \<times> string" where
  "leadingFraction x scale over [] = (x, scale, [])"
| "leadingFraction x scale over (c # s) =
     (if \<not> is_digit c then (x, scale, c # s)
      else if over then leadingFraction x scale over s
      else if (2 ^ 63 - 1) div 10 < x then leadingFraction x scale True s
      else
        let y = x * 10 + digit_val c in
        if 2 ^ 63 < y then leadingFraction x scale True s else leadingFraction y (scale * 10) over s)"

definition unit_char :: "char \<Rightarrow> bool" where
  "unit_char c \<longleftrightarrow> \<not> (c = CHR ''.'' \<or> is_digit c)"

text \<open>One term of the sum: its value in nanoseconds and the rest of the text.\<close>

definition duration_term :: "string \<Rightarrow> (nat \<times> string) option" where
  "duration_term s =
     (if unit_char (hd s) then None
      else case leadingInt 0 s of
        None \<Rightarrow> None
      | Some (v, s1) \<Rightarrow>
          (let pre = length s \<noteq> length s1;
               (f, scale, s2) = (if HasPrefix s1 ''.'' then leadingFraction 0 1 False (tl s1) else (0, 1, s1));
               post = HasPrefix s1 ''.'' \<and> length (tl s1) \<noteq> length s2 in
           if \<not> pre \<and> \<not> post then None
           else
             let u = takeWhile unit_char s2; s3 = dropWhile unit_char s2 in
             if u = [] then None
             else case unitMap u of
               None \<Rightarrow> None
             | Some unit \<Rightarrow>
                 if 2 ^ 63 div unit < v then None
                 else
                   let w = v * unit + (if 0 < f then nat (f64_int (f64 (f64 (of_nat f) * f64 (of_nat unit / of_nat scale)))) else 0) in
                   if 2 ^ 63 < w then None else Some (w, s3)))"

lemma leadingInt_length: "leadingInt x s = Some (v, s') \<Longrightarrow> length s' \<le> length s"
  by (induction x s rule: leadingInt.induct) (auto split: if_splits simp: Let_def)

lemma leadingFraction_length: "length (snd (snd (leadingFraction x sc ov s))) \<le> length s"
  by (induction s arbitrary: x sc ov) (auto simp: Let_def le_SucI)

lemma duration_term_length:
  assumes "duration_term s = Some (w, s')" and "s \<noteq> []"
  shows "length s' < length s"
proof -
  obtain v s1 where l: "leadingInt 0 s = Some (v, s1)"
    using assms(1) by (auto simp: duration_term_def split: if_splits option.splits)
  obtain f sc s2 where f: "(if HasPrefix s1 ''.'' then leadingFraction 0 1 False (tl s1) else (0, 1, s1)) = (f, sc, s2)"
    by (cases "if HasPrefix s1 ''.'' then leadingFraction 0 1 False (tl s1) else (0, 1, s1)")
  have "length s2 \<le> length s1"
    using f leadingFraction_length [of 0 1 False "tl s1"] by (auto split: if_splits)
  also have "\<dots> \<le> length s" by (rule leadingInt_length [OF l])
  finally have "length s2 \<le> length s" .
  moreover have "takeWhile unit_char s2 \<noteq> []" and s': "s' = dropWhile unit_char s2"
    using assms(1) by (auto simp: duration_term_def l f Let_def split: if_splits option.splits)
  moreover have "length (takeWhile unit_char s2) + length (dropWhile unit_char s2) = length s2"
    by (metis length_append takeWhile_dropWhile_id)
  ultimately show ?thesis by (metis add_less_same_cancel2 length_greater_0_conv less_add_same_cancel2 order_less_le_trans)
qed

function duration_sum :: "nat \<Rightarrow> string \<Rightarrow> nat option" where
  "duration_sum d s =
     (if s = [] then Some d
      else case duration_term s of
        None \<Rightarrow> None
      | Some (v, s') \<Rightarrow>
          (let d' = (d + v) mod 2 ^ 64 in
           if 2 ^ 63 < d' then None else duration_sum d' s'))"
  by pat_completeness auto
termination
  by (relation "measure (\<lambda>(_, s). length s)") (auto dest: duration_term_length)

declare duration_sum.simps [simp del]

definition ParseDuration :: "string \<Rightarrow> int option" where
  "ParseDuration s0 =
     (let neg = HasPrefix s0 ''-''; s = (if neg \<or> HasPrefix s0 ''+'' then tl s0 else s0) in
      if s = ''0'' then Some 0
      else if s = [] then None
      else case duration_sum 0 s of
        None \<Rightarrow> None
      | Some d \<Rightarrow>
          if neg then Some (- int d)
          else if 2 ^ 63 - 1 < d then None
          else Some (int d))"

section \<open>Laws\<close>

lemma strconv_Atoi_range: "strconv_Atoi s = Some n \<Longrightarrow> - (2 ^ 63) \<le> n \<and> n < 2 ^ 63"
  by (auto simp: strconv_Atoi_def Let_def split: if_splits)

lemma duration_sum_range: "duration_sum d s = Some r \<Longrightarrow> d \<le> 2 ^ 63 \<Longrightarrow> r \<le> 2 ^ 63"
proof (induction d s rule: duration_sum.induct)
  case (1 d s)
  show ?case
  proof (cases "s = []")
    case True
    with "1.prems" show ?thesis by (simp add: duration_sum.simps [of d])
  next
    case False
    with "1.prems" obtain v s' where t: "duration_term s = Some (v, s')" and le: "(d + v) mod 2 ^ 64 \<le> 2 ^ 63"
      and r: "duration_sum ((d + v) mod 2 ^ 64) s' = Some r"
      by (auto simp: duration_sum.simps [of d s] Let_def split: option.splits if_splits)
    show ?thesis by (rule "1.IH" [OF False t refl refl]) (use le r in simp_all)
  qed
qed

lemma ParseDuration_range:
  assumes "ParseDuration s = Some n" shows "- (2 ^ 63) \<le> n \<and> n < 2 ^ 63"
  using assms duration_sum_range [of 0 "if HasPrefix s ''-'' \<or> HasPrefix s ''+'' then tl s else s"]
  by (force simp: ParseDuration_def Let_def split: if_splits option.splits)

end
