(* ===== verification/Config.thy ===== *)
theory Config
  imports Http_Laws Go_Parse
begin

text \<open>
  Package \<^verbatim>\<open>internal/config\<close>: the environment of the process and the configuration read from it, with every
  early return. The environment is a map; a variable that is not set reads as the empty string.
\<close>

type_synonym environ = "string \<rightharpoonup> string"

definition os_Getenv :: "environ \<Rightarrow> string \<Rightarrow> string" where
  "os_Getenv env k = (case env k of None \<Rightarrow> [] | Some v \<Rightarrow> v)"

definition getenv :: "environ \<Rightarrow> string \<Rightarrow> string \<Rightarrow> string" where
  "getenv env key fallback = (let v = TrimSpace (os_Getenv env key) in if v \<noteq> [] then v else fallback)"

definition parseBool :: "string \<Rightarrow> bool \<Rightarrow> bool" where
  "parseBool raw0 fallback =
     (let raw = TrimSpace (ToLower raw0) in
      if raw = [] then fallback
      else if raw \<in> {''1'', ''true'', ''yes'', ''on''} then True
      else if raw \<in> {''0'', ''false'', ''no'', ''off''} then False
      else fallback)"

definition parseCSV :: "string \<Rightarrow> string list" where
  "parseCSV raw0 =
     (let raw = TrimSpace raw0 in
      if raw = [] then []
      else filter (\<lambda>p. p \<noteq> []) (map TrimSpace (SplitByte raw (CHR '',''))))"

datatype config_error =
    TTLInvalid | TTLNotPositive
  | RedisDBInvalid | RedisDBNegative
  | RateLimitInvalid | RateLimitNotPositive
  | TrustedProxyInvalid string
  | OIDCRequired
  | GroqKeyRequired
  | DatabaseURLRequired
  | PortInvalid string
  | LogLevelInvalid string
  | LogFormatInvalid string

text \<open>An entry of the list of trusted proxies; a bare address becomes the network that holds only it.\<close>

definition proxy_network :: "string \<Rightarrow> config_error + ipnet" where
  "proxy_network part =
     (let cidr =
        (if Contains part ''/'' then Some part
         else case ParseIP part of
           None \<Rightarrow> None
         | Some ip \<Rightarrow>
             (case To4 ip of
                Some v4 \<Rightarrow> Some (IP_String v4 @ ''/32'')
              | None \<Rightarrow> Some (IP_String ip @ ''/128''))) in
      case cidr of
        None \<Rightarrow> Inl (TrustedProxyInvalid part)
      | Some c \<Rightarrow> (case ParseCIDR c of None \<Rightarrow> Inl (TrustedProxyInvalid c) | Some (_, network) \<Rightarrow> Inr network))"

fun proxy_networks :: "string list \<Rightarrow> ipnet list \<Rightarrow> config_error + ipnet list" where
  "proxy_networks [] out = Inr out"
| "proxy_networks (p # ps) out =
     (let part = TrimSpace p in
      if part = [] then proxy_networks ps out
      else case proxy_network part of
        Inl e \<Rightarrow> Inl e
      | Inr network \<Rightarrow> proxy_networks ps (out @ [network]))"

definition parseTrustedProxies :: "string \<Rightarrow> config_error + ipnet list" where
  "parseTrustedProxies raw0 =
     (let raw = TrimSpace raw0 in
      if raw = [] then Inr [] else proxy_networks (SplitByte raw (CHR '','')) [])"

record Config =
  cf_Port :: string
  cf_GroqAPIKey :: string
  cf_GroqModel :: string
  cf_GroqBaseURL :: string
  cf_LogLevel :: string
  cf_LogFormat :: string
  cf_DatabaseURL :: string
  cf_DBSearchPath :: string
  cf_RedisAddr :: string
  cf_RedisPassword :: string
  cf_RedisDB :: int
  cf_RedisTLS :: bool
  cf_RedisCacheTTL :: int
  cf_TrustedProxies :: "ipnet list"
  cf_CORSOrigins :: "string list"
  cf_OIDCIssuer :: string
  cf_OIDCAudience :: string
  cf_OIDCDiscoveryURL :: string
  cf_AuthIntrospectURL :: string
  cf_IntrospectSecret :: string
  cf_RateLimitPerMinute :: int
  cf_M2MUserForwardSecret :: string

text \<open>The numbers of the configuration, in the order in which they are checked.\<close>

definition load_ttl :: "environ \<Rightarrow> config_error + int" where
  "load_ttl env =
     (case ParseDuration (getenv env ''REDIS_CACHE_TTL'' ''24h'') of
        None \<Rightarrow> Inl TTLInvalid
      | Some ttl \<Rightarrow> if ttl \<le> 0 then Inl TTLNotPositive else Inr ttl)"

definition load_redis_db :: "environ \<Rightarrow> config_error + int" where
  "load_redis_db env =
     (case strconv_Atoi (getenv env ''REDIS_DB'' ''0'') of
        None \<Rightarrow> Inl RedisDBInvalid
      | Some n \<Rightarrow> if n < 0 then Inl RedisDBNegative else Inr n)"

definition load_rate_limit :: "environ \<Rightarrow> config_error + int" where
  "load_rate_limit env =
     (case strconv_Atoi (getenv env ''RATE_LIMIT_PER_MINUTE'' ''60'') of
        None \<Rightarrow> Inl RateLimitInvalid
      | Some n \<Rightarrow> if n \<le> 0 then Inl RateLimitNotPositive else Inr n)"

definition load_cors :: "environ \<Rightarrow> string list" where
  "load_cors env =
     (let origins = parseCSV (os_Getenv env ''CORS_ORIGINS'') in
      if origins = [] then [''https://kalke.dev'', ''https://www.kalke.dev''] else origins)"

definition trimmed :: "environ \<Rightarrow> string \<Rightarrow> string" where
  "trimmed env k = TrimSpace (os_Getenv env k)"

definition load_fields :: "environ \<Rightarrow> int \<Rightarrow> int \<Rightarrow> int \<Rightarrow> ipnet list \<Rightarrow> Config" where
  "load_fields env ttl redisDB rateLimit trusted =
     \<lparr>cf_Port = getenv env ''PORT'' ''8080'',
      cf_GroqAPIKey = trimmed env ''GROQ_API_KEY'',
      cf_GroqModel = getenv env ''GROQ_MODEL'' ''qwen/qwen3.6-27b'',
      cf_GroqBaseURL = getenv env ''GROQ_BASE_URL'' ''https://api.groq.com/openai/v1'',
      cf_LogLevel = ToLower (getenv env ''LOG_LEVEL'' ''info''),
      cf_LogFormat = ToLower (getenv env ''LOG_FORMAT'' ''text''),
      cf_DatabaseURL = trimmed env ''DATABASE_URL'',
      cf_DBSearchPath = getenv env ''DB_SEARCH_PATH'' ''pde'',
      cf_RedisAddr = getenv env ''REDIS_ADDR'' ''localhost:6379'',
      cf_RedisPassword = os_Getenv env ''REDIS_PASSWORD'',
      cf_RedisDB = redisDB,
      cf_RedisTLS = parseBool (os_Getenv env ''REDIS_TLS'') False,
      cf_RedisCacheTTL = ttl,
      cf_TrustedProxies = trusted,
      cf_CORSOrigins = load_cors env,
      cf_OIDCIssuer = trimmed env ''OIDC_ISSUER'',
      cf_OIDCAudience = trimmed env ''OIDC_AUDIENCE'',
      cf_OIDCDiscoveryURL = trimmed env ''OIDC_DISCOVERY_URL'',
      cf_AuthIntrospectURL = trimmed env ''AUTH_INTROSPECT_URL'',
      cf_IntrospectSecret = trimmed env ''INTROSPECT_SECRET'',
      cf_RateLimitPerMinute = rateLimit,
      cf_M2MUserForwardSecret = trimmed env ''M2M_USER_FORWARD_SECRET''\<rparr>"

definition check_fields :: "Config \<Rightarrow> config_error option" where
  "check_fields cfg =
     (if cf_GroqAPIKey cfg = [] then Some GroqKeyRequired
      else if cf_DatabaseURL cfg = [] then Some DatabaseURLRequired
      else if (case strconv_Atoi (cf_Port cfg) of None \<Rightarrow> True | Some port \<Rightarrow> port < 1 \<or> 65535 < port)
        then Some (PortInvalid (cf_Port cfg))
      else if \<not> List.member [''debug'', ''info'', ''warn'', ''error''] (cf_LogLevel cfg)
        then Some (LogLevelInvalid (cf_LogLevel cfg))
      else if \<not> List.member [''text'', ''json''] (cf_LogFormat cfg) then Some (LogFormatInvalid (cf_LogFormat cfg))
      else None)"

definition Load :: "environ \<Rightarrow> config_error + Config" where
  "Load env =
     (case load_ttl env of
        Inl e \<Rightarrow> Inl e
      | Inr ttl \<Rightarrow>
     (case load_redis_db env of
        Inl e \<Rightarrow> Inl e
      | Inr redisDB \<Rightarrow>
     (case load_rate_limit env of
        Inl e \<Rightarrow> Inl e
      | Inr rateLimit \<Rightarrow>
     (case parseTrustedProxies (os_Getenv env ''TRUSTED_PROXIES'') of
        Inl e \<Rightarrow> Inl e
      | Inr trusted \<Rightarrow>
          if trimmed env ''OIDC_ISSUER'' = [] \<or> trimmed env ''OIDC_AUDIENCE'' = [] then Inl OIDCRequired
          else
            let cfg = load_fields env ttl redisDB rateLimit trusted in
            case check_fields cfg of
              Some e \<Rightarrow> Inl e
            | None \<Rightarrow> Inr cfg))))"

section \<open>Networks\<close>

lemma parseIPv4_length: "parseIPv4 s = Some f \<Longrightarrow> length f = 4"
proof -
  have "those xs = Some ys \<Longrightarrow> length ys = length xs" for xs :: "nat option list" and ys
    by (induction xs arbitrary: ys) (auto split: option.splits)
  then show "parseIPv4 s = Some f \<Longrightarrow> length f = 4"
    by (auto simp: parseIPv4_def Let_def split: if_splits)
qed

lemma v6_groups_length:
  "v6_groups ip ell s = Some (ip', ell') \<Longrightarrow> length ip \<le> 16 \<Longrightarrow> even (length ip) \<Longrightarrow> length ip' \<le> 16"
proof (induction "16 - length ip" arbitrary: ip ell s rule: less_induct)
  case less
  show ?case
  proof (cases "16 \<le> length ip")
    case True
    with less.prems show ?thesis by (simp add: v6_groups.simps [of ip] split: if_splits)
  next
    case False
    with less.prems(2,3) have l: "length ip + 2 \<le> 16" by presburger
    have IH: "length ip' \<le> 16" if "v6_groups (ip @ [a, b]) e t = Some (ip', ell')" for a b e t
      by (rule less.hyps [OF _ that]) (use l False less.prems(3) in auto)
    from less.prems(1) False l show ?thesis
      by (simp add: v6_groups.simps [of ip ell s] Let_def split: if_splits)
        (auto dest: parseIPv4_length IH)
  qed
qed

lemma ParseIP_length: "ParseIP s = Some ip \<Longrightarrow> length ip = 16"
proof -
  have e: "length ip = 16" if "v6_groups [] ell t = Some p" "v6_expand p = Some ip" for ell t p
    using that v6_groups_length [of "[]" ell t "fst p" "snd p"]
    by (cases p) (auto simp: v6_expand_def split: if_splits option.splits)
  have "length ip = 16" if "parseIPv6 s = Some ip"
    using that by (auto simp: parseIPv6_def bind_eq_Some_conv split: if_splits dest: e)
  then have "ParseIP_from s t = Some ip \<Longrightarrow> length ip = 16" for t
    by (induction t) (auto split: if_splits dest: parseIPv4_length)
  then show "ParseIP s = Some ip \<Longrightarrow> length ip = 16" by (simp add: ParseIP_def)
qed

lemma length_CIDRMask [simp]: "length (CIDRMask k n) = k"
  by (induction k arbitrary: n) auto

text \<open>A network of the configuration: a prefix mask, and no bits of the number outside it.\<close>

definition network_ok :: "ipnet \<Rightarrow> bool" where
  "network_ok n \<longleftrightarrow>
     (\<exists>k l. (k = 4 \<or> k = 16) \<and> l \<le> 8 * k \<and> net_mask n = CIDRMask k l \<and> length (net_ip n) = k
        \<and> map2 band (net_ip n) (net_mask n) = net_ip n)"

lemma band_idem: "band (band a b) b = band a b"
  by (simp add: band_def and.assoc)

lemma map2_band_idem: "map2 band (map2 band xs ys) ys = map2 band xs ys"
  by (induction xs ys rule: list_induct2') (simp_all add: band_idem)

lemma ParseCIDR_cases:
  assumes "ParseCIDR s = Some (ip, n)"
  obtains t v4 l where "ParseIP t = Some ip" and "l \<le> (if v4 then 32 else 128)" and "n = cidr_network v4 ip l"
proof -
  obtain i where i: "Index s ''/'' = Some i" using assms by (auto simp: ParseCIDR_def split: option.splits)
  obtain v4 ip' where a: "ParseAddr (take i s) = Some (v4, ip')"
    using assms i by (auto simp: ParseCIDR_def split: option.splits)
  obtain l where l: "prefix_length (drop (i + 1) s) = Some l"
    using assms i a by (auto simp: ParseCIDR_def split: option.splits)
  have "ParseIP (take i s) = Some ip'"
    using a by (auto simp: ParseAddr_def split: list.splits)
  with assms i a l show thesis
    by (intro that [of "take i s" l v4]) (simp_all add: ParseCIDR_def split: if_splits)
qed

lemma ParseCIDR_network: "ParseCIDR s = Some (ip, n) \<Longrightarrow> network_ok n"
proof (erule ParseCIDR_cases)
  fix t v4 l assume t: "ParseIP t = Some ip" and l: "l \<le> (if v4 then 32 else 128)" and n: "n = cidr_network v4 ip l"
  from ParseIP_length [OF t] have "length (if v4 then drop 12 ip else ip) = (if v4 then 4 else 16)" by simp
  with l show "network_ok n"
    unfolding network_ok_def n cidr_network_def Let_def
    by (intro exI [of _ "if v4 then 4 else 16"] exI [of _ l]) (auto simp: map2_band_idem split: if_splits)
qed

lemma proxy_network_ok: "proxy_network p = Inr n \<Longrightarrow> network_ok n"
  by (auto simp: proxy_network_def Let_def dest: ParseCIDR_network split: if_splits option.splits)

lemma proxy_networks_ok:
  "proxy_networks ps out = Inr ns \<Longrightarrow> list_all network_ok out \<Longrightarrow> list_all network_ok ns"
  by (induction ps arbitrary: out)
    (auto simp: Let_def split: if_splits sum.splits dest: proxy_network_ok)

lemma parseTrustedProxies_ok: "parseTrustedProxies raw = Inr ns \<Longrightarrow> list_all network_ok ns"
  by (auto simp: parseTrustedProxies_def Let_def split: if_splits dest: proxy_networks_ok)

subsection \<open>Membership in a network is agreement of the prefix\<close>

fun bytes_value :: "nat list \<Rightarrow> nat" where
  "bytes_value [] = 0"
| "bytes_value (b # bs) = b * 256 ^ length bs + bytes_value bs"

lemma bytes_value_less: "list_all (\<lambda>b. b < 256) bs \<Longrightarrow> bytes_value bs < 256 ^ length bs"
proof (induction bs)
  case (Cons b bs)
  then have "b * 256 ^ length bs + bytes_value bs < (b + 1) * 256 ^ length bs" by (simp add: algebra_simps)
  also have "\<dots> \<le> 256 * 256 ^ length bs" using Cons.prems by (intro mult_right_mono) simp_all
  finally show ?case by simp
qed simp

lemma band_prefix:
  assumes "a < 256" and "j \<le> 8" shows "band a (256 - 2 ^ j) = a div 2 ^ j * 2 ^ j"
proof -
  have m: "256 - 2 ^ j = push_bit j (mask (8 - j) :: nat)"
    using assms(2) by (simp add: push_bit_eq_mult mask_eq_exp_minus_1 diff_mult_distrib flip: power_add)
  have high: "\<not> bit a i" if "8 \<le> i" for i
  proof -
    have "a < 2 ^ i" using assms(1) power_increasing [OF that, of "2::nat"] by simp
    then show ?thesis by (simp add: bit_iff_odd)
  qed
  have "Bit_Operations.and a (push_bit j (mask (8 - j))) = push_bit j (drop_bit j a)"
  proof (rule bit_eqI)
    fix i
    show "bit (Bit_Operations.and a (push_bit j (mask (8 - j)))) i = bit (push_bit j (drop_bit j a)) i"
    proof (cases "j \<le> i")
      case True
      then show ?thesis using high [of i] assms(2)
        by (simp add: bit_and_iff bit_push_bit_iff bit_drop_bit_eq bit_mask_iff) (metis diff_less_mono not_less)
    qed (simp add: bit_and_iff bit_push_bit_iff)
  qed
  then show ?thesis unfolding band_def m by (simp add: push_bit_eq_mult drop_bit_eq_div)
qed

lemma band_zero: "band a 0 = 0" by (simp add: band_def)

definition masked_eq :: "nat list \<Rightarrow> nat list \<Rightarrow> nat list \<Rightarrow> bool" where
  "masked_eq nn m ip = list_all (\<lambda>(a, b, c). band a b = band c b) (zip nn (zip m ip))"

lemma masked_eq_zero: "length xs = k \<Longrightarrow> length ys = k \<Longrightarrow> masked_eq xs (CIDRMask k 0) ys"
  by (induction k arbitrary: xs ys) (auto simp: masked_eq_def length_Suc_conv band_zero)

lemma div_split:
  fixes a x :: nat assumes "e \<le> 8 * k"
  shows "(a * 256 ^ k + x) div 2 ^ e = a * 2 ^ (8 * k - e) + x div 2 ^ e"
proof -
  have "(256 :: nat) ^ k = 2 ^ (8 * k - e) * 2 ^ e"
    using assms by (simp flip: power_add power_mult) (simp add: power_mult)
  then have "(a * 256 ^ k + x) div 2 ^ e = (x + a * 2 ^ (8 * k - e) * 2 ^ e) div 2 ^ e" by (simp add: ac_simps)
  then show ?thesis by simp
qed

lemma prefix_split:
  fixes a b x y :: nat
  assumes "e \<le> 8 * k" and "x < 256 ^ k" and "y < 256 ^ k"
  shows "(a * 256 ^ k + x) div 2 ^ e = (b * 256 ^ k + y) div 2 ^ e \<longleftrightarrow> a = b \<and> x div 2 ^ e = y div 2 ^ e"
proof -
  have p: "(256 :: nat) ^ k = 2 ^ (8 * k - e) * 2 ^ e"
    using assms(1) by (simp flip: power_add power_mult) (simp add: power_mult)
  have "x div 2 ^ e < 2 ^ (8 * k - e)" "y div 2 ^ e < 2 ^ (8 * k - e)"
    using assms(2,3) unfolding p by (simp_all add: less_mult_imp_div_less)
  moreover have "u = a \<and> v = c" if "v < m" "c < m" "u * m + v = a * m + c" for u v a c m :: nat
    using that by (metis add.commute add_right_cancel div_mult_self3 div_less less_nat_zero_code mult.commute plus_nat.add_0)
  ultimately show ?thesis unfolding div_split [OF assms(1)] by metis
qed

lemma masked_eq_prefix:
  "length xs = k \<Longrightarrow> length ys = k \<Longrightarrow> list_all (\<lambda>b. b < 256) xs \<Longrightarrow> list_all (\<lambda>b. b < 256) ys \<Longrightarrow> n \<le> 8 * k \<Longrightarrow>
     masked_eq xs (CIDRMask k n) ys \<longleftrightarrow> bytes_value xs div 2 ^ (8 * k - n) = bytes_value ys div 2 ^ (8 * k - n)"
proof (induction k arbitrary: n xs ys)
  case 0
  then show ?case by (simp add: masked_eq_def)
next
  case (Suc k)
  then obtain a as b bs where xs: "xs = a # as" and ys: "ys = b # bs" by (metis length_Suc_conv)
  have l: "length as = k" "length bs = k" "a < 256" "b < 256" "list_all (\<lambda>b. b < 256) as" "list_all (\<lambda>b. b < 256) bs"
    using Suc.prems xs ys by simp_all
  have v: "bytes_value as < 256 ^ k" "bytes_value bs < 256 ^ k"
    using bytes_value_less [OF l(5)] bytes_value_less [OF l(6)] l(1,2) by simp_all
  show ?case
  proof (cases "8 \<le> n")
    case True
    have f: "band c 255 = c" if "c < 256" for c using band_prefix [OF that, of 0] by simp
    have e: "8 * Suc k - n = 8 * k - (n - 8)" using True by simp
    have "masked_eq xs (CIDRMask (Suc k) n) ys \<longleftrightarrow> a = b \<and> masked_eq as (CIDRMask k (n - 8)) bs"
      using True l by (simp add: xs ys masked_eq_def f)
    also have "\<dots> \<longleftrightarrow> a = b \<and> bytes_value as div 2 ^ (8 * k - (n - 8)) = bytes_value bs div 2 ^ (8 * k - (n - 8))"
      using Suc.IH [of as bs "n - 8"] l Suc.prems(5) by simp
    also have "\<dots> \<longleftrightarrow> (a * 256 ^ k + bytes_value as) div 2 ^ (8 * k - (n - 8)) =
        (b * 256 ^ k + bytes_value bs) div 2 ^ (8 * k - (n - 8))"
      using prefix_split [OF _ v, of "8 * k - (n - 8)" a b] by simp
    finally show ?thesis unfolding e by (simp only: xs ys bytes_value.simps l)
  next
    case False
    have e: "8 * Suc k - n = 8 * k + (8 - n)" using False by simp
    have d: "(c * 256 ^ k + x) div 2 ^ (8 * k + (8 - n)) = c div 2 ^ (8 - n)" if "x < 256 ^ k" for c x :: nat
    proof -
      have "(2 :: nat) ^ (8 * k + (8 - n)) = 256 ^ k * 2 ^ (8 - n)" by (simp add: power_add power_mult)
      with that show ?thesis by (simp add: div_mult2_eq)
    qed
    have m: "masked_eq as (CIDRMask k 0) bs" by (rule masked_eq_zero) (use l in simp_all)
    have "masked_eq xs (CIDRMask (Suc k) n) ys \<longleftrightarrow> band a (256 - 2 ^ (8 - n)) = band b (256 - 2 ^ (8 - n))"
      using False m by (simp add: xs ys masked_eq_def)
    also have "\<dots> \<longleftrightarrow> a div 2 ^ (8 - n) = b div 2 ^ (8 - n)"
      using band_prefix [OF l(3), of "8 - n"] band_prefix [OF l(4), of "8 - n"] by simp
    finally show ?thesis unfolding e by (simp only: xs ys bytes_value.simps l d [OF v(1)] d [OF v(2)])
  qed
qed

subsection \<open>Dotted addresses\<close>

definition dotted :: "nat list \<Rightarrow> string" where
  "dotted bs = Join (map dec bs) ''.''"

definition plain_char :: "char \<Rightarrow> bool" where
  "plain_char c \<longleftrightarrow> is_digit c \<or> c = CHR ''.'' \<or> c = CHR ''/''"

lemma digit_facts:
  assumes "is_digit c"
  shows "plain_char c" "c \<noteq> CHR ''.''" "c \<noteq> CHR '':''" "c \<noteq> CHR ''%''" "c \<noteq> CHR ''/''" "c \<noteq> CHR '',''"
  using assms by (auto simp: plain_char_def is_digit_def in_range_def byte_def)

lemma plain_TrimSpace: "list_all plain_char s \<Longrightarrow> s \<noteq> [] \<Longrightarrow> TrimSpace s = s"
proof -
  have "byte c < 128 \<and> \<not> IsSpace (byte c)" if "plain_char c" for c
    using that by (auto simp: plain_char_def is_digit_def in_range_def IsSpace_def byte_def)
  then show "list_all plain_char s \<Longrightarrow> s \<noteq> [] \<Longrightarrow> TrimSpace s = s"
    by (intro word_TrimSpace ascii_word) (auto simp: list_all_iff ascii_def)
qed

lemma SplitByte_none: "c \<notin> set s \<Longrightarrow> SplitByte s c = [s]"
  by (induction s) auto

lemma SplitByte_append: "c \<notin> set s \<Longrightarrow> SplitByte (s @ c # t) c = s # SplitByte t c"
  by (induction s) auto

lemma dec_chars: "c \<in> set (dec n) \<Longrightarrow> is_digit c"
  using dec_digits [of n] by (auto simp: list_all_iff)

lemma dec_lead: "length (dec n) = 1 \<or> hd (dec n) \<noteq> CHR ''0''"
proof (induction n rule: dec.induct)
  case (1 n)
  show ?case
  proof (cases "n < 10")
    case False
    with 1 have IH: "length (dec (n div 10)) = 1 \<or> hd (dec (n div 10)) \<noteq> CHR ''0''" by simp
    have "hd (dec (n div 10)) \<noteq> CHR ''0''"
    proof
      assume h: "hd (dec (n div 10)) = CHR ''0''"
      with IH have "length (dec (n div 10)) = 1" by blast
      with h have "dec (n div 10) = ''0''" by (cases "dec (n div 10)") auto
      then have "dec_val (dec (n div 10)) = 0" by (simp add: dec_val_def digit_val_def byte_def)
      with False show False by simp
    qed
    with False show ?thesis by (simp add: dec.simps [of n])
  qed (simp add: dec.simps [of n])
qed

lemma octet_dec: "b < 256 \<Longrightarrow> octet (dec b) = Some b"
  using dec_lead [of b] by (simp add: octet_def dec_digits)

lemma dotted4:
  "dotted [a, b, c, d] = dec a @ CHR ''.'' # dec b @ CHR ''.'' # dec c @ CHR ''.'' # dec d"
  by (simp add: dotted_def)

lemma dec_not_in: "\<not> is_digit c \<Longrightarrow> c \<notin> set (dec n)"
  using dec_chars by blast

lemma not_digits: "\<not> is_digit (CHR ''.'')" "\<not> is_digit (CHR ''/'')" "\<not> is_digit (CHR '','')" "\<not> is_digit (CHR '':'')"
  "\<not> is_digit (CHR ''%'')"
  by code_simp+

lemma parseIPv4_dotted:
  assumes "list_all (\<lambda>b. b < 256) [a, b, c, d]"
  shows "parseIPv4 (dotted [a, b, c, d]) = Some [a, b, c, d]"
  using assms
  by (simp add: parseIPv4_def dotted4 SplitByte_append SplitByte_none dec_not_in not_digits octet_dec Let_def)

lemma ParseIP_from_digits: "list_all is_digit u \<Longrightarrow> ParseIP_from s (u @ t) = ParseIP_from s t"
  by (induction u) (auto dest: digit_facts)

definition v4in6 :: "nat list \<Rightarrow> ip" where
  "v4in6 bs = replicate 10 0 @ [255, 255] @ bs"

lemma ParseIP_dotted:
  assumes "list_all (\<lambda>b. b < 256) [a, b, c, d]"
  shows "ParseIP (dotted [a, b, c, d]) = Some (v4in6 [a, b, c, d])"
proof -
  have "ParseIP_from (dotted [a, b, c, d]) (dotted [a, b, c, d]) =
      map_option (\<lambda>f. replicate 10 0 @ [255, 255] @ f) (parseIPv4 (dotted [a, b, c, d]))"
    by (subst (2) dotted4) (simp add: ParseIP_from_digits dec_digits)
  then show ?thesis by (simp add: ParseIP_def parseIPv4_dotted [OF assms] v4in6_def)
qed

lemma To4_v4in6: "length bs = 4 \<Longrightarrow> To4 (v4in6 bs) = Some bs"
  by (simp add: To4_def v4in6_def numeral_eq_Suc)

lemma Index_skip:
  assumes "CHR ''/'' \<notin> set u" shows "Index (u @ CHR ''/'' # t) ''/'' = Some (length u)"
  using assms by (induction u) (auto simp: HasPrefix_def)

lemma dotted_chars: "x \<in> set (dotted [a, b, c, d]) \<Longrightarrow> is_digit x \<or> x = CHR ''.''"
  by (auto simp: dotted4 dest: dec_chars)

lemma ParseAddr_dotted:
  assumes "list_all (\<lambda>b. b < 256) [a, b, c, d]"
  shows "ParseAddr (dotted [a, b, c, d]) = Some (True, v4in6 [a, b, c, d])"
proof -
  have "dropWhile (\<lambda>c. c \<noteq> CHR ''.'' \<and> c \<noteq> CHR '':'' \<and> c \<noteq> CHR ''%'') (dotted [a, b, c, d]) =
      CHR ''.'' # dec b @ CHR ''.'' # dec c @ CHR ''.'' # dec d"
    unfolding dotted4 by (subst dropWhile_append2) (use dec_chars digit_facts(2-4) in blast, simp)
  then show ?thesis by (simp add: ParseAddr_def ParseIP_dotted [OF assms])
qed

lemma ParseCIDR_dotted:
  assumes "list_all (\<lambda>b. b < 256) [a, b, c, d]" and "n \<le> 32"
  shows "ParseCIDR (dotted [a, b, c, d] @ ''/'' @ dec n) =
    Some (v4in6 [a, b, c, d], cidr_network True (v4in6 [a, b, c, d]) n)"
proof -
  have "CHR ''/'' \<notin> set (dotted [a, b, c, d])" using dotted_chars not_digits by force
  then have i: "Index (dotted [a, b, c, d] @ CHR ''/'' # dec n) ''/'' = Some (length (dotted [a, b, c, d]))"
    by (rule Index_skip)
  have "prefix_length (dec n) = Some n" using assms(2) by (simp add: prefix_length_def dec_digits)
  then show ?thesis using assms(2) by (simp add: ParseCIDR_def i ParseAddr_dotted [OF assms(1)])
qed

lemma cidr_contains:
  assumes "list_all (\<lambda>b. b < 256) bs" and "list_all (\<lambda>b. b < 256) xs" and "length bs = 4" and "length xs = 4" and "n \<le> 32"
  shows "IPNet_Contains (cidr_network True (v4in6 bs) n) (v4in6 xs) \<longleftrightarrow>
    bytes_value bs div 2 ^ (32 - n) = bytes_value xs div 2 ^ (32 - n)"
proof -
  let ?m = "CIDRMask 4 n" and ?nn = "map2 band bs (CIDRMask 4 n)"
  have d: "drop 12 (v4in6 bs) = bs" by (simp add: v4in6_def)
  have "masked_eq (map2 band as m) m ys = masked_eq as m ys" if "length as = length m" "length m = length ys" for as m ys
    using that by (induction as m ys rule: list_induct3) (simp_all add: masked_eq_def band_idem)
  from this [of bs ?m xs] assms(3,4) have "masked_eq ?nn ?m xs = masked_eq bs ?m xs" by simp
  moreover have "IPNet_Contains (cidr_network True (v4in6 bs) n) (v4in6 xs) = masked_eq ?nn ?m xs"
    using assms(3,4)
    by (simp add: IPNet_Contains_def networkNumberAndMask_def cidr_network_def d To4_v4in6 To4_def [of ?nn]
        masked_eq_def Let_def)
  moreover have "masked_eq bs ?m xs \<longleftrightarrow> bytes_value bs div 2 ^ (8 * 4 - n) = bytes_value xs div 2 ^ (8 * 4 - n)"
    by (rule masked_eq_prefix) (use assms in simp_all)
  ultimately show ?thesis by simp
qed

lemma one_entry:
  assumes "list_all plain_char s" and "s \<noteq> []"
  shows "parseTrustedProxies s = (case proxy_network s of Inl e \<Rightarrow> Inl e | Inr n \<Rightarrow> Inr [n])"
proof -
  have "CHR '','' \<notin> set s" using assms(1) by (auto simp: list_all_iff plain_char_def is_digit_def in_range_def byte_def)
  with assms show ?thesis
    by (simp add: parseTrustedProxies_def plain_TrimSpace SplitByte_none Let_def split: sum.split)
qed

lemma plain_dotted: "list_all plain_char (dotted [a, b, c, d])" "dotted [a, b, c, d] \<noteq> []"
  "list_all plain_char (dec n)"
  using dotted_chars dec_chars by (auto simp: list_all_iff plain_char_def dotted4)

lemma bytes_value_inj:
  "length xs = length ys \<Longrightarrow> list_all (\<lambda>b. b < 256) xs \<Longrightarrow> list_all (\<lambda>b. b < 256) ys \<Longrightarrow>
     bytes_value xs = bytes_value ys \<Longrightarrow> xs = ys"
proof (induction xs ys rule: list_induct2)
  case (Cons x xs y ys)
  then have "bytes_value xs < 256 ^ length xs" "bytes_value ys < 256 ^ length xs"
    using bytes_value_less [of xs] bytes_value_less [of ys] by simp_all
  then have "x = y \<and> bytes_value xs = bytes_value ys"
    using Cons.prems prefix_split [of 0 "length xs" "bytes_value xs" "bytes_value ys" x y] Cons.hyps by simp
  with Cons show ?case by simp
qed simp

subsection \<open>Loading\<close>

lemma parseCSV_entries: "list_all (\<lambda>p. p \<noteq> [] \<and> TrimSpace p = p) (parseCSV raw)"
  by (auto simp: parseCSV_def Let_def list_all_iff)

lemma load_cors_entries: "load_cors env \<noteq> [] \<and> list_all (\<lambda>p. p \<noteq> [] \<and> TrimSpace p = p) (load_cors env)"
proof -
  have "list_all (\<lambda>p. p \<noteq> [] \<and> TrimSpace p = p) [''https://kalke.dev'', ''https://www.kalke.dev'']" by code_simp
  moreover note parseCSV_entries [of "os_Getenv env ''CORS_ORIGINS''"]
  ultimately have "xs \<noteq> [] \<and> list_all (\<lambda>p. p \<noteq> [] \<and> TrimSpace p = p) xs"
    if "xs = (if parseCSV (os_Getenv env ''CORS_ORIGINS'') = [] then [''https://kalke.dev'', ''https://www.kalke.dev'']
      else parseCSV (os_Getenv env ''CORS_ORIGINS''))" for xs
    using that by (simp split: if_splits)
  from this [of "load_cors env"] show ?thesis unfolding load_cors_def Let_def by blast
qed

lemma Load_cases:
  assumes "Load env = Inr cfg"
  obtains ttl redisDB rateLimit trusted where "load_ttl env = Inr ttl" and "load_redis_db env = Inr redisDB"
    and "load_rate_limit env = Inr rateLimit" and "parseTrustedProxies (os_Getenv env ''TRUSTED_PROXIES'') = Inr trusted"
    and "trimmed env ''OIDC_ISSUER'' \<noteq> []" and "trimmed env ''OIDC_AUDIENCE'' \<noteq> []"
    and "cfg = load_fields env ttl redisDB rateLimit trusted" and "check_fields cfg = None"
  using assms by (auto simp: Load_def Let_def split: sum.splits if_splits option.splits)

lemma load_fields_sel:
  "cf_RedisCacheTTL (load_fields env t d r p) = t" "cf_RedisDB (load_fields env t d r p) = d"
  "cf_RateLimitPerMinute (load_fields env t d r p) = r" "cf_TrustedProxies (load_fields env t d r p) = p"
  "cf_CORSOrigins (load_fields env t d r p) = load_cors env"
  "cf_OIDCIssuer (load_fields env t d r p) = trimmed env ''OIDC_ISSUER''"
  "cf_OIDCAudience (load_fields env t d r p) = trimmed env ''OIDC_AUDIENCE''"
  "cf_M2MUserForwardSecret (load_fields env t d r p) = trimmed env ''M2M_USER_FORWARD_SECRET''"
  by (simp_all only: load_fields_def Config.select_convs)

lemma check_fields_ok:
  assumes "check_fields cfg = None"
  shows "cf_GroqAPIKey cfg \<noteq> []" "cf_DatabaseURL cfg \<noteq> []"
    "\<exists>port. strconv_Atoi (cf_Port cfg) = Some port \<and> 1 \<le> port \<and> port \<le> 65535"
    "cf_LogLevel cfg \<in> {''debug'', ''info'', ''warn'', ''error''}" "cf_LogFormat cfg \<in> {''text'', ''json''}"
  using assms by (auto simp: check_fields_def split: if_splits option.splits)

section \<open>Properties\<close>

text \<open>
  C21: The list of trusted proxies means what it says for IPv4. An entry a.b.c.d/n trusts exactly the addresses
  that agree with a.b.c.d in the first n bits, and a bare address trusts only itself.
\<close>

theorem trusted_proxy_prefix:
  assumes "list_all (\<lambda>b. b < 256) [a, b, c, d]" and "list_all (\<lambda>b. b < 256) [w, x, y, z]" and "n \<le> 32"
  shows "(\<exists>nets. parseTrustedProxies (dotted [a, b, c, d] @ ''/'' @ dec n) = Inr nets
      \<and> (ipInNets (dotted [w, x, y, z]) nets \<longleftrightarrow>
           bytes_value [a, b, c, d] div 2 ^ (32 - n) = bytes_value [w, x, y, z] div 2 ^ (32 - n)))
    \<and> (\<exists>nets. parseTrustedProxies (dotted [a, b, c, d]) = Inr nets
      \<and> (ipInNets (dotted [w, x, y, z]) nets \<longleftrightarrow> [w, x, y, z] = [a, b, c, d]))"
proof -
  let ?as = "[a, b, c, d]" and ?xs = "[w, x, y, z]"
  let ?net = "\<lambda>k. cidr_network True (v4in6 ?as) k"
  have mem: "ipInNets (dotted ?xs) [?net k] \<longleftrightarrow>
      bytes_value ?as div 2 ^ (32 - k) = bytes_value ?xs div 2 ^ (32 - k)" if "k \<le> 32" for k
    using cidr_contains [OF assms(1,2) _ _ that] by (simp add: ipInNets_def ParseIP_dotted [OF assms(2)])
  have s: "Contains (u @ CHR ''/'' # v) ''/''" for u v
    using Contains_sublist [of "''/''" "''/''" u v] by (simp add: Contains_def HasPrefix_def)
  have "CHR ''/'' \<notin> set (dotted ?as)" using dotted_chars not_digits by force
  then have "\<not> Contains (dotted ?as) ''/''" unfolding Contains_conv by (metis in_set_conv_decomp append_Cons append_Nil)
  moreover have "IP_String ?as = dotted ?as" by (simp add: IP_String_def To4_def dotted_def)
  moreover have "''/32'' = ''/'' @ dec 32" by code_simp
  ultimately have "proxy_network (dotted ?as) = Inr (?net 32)"
    using ParseCIDR_dotted [OF assms(1), of 32]
    by (simp add: proxy_network_def ParseIP_dotted [OF assms(1)] To4_v4in6)
  then have "parseTrustedProxies (dotted ?as) = Inr [?net 32]" by (simp add: one_entry plain_dotted)
  moreover have "parseTrustedProxies (dotted ?as @ ''/'' @ dec n) = Inr [?net n]"
    using ParseCIDR_dotted [OF assms(1,3)] s [of "dotted ?as" "dec n"]
    by (subst one_entry) (simp_all add: plain_dotted plain_char_def proxy_network_def)
  moreover have "bytes_value ?as = bytes_value ?xs \<longleftrightarrow> ?xs = ?as"
    using bytes_value_inj [OF _ assms(1,2)] by auto
  ultimately show ?thesis using mem [OF assms(3)] mem [of 32] by simp
qed

theorem trusted_proxy_prefix_witness:
  "\<exists>nets. parseTrustedProxies (dotted [10, 0, 0, 0] @ ''/'' @ dec 8) = Inr nets \<and> ipInNets (dotted [10, 1, 2, 3]) nets"
proof -
  have "list_all (\<lambda>b. b < 256) [10, 0, 0, 0 :: nat]" "list_all (\<lambda>b. b < 256) [10, 1, 2, 3 :: nat]" "(8 :: nat) \<le> 32" by simp_all
  from conjunct1 [OF trusted_proxy_prefix [OF this]] show ?thesis by simp
qed

text \<open>A configuration the rest of the program can rely on.\<close>

definition config_ok :: "Config \<Rightarrow> bool" where
  "config_ok cfg \<longleftrightarrow>
     0 < cf_RedisCacheTTL cfg \<and> cf_RedisCacheTTL cfg < 2 ^ 63 \<and> 0 \<le> cf_RedisDB cfg
     \<and> 0 < cf_RateLimitPerMinute cfg \<and> cf_RateLimitPerMinute cfg < 2 ^ 63
     \<and> (\<exists>port. strconv_Atoi (cf_Port cfg) = Some port \<and> 1 \<le> port \<and> port \<le> 65535)
     \<and> cf_LogLevel cfg \<in> {''debug'', ''info'', ''warn'', ''error''} \<and> cf_LogFormat cfg \<in> {''text'', ''json''}
     \<and> cf_GroqAPIKey cfg \<noteq> [] \<and> cf_DatabaseURL cfg \<noteq> [] \<and> cf_OIDCIssuer cfg \<noteq> [] \<and> cf_OIDCAudience cfg \<noteq> []
     \<and> cf_CORSOrigins cfg \<noteq> [] \<and> list_all (\<lambda>p. p \<noteq> [] \<and> TrimSpace p = p) (cf_CORSOrigins cfg)
     \<and> list_all network_ok (cf_TrustedProxies cfg) \<and> TrimSpace (cf_M2MUserForwardSecret cfg) = cf_M2MUserForwardSecret cfg"

lemma Load_config_ok:
  assumes "Load env = Inr cfg"
  shows "config_ok cfg"
proof -
  from assms obtain ttl redisDB rateLimit trusted where l: "load_ttl env = Inr ttl" "load_redis_db env = Inr redisDB"
    "load_rate_limit env = Inr rateLimit" "parseTrustedProxies (os_Getenv env ''TRUSTED_PROXIES'') = Inr trusted"
    and o: "trimmed env ''OIDC_ISSUER'' \<noteq> []" "trimmed env ''OIDC_AUDIENCE'' \<noteq> []"
    and cfg: "cfg = load_fields env ttl redisDB rateLimit trusted" and ok: "check_fields cfg = None"
    by (rule Load_cases)
  have t: "0 < ttl \<and> ttl < 2 ^ 63" using l(1) ParseDuration_range by (auto simp: load_ttl_def split: option.splits if_splits)
  have d: "0 \<le> redisDB" using l(2) by (auto simp: load_redis_db_def split: option.splits if_splits)
  have r: "0 < rateLimit \<and> rateLimit < 2 ^ 63"
    using l(3) strconv_Atoi_range by (auto simp: load_rate_limit_def split: option.splits if_splits)
  have s: "TrimSpace (trimmed env k) = trimmed env k" for k by (simp add: trimmed_def)
  show ?thesis
    unfolding config_ok_def using check_fields_ok [OF ok] t d r o parseTrustedProxies_ok [OF l(4)] load_cors_entries [of env] s
    by (simp only: cfg load_fields_sel) blast
qed

text \<open>
  C38: Every configuration that loads is well formed: a positive cache lifetime and rate limit that fit in 64 bits,
  a Redis database that is not negative, a port from 1 to 65535, a known log level and format, the required
  secrets, at least one CORS origin and none of them blank, and trusted networks with a prefix mask and no
  host bits.
\<close>

theorem Load_well_formed:
  assumes "Load env = Inr cfg"
  shows "config_ok cfg"
  using assms by (rule Load_config_ok)

definition sample_env :: environ where
  "sample_env = map_of [(''GROQ_API_KEY'', ''k''), (''DATABASE_URL'', ''db''), (''OIDC_ISSUER'', ''i''),
     (''OIDC_AUDIENCE'', ''a''), (''REDIS_CACHE_TTL'', ''24h'')]"

theorem Load_well_formed_witness:
  "\<exists>cfg. Load sample_env = Inr cfg \<and> config_ok cfg"
proof -
  have p: "load_ttl sample_env = Inr 86400000000000" "load_redis_db sample_env = Inr 0"
    "load_rate_limit sample_env = Inr 60"
    "parseTrustedProxies (os_Getenv sample_env ''TRUSTED_PROXIES'') = Inr []"
    "trimmed sample_env ''OIDC_ISSUER'' \<noteq> []" "trimmed sample_env ''OIDC_AUDIENCE'' \<noteq> []"
    "check_fields (load_fields sample_env 86400000000000 0 60 []) = None"
    by code_simp+
  then have "Load sample_env = Inr (load_fields sample_env 86400000000000 0 60 [])"
    by (simp add: Load_def)
  then show ?thesis using Load_well_formed by blast
qed

end
