(* ===== verification/Database.thy ===== *)
theory Database
  imports Config
begin

text \<open>
  Packages \<^verbatim>\<open>internal/db\<close> and \<^verbatim>\<open>internal/migrate\<close>: the schema name, the connection loop with its pool, and
  the migration at startup. The driver and goose are parameters. A context that ends while the code waits
  is an answer of the wait.
\<close>

definition maxAttempts :: nat where "maxAttempts = 30"
definition DefaultSchema :: string where "DefaultSchema = ''pde''"

section \<open>Schema names\<close>

definition name_start :: "char \<Rightarrow> bool" where
  "name_start c \<longleftrightarrow> in_range 97 122 c \<or> in_range 65 90 c \<or> c = CHR ''_''"

definition name_char :: "char \<Rightarrow> bool" where
  "name_char c \<longleftrightarrow> name_start c \<or> in_range 48 57 c"

definition schemaNameRe :: "string \<Rightarrow> bool" where
  "schemaNameRe s = (case s of [] \<Rightarrow> False | c # cs \<Rightarrow> name_start c \<and> list_all name_char cs)"

definition NormalizeSearchPath :: "string \<Rightarrow> string option" where
  "NormalizeSearchPath path0 =
     (let path = (if path0 = [] then DefaultSchema else path0) in
      if \<not> schemaNameRe path then None else Some path)"

section \<open>Connecting\<close>

text \<open>
  The driver: whether the URL is understood, opening a pool, pinging it, the two names of
  \<^verbatim>\<open>to_regclass\<close>, closing the pool, the wait of a second (true when the context ended), and the quoting of
  \<^verbatim>\<open>pgx.Identifier\<close>.
\<close>

record 'w db_driver =
  dd_ParseConfig :: "string \<Rightarrow> bool"
  dd_NewPool :: "string \<Rightarrow> 'w \<Rightarrow> bool \<times> 'w"
  dd_Ping :: "'w \<Rightarrow> bool \<times> 'w"
  dd_regclass :: "'w \<Rightarrow> (string option \<times> string option) option \<times> 'w"
  dd_Close :: "'w \<Rightarrow> 'w"
  dd_wait :: "'w \<Rightarrow> bool \<times> 'w"
  dd_Sanitize :: "string \<Rightarrow> string"

datatype db_error = DBParseURL | DBSearchPath string | DBCheckTables | DBTablesMissing | DBCancelled | DBConnect

definition EnsureTables :: "'w db_driver \<Rightarrow> 'w \<Rightarrow> db_error option \<times> 'w" where
  "EnsureTables d w =
     (case dd_regclass d w of
        (None, w') \<Rightarrow> (Some DBCheckTables, w')
      | (Some (extractions, consents), w') \<Rightarrow>
          if extractions = None \<or> consents = None then (Some DBTablesMissing, w') else (None, w'))"

text \<open>The statement that every connection of the pool runs when it is checked out.\<close>

definition set_search_path :: "'w db_driver \<Rightarrow> string \<Rightarrow> string" where
  "set_search_path d path = ''SET search_path TO '' @ dd_Sanitize d path @ '', public''"

text \<open>The loop, on the number of attempts that are left. The pool is open when the result is \<open>None\<close>.\<close>

fun connect_loop :: "'w db_driver \<Rightarrow> string \<Rightarrow> nat \<Rightarrow> 'w \<Rightarrow> db_error option \<times> 'w" where
  "connect_loop d sql 0 w = (Some DBConnect, w)"
| "connect_loop d sql (Suc n) w =
     (let again = (\<lambda>w. case dd_wait d w of
                (True, w') \<Rightarrow> (Some DBCancelled, w')
              | (False, w') \<Rightarrow> connect_loop d sql n w') in
      case dd_NewPool d sql w of
        (False, w1) \<Rightarrow> again w1
      | (True, w1) \<Rightarrow>
          (case dd_Ping d w1 of
             (False, w2) \<Rightarrow> again (dd_Close d w2)
           | (True, w2) \<Rightarrow>
               (case EnsureTables d w2 of
                  (Some e, w3) \<Rightarrow> (Some e, dd_Close d w3)
                | (None, w3) \<Rightarrow> (None, w3))))"

definition Connect :: "'w db_driver \<Rightarrow> string \<Rightarrow> string option \<Rightarrow> 'w \<Rightarrow> db_error option \<times> 'w" where
  "Connect d databaseURL searchPath w =
     (if \<not> dd_ParseConfig d databaseURL then (Some DBParseURL, w)
      else
        let raw = (case searchPath of None \<Rightarrow> DefaultSchema | Some p \<Rightarrow> p) in
        case NormalizeSearchPath raw of
          None \<Rightarrow> (Some (DBSearchPath raw), w)
        | Some path \<Rightarrow> connect_loop d (set_search_path d path) maxAttempts w)"

section \<open>Migrating\<close>

record 'w sql_driver =
  sq_Open :: "string \<Rightarrow> bool"
  sq_Ping :: "'w \<Rightarrow> bool \<times> 'w"
  sq_Exec :: "string \<Rightarrow> 'w \<Rightarrow> bool \<times> 'w"
  sq_wait :: "'w \<Rightarrow> bool \<times> 'w"
  sq_Dialect :: "string \<Rightarrow> bool"
  sq_GooseUp :: "'w \<Rightarrow> bool \<times> 'w"

datatype migrate_error =
    MigOpen | MigPing | MigCancelled | MigSearchPath string | MigCreateSchema | MigSetPath | MigDialect | MigGoose

fun ping_loop :: "'w sql_driver \<Rightarrow> nat \<Rightarrow> 'w \<Rightarrow> migrate_error option \<times> 'w" where
  "ping_loop q 0 w = (Some MigPing, w)"
| "ping_loop q (Suc n) w =
     (case sq_Ping q w of
        (True, w1) \<Rightarrow> (None, w1)
      | (False, w1) \<Rightarrow>
          (case sq_wait q w1 of
             (True, w2) \<Rightarrow> (Some MigCancelled, w2)
           | (False, w2) \<Rightarrow> ping_loop q n w2))"

definition quoted :: "string \<Rightarrow> string" where
  "quoted schema = [CHR 0x22] @ schema @ [CHR 0x22]"

definition create_schema :: "string \<Rightarrow> string" where
  "create_schema schema = ''CREATE SCHEMA IF NOT EXISTS '' @ quoted schema"

definition use_schema :: "string \<Rightarrow> string" where
  "use_schema schema = ''SET search_path TO '' @ quoted schema @ '', public''"

definition migrate_schema :: "'w sql_driver \<Rightarrow> string \<Rightarrow> 'w \<Rightarrow> migrate_error option \<times> 'w" where
  "migrate_schema q schema w =
     (case sq_Exec q (create_schema schema) w of
        (False, w1) \<Rightarrow> (Some MigCreateSchema, w1)
      | (True, w1) \<Rightarrow>
          (case sq_Exec q (use_schema schema) w1 of
             (False, w2) \<Rightarrow> (Some MigSetPath, w2)
           | (True, w2) \<Rightarrow>
               if \<not> sq_Dialect q ''postgres'' then (Some MigDialect, w2)
               else case sq_GooseUp q w2 of
                 (False, w3) \<Rightarrow> (Some MigGoose, w3)
               | (True, w3) \<Rightarrow> (None, w3)))"

definition migrate_Up :: "'w sql_driver \<Rightarrow> string \<Rightarrow> string option \<Rightarrow> 'w \<Rightarrow> migrate_error option \<times> 'w" where
  "migrate_Up q databaseURL searchPath w =
     (if \<not> sq_Open q databaseURL then (Some MigOpen, w)
      else case ping_loop q maxAttempts w of
        (Some e, w1) \<Rightarrow> (Some e, w1)
      | (None, w1) \<Rightarrow>
          (let raw = (case searchPath of None \<Rightarrow> DefaultSchema | Some p \<Rightarrow> if p \<noteq> [] then p else DefaultSchema) in
           case NormalizeSearchPath raw of
             None \<Rightarrow> (Some (MigSearchPath raw), w1)
           | Some schema \<Rightarrow> migrate_schema q schema w1))"

section \<open>Laws\<close>

lemma NormalizeSearchPath_chars:
  assumes "NormalizeSearchPath p = Some n"
  shows "n \<noteq> []" "list_all name_char n" "schemaNameRe n"
proof -
  show r: "schemaNameRe n" using assms by (auto simp: NormalizeSearchPath_def Let_def split: if_splits)
  then show "n \<noteq> []" "list_all name_char n" by (auto simp: schemaNameRe_def name_char_def split: list.splits)
qed

lemma NormalizeSearchPath_idem: "NormalizeSearchPath p = Some n \<Longrightarrow> NormalizeSearchPath n = Some n"
  using NormalizeSearchPath_chars [of p n] by (auto simp: NormalizeSearchPath_def Let_def split: if_splits)

text \<open>The driver with counters: pools opened so far, attempts to open one, and pools that are open now.\<close>

record counters =
  ct_attempts :: nat
  ct_open :: int

definition counting_driver :: "'w db_driver \<Rightarrow> ('w \<times> counters) db_driver" where
  "counting_driver d =
     \<lparr>dd_ParseConfig = dd_ParseConfig d,
      dd_NewPool = (\<lambda>sql (w, c). case dd_NewPool d sql w of (ok, w') \<Rightarrow>
        (ok, w', \<lparr>ct_attempts = ct_attempts c + 1, ct_open = ct_open c + (if ok then 1 else 0)\<rparr>)),
      dd_Ping = (\<lambda>(w, c). case dd_Ping d w of (ok, w') \<Rightarrow> (ok, w', c)),
      dd_regclass = (\<lambda>(w, c). case dd_regclass d w of (x, w') \<Rightarrow> (x, w', c)),
      dd_Close = (\<lambda>(w, c). (dd_Close d w, \<lparr>ct_attempts = ct_attempts c, ct_open = ct_open c - 1\<rparr>)),
      dd_wait = (\<lambda>(w, c). case dd_wait d w of (x, w') \<Rightarrow> (x, w', c)),
      dd_Sanitize = dd_Sanitize d\<rparr>"

lemma counting_sel:
  "dd_ParseConfig (counting_driver d) = dd_ParseConfig d"
  "dd_NewPool (counting_driver d) sql (w, c) = (fst (dd_NewPool d sql w), snd (dd_NewPool d sql w),
     \<lparr>ct_attempts = ct_attempts c + 1, ct_open = ct_open c + (if fst (dd_NewPool d sql w) then 1 else 0)\<rparr>)"
  "dd_Ping (counting_driver d) (w, c) = (fst (dd_Ping d w), snd (dd_Ping d w), c)"
  "dd_regclass (counting_driver d) (w, c) = (fst (dd_regclass d w), snd (dd_regclass d w), c)"
  "dd_Close (counting_driver d) (w, c) = (dd_Close d w, \<lparr>ct_attempts = ct_attempts c, ct_open = ct_open c - 1\<rparr>)"
  "dd_wait (counting_driver d) (w, c) = (fst (dd_wait d w), snd (dd_wait d w), c)"
  "dd_Sanitize (counting_driver d) = dd_Sanitize d"
  by (simp_all add: counting_driver_def split: prod.split)

lemma counting_tables:
  "EnsureTables (counting_driver d) (w, c) = (fst (EnsureTables d w), snd (EnsureTables d w), c)"
  by (auto simp: EnsureTables_def counting_sel split: prod.split option.split)

lemma connect_loop_balance:
  "connect_loop (counting_driver d) sql n (w, c) = (r, w', c') \<Longrightarrow>
     connect_loop d sql n w = (r, w') \<and> ct_attempts c' \<le> ct_attempts c + n
     \<and> ct_open c' = ct_open c + (if r = None then 1 else 0)"
proof (induction n arbitrary: w c)
  case (Suc n)
  let ?d = "counting_driver d"
  have wait: "connect_loop d sql (Suc n) w = (case dd_wait d x of
        (True, w') \<Rightarrow> (Some DBCancelled, w') | (False, w') \<Rightarrow> connect_loop d sql n w') \<Longrightarrow>
      connect_loop ?d sql (Suc n) (w, c) = (case dd_wait ?d (x, k) of
        (True, w') \<Rightarrow> (Some DBCancelled, w') | (False, w') \<Rightarrow> connect_loop ?d sql n w') \<Longrightarrow>
      ct_attempts k = ct_attempts c + 1 \<Longrightarrow> ct_open k = ct_open c \<Longrightarrow> ?case" for x k
    using Suc.IH [of "snd (dd_wait d x)" k] Suc.prems
    by (cases "dd_wait d x"; cases "fst (dd_wait d x)") (auto simp: counting_sel)
  obtain ok w1 where p: "dd_NewPool d sql w = (ok, w1)" by (cases "dd_NewPool d sql w")
  show ?case
  proof (cases ok)
    case False
    with p show ?thesis
      by (intro wait [of w1 "\<lparr>ct_attempts = ct_attempts c + 1, ct_open = ct_open c\<rparr>"]) (simp_all add: counting_sel)
  next
    case True
    obtain pg w2 where g: "dd_Ping d w1 = (pg, w2)" by (cases "dd_Ping d w1")
    show ?thesis
    proof (cases pg)
      case False
      with p g True show ?thesis
        by (intro wait [of "dd_Close d w2" "\<lparr>ct_attempts = ct_attempts c + 1, ct_open = ct_open c\<rparr>"])
          (simp_all add: counting_sel)
    next
      case pg: True
      with p g True Suc.prems show ?thesis
        by (cases "EnsureTables d w2"; cases "fst (EnsureTables d w2)")
          (auto simp: counting_sel counting_tables)
    qed
  qed
qed auto

text \<open>The SQL driver with a log of the statements it is given.\<close>

definition logging_driver :: "'w sql_driver \<Rightarrow> ('w \<times> string list) sql_driver" where
  "logging_driver q =
     \<lparr>sq_Open = sq_Open q,
      sq_Ping = (\<lambda>(w, l). case sq_Ping q w of (x, w') \<Rightarrow> (x, w', l)),
      sq_Exec = (\<lambda>sql (w, l). case sq_Exec q sql w of (x, w') \<Rightarrow> (x, w', l @ [sql])),
      sq_wait = (\<lambda>(w, l). case sq_wait q w of (x, w') \<Rightarrow> (x, w', l)),
      sq_Dialect = sq_Dialect q,
      sq_GooseUp = (\<lambda>(w, l). case sq_GooseUp q w of (x, w') \<Rightarrow> (x, w', l @ [''goose up'']))\<rparr>"

lemma logging_sel:
  "sq_Open (logging_driver q) = sq_Open q"
  "sq_Ping (logging_driver q) (w, l) = (fst (sq_Ping q w), snd (sq_Ping q w), l)"
  "sq_Exec (logging_driver q) sql (w, l) = (fst (sq_Exec q sql w), snd (sq_Exec q sql w), l @ [sql])"
  "sq_wait (logging_driver q) (w, l) = (fst (sq_wait q w), snd (sq_wait q w), l)"
  "sq_Dialect (logging_driver q) = sq_Dialect q"
  "sq_GooseUp (logging_driver q) (w, l) = (fst (sq_GooseUp q w), snd (sq_GooseUp q w), l @ [''goose up''])"
  by (simp_all add: logging_driver_def split: prod.split)

lemma ping_loop_silent:
  "ping_loop (logging_driver q) n (w, l) = (fst (ping_loop q n w), snd (ping_loop q n w), l)"
proof (induction n arbitrary: w)
  case (Suc n)
  show ?case
    by (cases "sq_Ping q w"; cases "fst (sq_Ping q w)"; cases "sq_wait q (snd (sq_Ping q w))";
        cases "fst (sq_wait q (snd (sq_Ping q w)))") (simp_all add: logging_sel Suc.IH)
qed simp

text \<open>The statements of a migration that gets as far as the schema.\<close>

definition migration_script :: "string \<Rightarrow> string list" where
  "migration_script schema = [create_schema schema, use_schema schema, ''goose up'']"

lemma migrate_schema_log:
  "case migrate_schema (logging_driver q) schema (w, []) of (r, w', l) \<Rightarrow>
     (\<exists>n. l = take n (migration_script schema)) \<and> (r = None \<longrightarrow> l = migration_script schema)"
  unfolding migrate_schema_def migration_script_def logging_sel
  by (cases "sq_Exec q (create_schema schema) w"; cases "fst (sq_Exec q (create_schema schema) w)";
      cases "sq_Exec q (use_schema schema) (snd (sq_Exec q (create_schema schema) w))";
      cases "fst (sq_Exec q (use_schema schema) (snd (sq_Exec q (create_schema schema) w)))")
    (auto simp: logging_sel split: prod.split bool.split intro: exI [of _ 1] exI [of _ 2] exI [of _ 3])

lemma name_chars_safe:
  assumes "list_all name_char s"
  shows "CHR 0x22 \<notin> set s" "CHR '';'' \<notin> set s" "CHR '' '' \<notin> set s" "CHR ''-'' \<notin> set s"
  using assms by (auto simp: list_all_iff name_char_def name_start_def in_range_def byte_def)

section \<open>Properties\<close>

text \<open>
  C35: Connecting never leaks a pool and always ends. Whatever the driver does, at most 30 pools are opened, and at
  the end one pool is open when the connection succeeds and none when it fails: every pool that could not
  be pinged or that lacks the tables has been closed.
\<close>

theorem Connect_no_leak:
  "case Connect (counting_driver d) url path (w, \<lparr>ct_attempts = 0, ct_open = 0\<rparr>) of
     (r, w', c) \<Rightarrow> Connect d url path w = (r, w') \<and> ct_attempts c \<le> 30 \<and> ct_open c = (if r = None then 1 else 0)"
  using connect_loop_balance [of d "set_search_path d p" maxAttempts w "\<lparr>ct_attempts = 0, ct_open = 0\<rparr>" for p]
  by (auto simp: Connect_def counting_sel set_search_path_def Let_def maxAttempts_def split: prod.split option.split)


section \<open>Waiting for the database\<close>

text \<open>
  The world after so many failed attempts, and the attempt at which the database answers: none of the waits
  before it was interrupted.
\<close>

definition after_tries :: "('w \<Rightarrow> bool \<times> 'w) \<Rightarrow> ('w \<Rightarrow> bool \<times> 'w) \<Rightarrow> nat \<Rightarrow> 'w \<Rightarrow> 'w" where
  "after_tries try_it pause k = (\<lambda>w. snd (pause (snd (try_it w)))) ^^ k"

definition answers_at :: "('w \<Rightarrow> bool \<times> 'w) \<Rightarrow> ('w \<Rightarrow> bool \<times> 'w) \<Rightarrow> nat \<Rightarrow> 'w \<Rightarrow> bool" where
  "answers_at try_it pause k w \<longleftrightarrow>
     fst (try_it (after_tries try_it pause k w))
     \<and> (\<forall>i. i < k \<longrightarrow> \<not> fst (try_it (after_tries try_it pause i w))
          \<and> \<not> fst (pause (snd (try_it (after_tries try_it pause i w)))))"

lemma after_tries_simps [simp]:
  "after_tries t p 0 w = w" "after_tries t p (Suc k) w = after_tries t p k (snd (p (snd (t w))))"
  unfolding after_tries_def funpow_Suc_right by simp_all

lemma answers_at_0: "answers_at t p 0 w \<longleftrightarrow> fst (t w)"
  by (simp add: answers_at_def)

lemma answers_at_Suc:
  "answers_at t p (Suc k) w \<longleftrightarrow> \<not> fst (t w) \<and> \<not> fst (p (snd (t w))) \<and> answers_at t p k (snd (p (snd (t w))))"
  by (auto simp: answers_at_def All_less_Suc2)

lemma answers_bounded:
  "(\<exists>k. k < Suc n \<and> answers_at t p k w) \<longleftrightarrow>
     fst (t w) \<or> \<not> fst (p (snd (t w))) \<and> (\<exists>k. k < n \<and> answers_at t p k (snd (p (snd (t w)))))"
  (is "?L \<longleftrightarrow> ?R")
proof
  assume ?L
  then obtain k where "k < Suc n" "answers_at t p k w" by blast
  then show ?R by (cases k) (auto simp: answers_at_0 answers_at_Suc)
next
  assume ?R
  then show ?L
  proof (elim disjE conjE exE)
    assume "fst (t w)"
    then show ?L by (intro exI [of _ 0]) (simp add: answers_at_0)
  next
    fix k assume "\<not> fst (p (snd (t w)))" "k < n" "answers_at t p k (snd (p (snd (t w))))"
    then show ?L
      by (cases "fst (t w)") (auto simp: answers_at_0 answers_at_Suc intro: exI [of _ 0] exI [of _ "Suc k"])
  qed
qed

lemma ping_loop_exact:
  "fst (ping_loop q n w) = None \<longleftrightarrow> (\<exists>k. k < n \<and> answers_at (sq_Ping q) (sq_wait q) k w)"
  by (induction n arbitrary: w) (auto simp: answers_bounded split: prod.splits bool.splits)

lemma ping_loop_world:
  "answers_at (sq_Ping q) (sq_wait q) k w \<Longrightarrow> k < n \<Longrightarrow>
     ping_loop q n w = (None, snd (sq_Ping q (after_tries (sq_Ping q) (sq_wait q) k w)))"
  by (induction n arbitrary: k w; case_tac k) (auto simp: answers_at_0 answers_at_Suc split: prod.split bool.split)

text \<open>One attempt of \<open>Connect\<close>: a pool is opened and answers; when it does not answer it is closed.\<close>

definition open_pool :: "'w db_driver \<Rightarrow> string \<Rightarrow> 'w \<Rightarrow> bool \<times> 'w" where
  "open_pool d sql w =
     (case dd_NewPool d sql w of
        (False, w1) \<Rightarrow> (False, w1)
      | (True, w1) \<Rightarrow> (case dd_Ping d w1 of (False, w2) \<Rightarrow> (False, dd_Close d w2) | (True, w2) \<Rightarrow> (True, w2)))"

lemma connect_loop_Suc:
  "connect_loop d sql (Suc n) w =
     (case open_pool d sql w of
        (True, w2) \<Rightarrow> (case EnsureTables d w2 of (Some e, w3) \<Rightarrow> (Some e, dd_Close d w3) | (None, w3) \<Rightarrow> (None, w3))
      | (False, w1) \<Rightarrow> (case dd_wait d w1 of (True, w') \<Rightarrow> (Some DBCancelled, w') | (False, w') \<Rightarrow> connect_loop d sql n w'))"
  by (simp add: open_pool_def split: prod.split bool.split)

lemma connect_loop_exact:
  "fst (connect_loop d sql n w) = None \<longleftrightarrow>
     (\<exists>k. k < n \<and> answers_at (open_pool d sql) (dd_wait d) k w
        \<and> fst (EnsureTables d (snd (open_pool d sql (after_tries (open_pool d sql) (dd_wait d) k w)))) = None)"
proof (induction n arbitrary: w)
  case (Suc n)
  let ?t = "open_pool d sql" and ?p = "dd_wait d"
  let ?ok = "\<lambda>w. fst (EnsureTables d (snd (?t w))) = None"
  have step: "(\<exists>k. k < Suc n \<and> answers_at ?t ?p k w \<and> ?ok (after_tries ?t ?p k w)) \<longleftrightarrow>
      (if fst (?t w) then ?ok w
       else \<not> fst (?p (snd (?t w))) \<and> (\<exists>k. k < n \<and> answers_at ?t ?p k (snd (?p (snd (?t w))))
              \<and> ?ok (after_tries ?t ?p k (snd (?p (snd (?t w)))))))" (is "?L \<longleftrightarrow> ?R")
  proof
    assume ?L
    then obtain k where "k < Suc n" "answers_at ?t ?p k w" "?ok (after_tries ?t ?p k w)" by blast
    then show ?R by (cases k) (auto simp: answers_at_0 answers_at_Suc)
  next
    assume R: ?R
    show ?L
    proof (cases "fst (?t w)")
      case True
      with R show ?thesis by (intro exI [of _ 0]) (simp add: answers_at_0)
    next
      case False
      with R obtain k where "\<not> fst (?p (snd (?t w)))" "k < n" "answers_at ?t ?p k (snd (?p (snd (?t w))))"
        "?ok (after_tries ?t ?p k (snd (?p (snd (?t w)))))" by auto
      with False show ?thesis by (intro exI [of _ "Suc k"]) (simp add: answers_at_Suc)
    qed
  qed
  show ?case
    unfolding step connect_loop_Suc using Suc.IH
    by (cases "?t w"; cases "EnsureTables d (snd (?t w))"; cases "fst (EnsureTables d (snd (?t w)))")
      (auto split: prod.split bool.split)
qed simp

text \<open>
  C34: Waiting for the database. \<open>Connect\<close> gives a pool exactly when the address can be parsed, the schema name is
  allowed, and within 30 attempts, none interrupted, a pool is opened that answers and finds both tables.
\<close>

theorem Connect_live:
  "fst (Connect d databaseURL searchPath w) = None \<longleftrightarrow>
     dd_ParseConfig d databaseURL
     \<and> (\<exists>schema k. NormalizeSearchPath (case searchPath of None \<Rightarrow> ''pde'' | Some p \<Rightarrow> p) = Some schema \<and> k < 30
          \<and> (let attempt = open_pool d (set_search_path d schema) in
             answers_at attempt (dd_wait d) k w
             \<and> (\<exists>t c w'. dd_regclass d (snd (attempt (after_tries attempt (dd_wait d) k w))) = (Some (Some t, Some c), w'))))"
proof -
  have tables: "fst (EnsureTables d w) = None \<longleftrightarrow> (\<exists>t c w'. dd_regclass d w = (Some (Some t, Some c), w'))" for w
    by (auto simp: EnsureTables_def split: prod.splits option.splits)
  show ?thesis
    by (auto simp: Connect_def connect_loop_exact tables Let_def DefaultSchema_def maxAttempts_def split: option.splits)
qed

end
