(* ===== verification/Secrets.thy ===== *)
theory Secrets
  imports Config Go_Number "HOL-Library.Multiset"
begin

text \<open>
  Package \<^verbatim>\<open>internal/secrets\<close>: a JSON object from AWS Secrets Manager is merged into the environment. Go
  iterates over a map in an order of its own choice, so the order is an argument. AWS and the encoder of
  values that are not strings are parameters.
\<close>

definition loadedEnv :: string where "loadedEnv = ''KALKE_SECRETS_LOADED''"

text \<open>\<^verbatim>\<open>os.Setenv\<close>; its error, for a malformed name or a zero byte, is ignored by the program.\<close>

definition os_Setenv :: "environ \<Rightarrow> string \<Rightarrow> string \<Rightarrow> environ" where
  "os_Setenv env k v =
     (if k = [] \<or> CHR ''='' \<in> set k \<or> CHR 0x00 \<in> set k \<or> CHR 0x00 \<in> set v then env else env(k \<mapsto> v))"

text \<open>Decoding fails for a number that is too large for a \<^verbatim>\<open>float64\<close>.\<close>

fun any_fits :: "json \<Rightarrow> bool" where
  "any_fits (JNum s) \<longleftrightarrow> ParseFloat s \<noteq> None"
| "any_fits (JArr vs) = list_all any_fits vs"
| "any_fits (JObj ms) = list_all (\<lambda>m. any_fits (snd (snd m))) ms"
| "any_fits _ = True"

text \<open>The entries of the \<^verbatim>\<open>map[string]any\<close>.\<close>

definition secret_entries :: "string \<Rightarrow> (string \<times> json) list option" where
  "secret_entries raw =
     (case json_Parse raw of
        Some JNull \<Rightarrow> Some []
      | Some (JObj ms) \<Rightarrow> if any_fits (JObj ms) then Some (last_members ms) else None
      | _ \<Rightarrow> None)"

text \<open>The text a value is stored as, and the body of the loop for one entry.\<close>

definition value_text :: "(json \<Rightarrow> string option) \<Rightarrow> json \<Rightarrow> string option" where
  "value_text marshal v = (case v of JNull \<Rightarrow> None | JStr t \<Rightarrow> Some t | _ \<Rightarrow> marshal v)"

definition apply_entry :: "(json \<Rightarrow> string option) \<Rightarrow> string \<times> json \<Rightarrow> environ \<Rightarrow> environ" where
  "apply_entry marshal e env =
     (if os_Getenv env (fst e) \<noteq> [] then env
      else case value_text marshal (snd e) of None \<Rightarrow> env | Some t \<Rightarrow> os_Setenv env (fst e) t)"

datatype secrets_error = AWSConfigFailed | SecretUnavailable string | SecretJSON

text \<open>AWS answers with the string and the binary form of the secret.\<close>

record aws =
  aws_LoadConfig :: "string \<Rightarrow> bool"
  aws_GetSecret :: "string \<Rightarrow> string \<Rightarrow> (string option \<times> bytes) option"
  aws_Marshal :: "json \<Rightarrow> string option"

definition secret_region :: "environ \<Rightarrow> string" where
  "secret_region env =
     (let r = TrimSpace (os_Getenv env ''AWS_REGION'');
          r = (if r = [] then TrimSpace (os_Getenv env ''AWS_DEFAULT_REGION'') else r) in
      if r = [] then ''us-east-1'' else r)"

definition MustLoad ::
    "aws \<Rightarrow> ((string \<times> json) list \<Rightarrow> (string \<times> json) list) \<Rightarrow> environ \<Rightarrow> secrets_error option \<times> environ" where
  "MustLoad a order env =
     (if TrimSpace (os_Getenv env loadedEnv) \<noteq> [] then (None, env)
      else
        let sid = TrimSpace (os_Getenv env ''SECRET_ID'') in
        if sid = [] then (None, env)
        else if \<not> aws_LoadConfig a (secret_region env) then (Some AWSConfigFailed, env)
        else case aws_GetSecret a (secret_region env) sid of
          None \<Rightarrow> (Some (SecretUnavailable sid), env)
        | Some (str, bin) \<Rightarrow>
            (case secret_entries (case str of Some t \<Rightarrow> t | None \<Rightarrow> bin) of
               None \<Rightarrow> (Some SecretJSON, env)
             | Some es \<Rightarrow>
                 (None, os_Setenv (fold (apply_entry (aws_Marshal a)) (order es) env) loadedEnv ''1'')))"

section \<open>Laws\<close>

lemma apply_entry_other: "j \<noteq> fst e \<Longrightarrow> apply_entry m e env j = env j"
  by (auto simp: apply_entry_def os_Setenv_def split: option.split)

lemma apply_entry_local: "env j = env' j \<Longrightarrow> j = fst e \<Longrightarrow> apply_entry m e env j = apply_entry m e env' j"
  by (auto simp: apply_entry_def os_Setenv_def os_Getenv_def split: option.split)

lemma apply_entry_keeps: "os_Getenv env j \<noteq> [] \<Longrightarrow> apply_entry m e env j = env j"
  by (auto simp: apply_entry_def os_Setenv_def split: option.split)

text \<open>What a variable becomes depends on its own entry only.\<close>

lemma fold_entries:
  assumes "distinct (map fst es)"
  shows "fold (apply_entry m) es env j =
    (case map_of es j of None \<Rightarrow> env j | Some v \<Rightarrow> apply_entry m (j, v) env j)"
  using assms
proof (induction es arbitrary: env)
  case (Cons e es)
  show ?case
  proof (cases "fst e = j")
    case True
    with Cons.prems have n: "map_of es j = None" by (auto simp: map_of_eq_None_iff)
    with Cons True show ?thesis by (cases e) simp
  next
    case False
    then have "apply_entry m e env j = env j" by (intro apply_entry_other) simp
    moreover from this have "apply_entry m (j, v) (apply_entry m e env) j = apply_entry m (j, v) env j" for v
      by (intro apply_entry_local) simp_all
    ultimately show ?thesis using Cons False by (cases e) (simp split: option.split)
  qed
qed simp

lemma secret_entries_distinct: "secret_entries raw = Some es \<Longrightarrow> distinct (map fst es)"
  by (auto simp: secret_entries_def distinct_last_members split: option.splits json.splits if_splits)

lemma fold_entries_perm:
  assumes "distinct (map fst es)" and "mset es' = mset es"
  shows "fold (apply_entry m) es' env = fold (apply_entry m) es env"
proof
  fix j
  have d: "distinct (map fst es')" using assms by (metis mset_map mset_eq_imp_distinct_iff)
  have "set es' = set es" by (rule mset_eq_setD [OF assms(2)])
  then have "map_of es' i = Some v \<longleftrightarrow> map_of es i = Some v" for i v
    by (simp add: map_of_eq_Some_iff [OF d] map_of_eq_Some_iff [OF assms(1)])
  then have "map_of es' = map_of es" by (metis ext not_None_eq)
  then show "fold (apply_entry m) es' env j = fold (apply_entry m) es env j"
    by (simp add: fold_entries [OF d] fold_entries [OF assms(1)])
qed

section \<open>Properties\<close>

text \<open>
  C37: Loading the secrets does not depend on the order in which Go iterates over the map, never changes a
  variable that already has a value, and happens once: a second call changes nothing.
\<close>

theorem MustLoad_order_irrelevant:
  assumes "\<And>es. mset (order es) = mset es" and "MustLoad a order env = (None, env')"
  shows "MustLoad a (\<lambda>es. es) env = (None, env')
    \<and> (k \<noteq> loadedEnv \<longrightarrow> os_Getenv env k \<noteq> [] \<longrightarrow> env' k = env k)
    \<and> MustLoad a order' env' = (None, env')"
proof -
  have o: "fold (apply_entry m) (order es) env = fold (apply_entry m) es env"
    if "secret_entries raw = Some es" for raw es m
    by (rule fold_entries_perm [OF secret_entries_distinct [OF that] assms(1)])
  have keep: "fold (apply_entry m) es e k = e k" if "os_Getenv e k \<noteq> []" for m es e
    using that
  proof (induction es arbitrary: e)
    case (Cons x es)
    then have "apply_entry m x e k = e k" by (intro apply_entry_keeps)
    with Cons show ?case by (simp add: os_Getenv_def)
  qed simp
  have l: "\<not> (loadedEnv = [] \<or> CHR ''='' \<in> set loadedEnv \<or> CHR 0x00 \<in> set loadedEnv \<or> CHR 0x00 \<in> set ''1'')"
    "TrimSpace ''1'' \<noteq> []" by code_simp+
  have m: "MustLoad a (\<lambda>es. es) env = (None, env')"
    using assms(2) o by (auto simp: MustLoad_def Let_def split: if_splits option.splits)
  consider (unchanged) "env' = env"
      "TrimSpace (os_Getenv env loadedEnv) \<noteq> [] \<or> TrimSpace (os_Getenv env ''SECRET_ID'') = []"
    | (loaded) e where "env' = e(loadedEnv \<mapsto> ''1'')" "os_Getenv env k \<noteq> [] \<Longrightarrow> e k = env k"
    using assms(2) o keep l(1)
    by (auto simp: MustLoad_def Let_def os_Setenv_def split: if_splits option.splits)
  then show ?thesis
  proof cases
    case unchanged
    then have "MustLoad a order' env' = (None, env')" by (auto simp: MustLoad_def Let_def)
    with m unchanged show ?thesis by blast
  next
    case loaded
    then have "MustLoad a order' env' = (None, env')" by (simp add: MustLoad_def os_Getenv_def l(2))
    moreover have "k \<noteq> loadedEnv \<longrightarrow> os_Getenv env k \<noteq> [] \<longrightarrow> env' k = env k" using loaded by simp
    ultimately show ?thesis using m by blast
  qed
qed

theorem MustLoad_order_irrelevant_witness:
  "\<exists>a env env'. MustLoad a rev env = (None, env') \<and> MustLoad a (\<lambda>es. es) env = (None, env') \<and> env' ''A'' = Some ''x''"
proof -
  let ?a = "\<lparr>aws_LoadConfig = \<lambda>_. True,
    aws_GetSecret = \<lambda>_ _. Some (Some (jtext ''{`A`:`y`,`B`:`z`}''), []), aws_Marshal = \<lambda>_. None\<rparr>"
  let ?env = "map_of [(''SECRET_ID'', ''s''), (''A'', ''x'')] :: environ"
  have o: "mset (rev es) = mset es" for es :: "(string \<times> json) list" by simp
  have e: "secret_entries (jtext ''{`A`:`y`,`B`:`z`}'') = Some [(''A'', JStr ''y''), (''B'', JStr ''z'')]"
    "TrimSpace (os_Getenv ?env loadedEnv) = []" "TrimSpace (os_Getenv ?env ''SECRET_ID'') \<noteq> []"
    "os_Getenv ?env ''A'' \<noteq> []" "''A'' \<noteq> loadedEnv"
    by code_simp+
  obtain env' where l: "MustLoad ?a rev ?env = (None, env')"
    using e(2,3) by (simp add: MustLoad_def Let_def e(1))
  from MustLoad_order_irrelevant [where order = rev and k = "''A''", OF o l] e(4,5)
  have "MustLoad ?a (\<lambda>es. es) ?env = (None, env')" "env' ''A'' = ?env ''A''" by blast+
  with l show ?thesis by (intro exI [of _ ?a] exI [of _ ?env] exI [of _ env']) simp
qed

end
