(* ===== verification/OIDC.thy ===== *)
theory OIDC
  imports Auth
begin

text \<open>
  Package \<^verbatim>\<open>internal/auth\<close>, the construction of the authenticator: OIDC discovery, the choice of the issuer
  that tokens are checked against and of the address the signing keys are fetched from. The HTTP client,
  the key library and the URL parser of the Go library are parameters.
\<close>

section \<open>Addresses\<close>

text \<open>
  Of a parsed URL the program changes the scheme and the host only. The opaque part is not empty for an
  address like \<^verbatim>\<open>mailto:x\<close>, which is written without its host.
\<close>

record 'u url =
  url_Scheme :: string
  url_Opaque :: string
  url_Host :: string
  url_Rest :: 'u

record 'u url_lib =
  url_Parse :: "string \<Rightarrow> 'u url option"
  url_String :: "'u url \<Rightarrow> string"

definition rewriteURLOrigin :: "'u url_lib \<Rightarrow> string \<Rightarrow> string \<Rightarrow> string option" where
  "rewriteURLOrigin lib raw originBase =
     (case url_Parse lib raw of
        None \<Rightarrow> None
      | Some u \<Rightarrow>
          (case url_Parse lib originBase of
             None \<Rightarrow> None
           | Some base \<Rightarrow>
               if url_Scheme base = [] \<or> url_Host base = [] then None
               else Some (url_String lib (u\<lparr>url_Scheme := url_Scheme base, url_Host := url_Host base\<rparr>))))"

section \<open>Discovery\<close>

record oidc_discovery =
  od_Issuer :: string
  od_JWKSURI :: string

definition discovery_decoder :: "json \<Rightarrow> oidc_discovery \<Rightarrow> oidc_discovery option" where
  "discovery_decoder = into_struct [
     (''issuer'', field od_Issuer od_Issuer_update into_str),
     (''jwks_uri'', field od_JWKSURI od_JWKSURI_update into_str)]"

datatype auth_setup_error =
    OIDCRequired
  | DiscoveryFailed
  | DiscoveryStatus int
  | DiscoveryJSON
  | DiscoveryNoKeys
  | KeysURL
  | KeysFetch

text \<open>
  \<open>ow_get\<close> is a GET request with the status and the body of its reply, \<open>None\<close> when it fails; \<open>ow_keys\<close> is
  \<^verbatim>\<open>keyfunc.NewDefault\<close> for one address.
\<close>

record ('k, 'u, 'w) oidc_world =
  ow_get :: "string \<Rightarrow> 'w \<Rightarrow> (int \<times> bytes) option \<times> 'w"
  ow_keys :: "string \<Rightarrow> 'w \<Rightarrow> 'k option \<times> 'w"
  ow_url :: "'u url_lib"

definition discovery_URL :: "string \<Rightarrow> string" where
  "discovery_URL base = base @ ''/.well-known/openid-configuration''"

text \<open>The address of the keys and the issuer that the document names.\<close>

definition discoverJWKS ::
    "('k, 'u, 'w) oidc_world \<Rightarrow> string \<Rightarrow> 'w \<Rightarrow> (auth_setup_error + string \<times> string) \<times> 'w" where
  "discoverJWKS env base w =
     (case ow_get env (discovery_URL base) w of
        (None, w') \<Rightarrow> (Inl DiscoveryFailed, w')
      | (Some (status, body), w') \<Rightarrow>
          if status \<noteq> 200 then (Inl (DiscoveryStatus status), w')
          else
            (case Option.bind (json_Decode body) (\<lambda>v. discovery_decoder v \<lparr>od_Issuer = [], od_JWKSURI = []\<rparr>) of
               None \<Rightarrow> (Inl DiscoveryJSON, w')
             | Some doc \<Rightarrow>
                 if od_JWKSURI doc = [] then (Inl DiscoveryNoKeys, w')
                 else (Inr (od_JWKSURI doc, od_Issuer doc), w')))"

section \<open>The authenticator\<close>

record auth_options =
  ao_Issuer :: string
  ao_Audience :: string
  ao_DiscoveryURL :: string
  ao_IntrospectURL :: string
  ao_IntrospectSecret :: string

definition slash :: string where "slash = ''/''"

text \<open>Where the discovery document is read.\<close>

definition discovery_base :: "auth_options \<Rightarrow> string" where
  "discovery_base opts =
     (let discovery = TrimSuffix (TrimSpace (ao_DiscoveryURL opts)) slash in
      if discovery = [] then TrimSuffix (TrimSpace (ao_Issuer opts)) slash else discovery)"

text \<open>The issuer and the address of the keys, from the discovered ones.\<close>

definition trusted_issuer :: "auth_options \<Rightarrow> string \<Rightarrow> string" where
  "trusted_issuer opts discovered =
     (if ao_DiscoveryURL opts = [] \<and> discovered \<noteq> [] then TrimSuffix discovered slash
      else TrimSuffix (TrimSpace (ao_Issuer opts)) slash)"

definition keys_URL :: "'u url_lib \<Rightarrow> auth_options \<Rightarrow> string \<Rightarrow> string option" where
  "keys_URL lib opts jwksURL =
     (if ao_DiscoveryURL opts \<noteq> [] then rewriteURLOrigin lib jwksURL (discovery_base opts) else Some jwksURL)"

definition NewAuthenticator ::
    "('k, 'u, 'w) oidc_world \<Rightarrow> auth_options \<Rightarrow> 'w \<Rightarrow> (auth_setup_error + 'k authenticator) \<times> 'w" where
  "NewAuthenticator env opts w =
     (let audience = TrimSpace (ao_Audience opts) in
      if TrimSpace (ao_Issuer opts) = [] \<or> audience = [] then (Inl OIDCRequired, w)
      else
        case discoverJWKS env (discovery_base opts) w of
          (Inl e, w1) \<Rightarrow> (Inl e, w1)
        | (Inr (jwksURL, discovered), w1) \<Rightarrow>
            (case keys_URL (ow_url env) opts jwksURL of
               None \<Rightarrow> (Inl KeysURL, w1)
             | Some u \<Rightarrow>
                 (case ow_keys env u w1 of
                    (None, w2) \<Rightarrow> (Inl KeysFetch, w2)
                  | (Some k, w2) \<Rightarrow>
                      (Inr \<lparr>au_jwtEnabled = True, au_audience = audience, au_issuer = trusted_issuer opts discovered,
                            au_jwks = k, au_introspectURL = TrimSpace (ao_IntrospectURL opts),
                            au_introspectSecret = TrimSpace (ao_IntrospectSecret opts)\<rparr>, w2))))"

section \<open>Laws\<close>

text \<open>
  What the program relies on: when the origin of one parsed URL is put into another one that is not opaque, the
  written URL is read with that origin.
\<close>

definition url_laws :: "'u url_lib \<Rightarrow> bool" where
  "url_laws lib \<longleftrightarrow>
     (\<forall>raw u b base v. url_Parse lib raw = Some u \<and> url_Opaque u = [] \<and> url_Parse lib b = Some base
        \<and> url_Scheme base \<noteq> [] \<and> url_Host base \<noteq> []
        \<and> url_Parse lib (url_String lib (u\<lparr>url_Scheme := url_Scheme base, url_Host := url_Host base\<rparr>)) = Some v \<longrightarrow>
       url_Scheme v = url_Scheme base \<and> url_Host v = url_Host base)"

definition same_origin :: "'u url_lib \<Rightarrow> string \<Rightarrow> string \<Rightarrow> bool" where
  "same_origin lib a b \<longleftrightarrow>
     (\<forall>u v. url_Parse lib a = Some u \<and> url_Parse lib b = Some v \<longrightarrow>
       url_Scheme u = url_Scheme v \<and> url_Host u = url_Host v)"

definition opaque_URL :: "'u url_lib \<Rightarrow> string \<Rightarrow> bool" where
  "opaque_URL lib raw \<longleftrightarrow> (\<exists>u. url_Parse lib raw = Some u \<and> url_Opaque u \<noteq> [])"

lemma rewriteURLOrigin_origin:
  assumes "url_laws lib" and "rewriteURLOrigin lib raw b = Some u" and "\<not> opaque_URL lib raw"
  shows "same_origin lib u b"
proof -
  from assms(2) obtain x y where x: "url_Parse lib raw = Some x" and y: "url_Parse lib b = Some y"
    and ne: "url_Scheme y \<noteq> []" "url_Host y \<noteq> []"
    and u: "u = url_String lib (x\<lparr>url_Scheme := url_Scheme y, url_Host := url_Host y\<rparr>)"
    by (auto simp: rewriteURLOrigin_def split: option.splits if_splits)
  have "url_Opaque x = []" using assms(3) x by (simp add: opaque_URL_def)
  with assms(1) x y ne show ?thesis unfolding same_origin_def url_laws_def u by (metis option.inject)
qed

lemma discoverJWKS_ok:
  assumes "discoverJWKS env base w = (Inr (j, i), w')"
  shows "j \<noteq> []" "\<exists>body. ow_get env (discovery_URL base) w = (Some (200, body), w')"
  using assms by (auto simp: discoverJWKS_def split: prod.splits option.splits if_splits)

lemma NewAuthenticator_ok:
  assumes "NewAuthenticator env opts w = (Inr a, w')"
  obtains j i w1 u where "discoverJWKS env (discovery_base opts) w = (Inr (j, i), w1)"
    and "keys_URL (ow_url env) opts j = Some u" and "ow_keys env u w1 = (Some (au_jwks a), w')"
    and "a = \<lparr>au_jwtEnabled = True, au_audience = TrimSpace (ao_Audience opts), au_issuer = trusted_issuer opts i,
      au_jwks = au_jwks a, au_introspectURL = TrimSpace (ao_IntrospectURL opts),
      au_introspectSecret = TrimSpace (ao_IntrospectSecret opts)\<rparr>"
    and "TrimSpace (ao_Issuer opts) \<noteq> []" and "TrimSpace (ao_Audience opts) \<noteq> []"
proof -
  from assms obtain j i w1 u where
    "discoverJWKS env (discovery_base opts) w = (Inr (j, i), w1)" "keys_URL (ow_url env) opts j = Some u"
    "ow_keys env u w1 = (Some (au_jwks a), w')"
    "a = \<lparr>au_jwtEnabled = True, au_audience = TrimSpace (ao_Audience opts), au_issuer = trusted_issuer opts i,
      au_jwks = au_jwks a, au_introspectURL = TrimSpace (ao_IntrospectURL opts),
      au_introspectSecret = TrimSpace (ao_IntrospectSecret opts)\<rparr>"
    "TrimSpace (ao_Issuer opts) \<noteq> []" "TrimSpace (ao_Audience opts) \<noteq> []"
    unfolding NewAuthenticator_def Let_def
    by (auto split: if_splits prod.splits sum.splits option.splits)
  then show thesis by (rule that)
qed

section \<open>Properties\<close>

text \<open>
  C22: What tokens are checked against. An authenticator is only made with an audience, after the discovery
  document was read with status 200. When a separate discovery address is configured, the issuer is the
  configured one whatever the document says, and the signing keys are fetched from the origin of that address (unless the document names an opaque URL, which has none);
  otherwise the issuer is the one that the document names, if it names one, and the keys come from the
  address in the document.
\<close>

theorem NewAuthenticator_trust:
  assumes "NewAuthenticator env opts w = (Inr a, w')" and "url_laws (ow_url env)"
  shows "au_jwtEnabled a \<and> au_audience a = TrimSpace (ao_Audience opts) \<and> au_audience a \<noteq> []
    \<and> (\<exists>j i body w1 u. ow_get env (discovery_URL (discovery_base opts)) w = (Some (200, body), w1)
         \<and> discoverJWKS env (discovery_base opts) w = (Inr (j, i), w1)
         \<and> ow_keys env u w1 = (Some (au_jwks a), w')
         \<and> (if ao_DiscoveryURL opts \<noteq> []
            then au_issuer a = TrimSuffix (TrimSpace (ao_Issuer opts)) slash
              \<and> (opaque_URL (ow_url env) j \<or> same_origin (ow_url env) u (discovery_base opts))
            else u = j \<and> au_issuer a = TrimSuffix (if i = [] then TrimSpace (ao_Issuer opts) else i) slash))"
proof -
  from assms(1) obtain j i w1 u where d: "discoverJWKS env (discovery_base opts) w = (Inr (j, i), w1)"
    and u: "keys_URL (ow_url env) opts j = Some u" and k: "ow_keys env u w1 = (Some (au_jwks a), w')"
    and a: "a = \<lparr>au_jwtEnabled = True, au_audience = TrimSpace (ao_Audience opts), au_issuer = trusted_issuer opts i,
      au_jwks = au_jwks a, au_introspectURL = TrimSpace (ao_IntrospectURL opts),
      au_introspectSecret = TrimSpace (ao_IntrospectSecret opts)\<rparr>"
    and ne: "TrimSpace (ao_Audience opts) \<noteq> []"
    by (rule NewAuthenticator_ok)
  have sel: "au_jwtEnabled a" "au_audience a = TrimSpace (ao_Audience opts)" "au_issuer a = trusted_issuer opts i"
    by (subst a, simp)+
  from u have "if ao_DiscoveryURL opts \<noteq> []
      then au_issuer a = TrimSuffix (TrimSpace (ao_Issuer opts)) slash
        \<and> (opaque_URL (ow_url env) j \<or> same_origin (ow_url env) u (discovery_base opts))
      else u = j \<and> au_issuer a = TrimSuffix (if i = [] then TrimSpace (ao_Issuer opts) else i) slash"
    using rewriteURLOrigin_origin [OF assms(2)] by (auto simp: sel keys_URL_def trusted_issuer_def split: if_splits)
  with d k discoverJWKS_ok(2) [OF d] show ?thesis unfolding sel(2) using sel(1) ne by blast
qed

text \<open>For an example, URLs that consist of a scheme, a host and the rest.\<close>

definition sample_parse :: "string \<Rightarrow> string url option" where
  "sample_parse s =
     (let r = dropWhile (\<lambda>c. c \<noteq> CHR '':'') s; h = drop 3 r in
      if take 3 r = ''://''
      then Some \<lparr>url_Scheme = takeWhile (\<lambda>c. c \<noteq> CHR '':'') s, url_Opaque = [], url_Host = takeWhile (\<lambda>c. c \<noteq> CHR ''/'') h,
        url_Rest = dropWhile (\<lambda>c. c \<noteq> CHR ''/'') h\<rparr>
      else None)"

definition sample_lib :: "string url_lib" where
  "sample_lib = \<lparr>url_Parse = sample_parse, url_String = (\<lambda>u. url_Scheme u @ ''://'' @ url_Host u @ url_Rest u)\<rparr>"

definition sample_oidc :: "(unit, string, unit) oidc_world" where
  "sample_oidc =
     \<lparr>ow_get = (\<lambda>_ w. (Some (200, jtext ''{`issuer`:`http://evil`,`jwks_uri`:`http://localhost/certs`}''), w)),
      ow_keys = (\<lambda>u w. (if u = ''http://caddy/certs'' then Some () else None, w)), ow_url = sample_lib\<rparr>"

definition sample_options :: auth_options where
  "sample_options = \<lparr>ao_Issuer = ''http://localhost/'', ao_Audience = ''pde'', ao_DiscoveryURL = ''http://caddy/realm'',
     ao_IntrospectURL = [], ao_IntrospectSecret = []\<rparr>"

lemma sample_parse_form:
  assumes "CHR '':'' \<notin> set sc" and "CHR ''/'' \<notin> set h" and "rest = [] \<or> hd rest = CHR ''/''"
  shows "sample_parse (sc @ ''://'' @ h @ rest) =
    Some \<lparr>url_Scheme = sc, url_Opaque = [], url_Host = h, url_Rest = rest\<rparr>"
proof -
  have P: "c \<noteq> CHR '':''" if "c \<in> set sc" for c using assms(1) that by blast
  have Q: "c \<noteq> CHR ''/''" if "c \<in> set h" for c using assms(2) that by blast
  have "takeWhile (\<lambda>c. c \<noteq> CHR '':'') (sc @ ''://'' @ h @ rest) = sc"
    and "dropWhile (\<lambda>c. c \<noteq> CHR '':'') (sc @ ''://'' @ h @ rest) = ''://'' @ h @ rest"
    by (subst takeWhile_append2 dropWhile_append2, erule P, simp)+
  moreover have "takeWhile (\<lambda>c. c \<noteq> CHR ''/'') (h @ rest) = h" "dropWhile (\<lambda>c. c \<noteq> CHR ''/'') (h @ rest) = rest"
    by (subst takeWhile_append2 dropWhile_append2, erule Q, use assms(3) in \<open>cases rest, simp_all\<close>)+
  ultimately show ?thesis by (simp add: sample_parse_def)
qed

lemma sample_parse_parts:
  assumes "sample_parse s = Some u"
  shows "CHR '':'' \<notin> set (url_Scheme u)" "CHR ''/'' \<notin> set (url_Host u)"
    "url_Rest u = [] \<or> hd (url_Rest u) = CHR ''/''"
proof -
  let ?h = "drop 3 (dropWhile (\<lambda>c. c \<noteq> CHR '':'') s)"
  from assms have u: "url_Scheme u = takeWhile (\<lambda>c. c \<noteq> CHR '':'') s" "url_Host u = takeWhile (\<lambda>c. c \<noteq> CHR ''/'') ?h"
    "url_Rest u = dropWhile (\<lambda>c. c \<noteq> CHR ''/'') ?h"
    by (auto simp: sample_parse_def Let_def split: if_splits)
  show "CHR '':'' \<notin> set (url_Scheme u)" "CHR ''/'' \<notin> set (url_Host u)" unfolding u by (metis (mono_tags, lifting) set_takeWhileD)+
  have "dropWhile P xs = [] \<or> \<not> P (hd (dropWhile P xs))" for P and xs :: string by (induction xs) auto
  from this [of "\<lambda>c. c \<noteq> CHR ''/''" ?h] show "url_Rest u = [] \<or> hd (url_Rest u) = CHR ''/''" unfolding u by simp
qed

lemma sample_url_laws: "url_laws sample_lib"
proof -
  have "url_Scheme v = url_Scheme base \<and> url_Host v = url_Host base"
    if "sample_parse raw = Some u" "sample_parse b = Some base"
      "sample_parse (url_Scheme base @ ''://'' @ url_Host base @ url_Rest u) = Some v" for raw u b base v
  proof -
    from sample_parse_form [OF sample_parse_parts(1,2) [OF that(2)] sample_parse_parts(3) [OF that(1)]] that(3)
    have "v = \<lparr>url_Scheme = url_Scheme base, url_Opaque = [], url_Host = url_Host base, url_Rest = url_Rest u\<rparr>"
      by (simp only: option.inject)
    then show ?thesis by simp
  qed
  moreover have "url_Parse sample_lib = sample_parse"
    and "url_String sample_lib (u\<lparr>url_Scheme := a, url_Host := b\<rparr>) = a @ ''://'' @ b @ url_Rest u" for u a b
    by (simp_all add: sample_lib_def)
  ultimately show ?thesis unfolding url_laws_def by metis
qed

theorem NewAuthenticator_trust_witness:
  "\<exists>a. NewAuthenticator sample_oidc sample_options () = (Inr a, ()) \<and> au_issuer a = ''http://localhost''"
proof -
  have "NewAuthenticator sample_oidc sample_options () =
      (Inr \<lparr>au_jwtEnabled = True, au_audience = ''pde'', au_issuer = ''http://localhost'', au_jwks = (),
        au_introspectURL = [], au_introspectSecret = []\<rparr>, ())" (is "_ = (Inr ?a, ())") by code_simp
  moreover have "url_laws (ow_url sample_oidc)" by (simp add: sample_oidc_def sample_url_laws)
  moreover have "TrimSuffix (TrimSpace (ao_Issuer sample_options)) slash = ''http://localhost''"
    and "ao_DiscoveryURL sample_options \<noteq> []" by code_simp+
  ultimately show ?thesis using NewAuthenticator_trust [of sample_oidc sample_options "()" ?a "()"] by auto
qed

end
