(* ===== verification/Startup.thy ===== *)
theory Startup
  imports Registry Groq_Client Http_Trace Database Secrets OIDC
begin

text \<open>
  The programs: \<^verbatim>\<open>cmd/api\<close>, which builds every component from the environment and serves requests, and
  \<^verbatim>\<open>cmd/migrate\<close>. The world is the two tables of the database and the rest, on which the network, Redis and
  the clock depend. What the database, Redis, the provider and the identity provider do is in the record
  \<open>backend\<close>; what only the start needs is in the record \<open>boot\<close>.
\<close>

section \<open>Constructors\<close>

record redis_options =
  ro_Addr :: string
  ro_Password :: string
  ro_DB :: int
  ro_TLS :: bool

text \<open>A Redis client: values, counters, and whether it answers.\<close>

record 'w redis_client =
  rd_kv :: "'w redis_kv"
  rd_counter :: "'w redis_counter"
  rd_ping :: "'w \<Rightarrow> bool \<times> 'w"
  rd_close :: "'w \<Rightarrow> 'w"

definition cache_New ::
    "(redis_options \<Rightarrow> 'w redis_client) \<Rightarrow> ('r extract_result \<Rightarrow> bytes option) \<Rightarrow> (bytes \<Rightarrow> 'r extract_result option)
      \<Rightarrow> string \<Rightarrow> string \<Rightarrow> int \<Rightarrow> int \<Rightarrow> bool \<Rightarrow> 'w redis_client \<times> ('w, 'r) cache" where
  "cache_New dial marshal unmarshal addr password db ttl useTLS =
     (let rdb = dial \<lparr>ro_Addr = addr, ro_Password = password, ro_DB = db, ro_TLS = useTLS\<rparr> in
      (rdb, \<lparr>ca_rdb = Some (rd_kv rdb), ca_ttl = ttl, ca_marshal = marshal, ca_unmarshal = unmarshal\<rparr>))"

text \<open>\<open>None\<close> is a cache without a client; a ping that fails at the start is only logged.\<close>

definition cache_Ping :: "'w redis_client option \<Rightarrow> 'w \<Rightarrow> string option \<times> 'w" where
  "cache_Ping rdb w =
     (case rdb of
        None \<Rightarrow> (Some ''redis not configured'', w)
      | Some c \<Rightarrow> (case rd_ping c w of (ok, w') \<Rightarrow> (if ok then None else Some ''redis error'', w')))"

definition cache_Close :: "'w redis_client option \<Rightarrow> 'w \<Rightarrow> 'w" where
  "cache_Close rdb w = (case rdb of None \<Rightarrow> w | Some c \<Rightarrow> rd_close c w)"

definition groq_New :: "string \<Rightarrow> string \<Rightarrow> string \<Rightarrow> client" where
  "groq_New apiKey model baseURL = \<lparr>cl_apiKey = apiKey, cl_model = model, cl_baseURL = baseURL\<rparr>"

section \<open>The world and the database\<close>

record 'w world =
  wd_rows :: "row list"
  wd_consents :: "consent_row list"
  wd_rest :: 'w

definition outer :: "('w \<Rightarrow> 'x \<times> 'w) \<Rightarrow> 'w world \<Rightarrow> 'x \<times> 'w world" where
  "outer f wd = (case f (wd_rest wd) of (x, w') \<Rightarrow> (x, wd\<lparr>wd_rest := w'\<rparr>))"

definition outer_unit :: "('w \<Rightarrow> 'w) \<Rightarrow> 'w world \<Rightarrow> 'w world" where
  "outer_unit f wd = wd\<lparr>wd_rest := f (wd_rest wd)\<rparr>"

text \<open>
  \<open>bk_tx\<close> decides a transaction, \<open>bk_query\<close> whether a query succeeds and \<open>bk_exec\<close> whether a statement does;
  \<open>bk_msg\<close>, \<open>bk_mail\<close> and \<open>bk_order\<close> are the parameters of the document types.
\<close>

record ('k, 'w) backend =
  bk_net :: "'w net"
  bk_json_error :: "string \<Rightarrow> string"
  bk_msg :: "string \<Rightarrow> string"
  bk_mail :: "string \<Rightarrow> string option"
  bk_order :: "(string \<times> string list) list \<Rightarrow> (string \<times> string list) list"
  bk_redis :: "redis_options \<Rightarrow> 'w redis_client"
  bk_auth :: "('k, 'w) auth_world"
  bk_now :: "'w \<Rightarrow> int"
  bk_ping :: "'w \<Rightarrow> bool \<times> 'w"
  bk_tx :: "'w \<Rightarrow> tx_outcome \<times> 'w"
  bk_query :: "'w \<Rightarrow> bool \<times> 'w"
  bk_exec :: "'w \<Rightarrow> bool \<times> 'w"
  bk_uuid :: "string \<Rightarrow> string option"
  bk_marshal :: "doc_result extract_result \<Rightarrow> bytes option"
  bk_cache_marshal :: "doc_result extract_result \<Rightarrow> bytes option"
  bk_cache_unmarshal :: "bytes \<Rightarrow> doc_result extract_result option"

definition db_write ::
    "('k, 'w) backend \<Rightarrow> (tx_outcome \<Rightarrow> row list \<Rightarrow> store_error option \<times> row list) \<Rightarrow> 'w world \<Rightarrow> store_error option \<times> 'w world" where
  "db_write b op wd =
     (case bk_tx b (wd_rest wd) of (tx, w') \<Rightarrow>
        (case op tx (wd_rows wd) of (e, rows) \<Rightarrow> (e, wd\<lparr>wd_rows := rows, wd_rest := w'\<rparr>)))"

definition db_read :: "('k, 'w) backend \<Rightarrow> (bool \<Rightarrow> row list \<Rightarrow> 'x) \<Rightarrow> 'w world \<Rightarrow> 'x \<times> 'w world" where
  "db_read b op wd =
     (case bk_query b (wd_rest wd) of (ok, w') \<Rightarrow> (op ok (wd_rows wd), wd\<lparr>wd_rest := w'\<rparr>))"

definition NewExtractions :: "('k, 'w) backend \<Rightarrow> ('w world, doc_result) ExtractionStore" where
  "NewExtractions b =
     \<lparr>es_Insert = (\<lambda>rec. db_write b (\<lambda>tx. Insert True (bk_marshal b) tx rec)),
      es_Replace = (\<lambda>rec. db_write b (\<lambda>tx. Replace True (bk_marshal b) tx rec)),
      es_ListBySubject = (\<lambda>u d n. db_read b (\<lambda>ok. ListBySubject True ok u d n)),
      es_GetByIDForSubject = (\<lambda>i u. db_read b (\<lambda>ok. GetByIDForSubject True ok (bk_uuid b) i u))\<rparr>"

definition NewConsents :: "('k, 'w) backend \<Rightarrow> 'w world ConsentStore" where
  "NewConsents b = (\<lambda>rec wd.
     (case bk_exec b (wd_rest wd) of (ok, w') \<Rightarrow>
        (case consent_Insert True ok (bk_now b w') rec (wd_consents wd) of (e, rows) \<Rightarrow>
           (e, wd\<lparr>wd_consents := rows, wd_rest := w'\<rparr>))))"

section \<open>Dependencies\<close>

definition api_cache :: "('k, 'w) backend \<Rightarrow> Config \<Rightarrow> 'w redis_client \<times> ('w, doc_result) cache" where
  "api_cache b cfg =
     cache_New (bk_redis b) (bk_cache_marshal b) (bk_cache_unmarshal b) (cf_RedisAddr cfg) (cf_RedisPassword cfg)
       (cf_RedisDB cfg) (cf_RedisCacheTTL cfg) (cf_RedisTLS cfg)"

definition api_service :: "('k, 'w) backend \<Rightarrow> Config \<Rightarrow> ('w, doc_result) service" where
  "api_service b cfg =
     NewService (groq_llm (bk_json_error b) (bk_net b) (groq_New (cf_GroqAPIKey cfg) (cf_GroqModel cfg) (cf_GroqBaseURL cfg)))
       (doc_types (bk_msg b) (bk_mail b) (bk_order b))"

definition auth_options_of :: "Config \<Rightarrow> auth_options" where
  "auth_options_of cfg =
     \<lparr>ao_Issuer = cf_OIDCIssuer cfg, ao_Audience = cf_OIDCAudience cfg, ao_DiscoveryURL = cf_OIDCDiscoveryURL cfg,
      ao_IntrospectURL = cf_AuthIntrospectURL cfg, ao_IntrospectSecret = cf_IntrospectSecret cfg\<rparr>"

text \<open>The cache, the service, the limiter and the authenticator, as the interfaces of the server.\<close>

definition cache_iface :: "('w, 'r) cache \<Rightarrow> ('w world, 'r) ResultCache" where
  "cache_iface c =
     \<lparr>rc_Get = (\<lambda>d h. outer (cache_Get c d h)), rc_Set = (\<lambda>d h x. outer_unit (cache_Set c d h x)),
      rc_Delete = (\<lambda>d h. outer_unit (cache_Delete c d h))\<rparr>"

definition service_iface :: "('w, 'r) service \<Rightarrow> ('w world, 'r) Extractor" where
  "service_iface svc = \<lparr>ex_KnownTypes = KnownTypes svc, ex_Extract = (\<lambda>d doc. outer (Extract svc d doc))\<rparr>"

definition limiter_iface :: "('w \<Rightarrow> int) \<Rightarrow> 'w limiter \<Rightarrow> 'w world RateLimiter" where
  "limiter_iface now l = (\<lambda>k i. outer (\<lambda>w. Allow (Some l) (now w) k i w))"

definition auth_iface :: "('k, 'w) auth_world \<Rightarrow> 'k authenticator \<Rightarrow> 'w world Authenticator" where
  "auth_iface env a = (\<lambda>tok. outer (Authenticate env a tok))"

definition api_deps :: "('k, 'w) backend \<Rightarrow> Config \<Rightarrow> 'k authenticator \<Rightarrow> ('w world, doc_result) Deps" where
  "api_deps b cfg a =
     (let (rdb, c) = api_cache b cfg; limiter = New_limiter (Some (rd_counter rdb)) (cf_RateLimitPerMinute cfg) in
      \<lparr>dp_Extractor = Some (service_iface (api_service b cfg)), dp_Pool = Some (outer (bk_ping b)),
       dp_Cache = Some (cache_iface c), dp_Extractions = Some (NewExtractions b), dp_Consents = Some (NewConsents b),
       dp_TrustedProxies = cf_TrustedProxies cfg, dp_CORSOrigins = cf_CORSOrigins cfg,
       dp_Auth = Some (auth_iface (bk_auth b) a), dp_RateLimit = Some (limiter_iface (bk_now b) limiter),
       dp_M2MUserForwardSecret = cf_M2MUserForwardSecret cfg\<rparr>)"

section \<open>cmd/api\<close>

datatype log_level = LogDebug | LogInfo | LogWarn | LogError
datatype log_format = LogText | LogJSON

text \<open>The levels in their order; a logger drops what is below its level.\<close>

fun log_rank :: "log_level \<Rightarrow> int" where
  "log_rank LogDebug = - 4"
| "log_rank LogInfo = 0"
| "log_rank LogWarn = 4"
| "log_rank LogError = 8"

lemma log_rank_inj: "log_rank a = log_rank b \<Longrightarrow> a = b"
  by (cases a; cases b) simp_all

instantiation log_level :: linorder
begin

definition less_eq_log_level :: "log_level \<Rightarrow> log_level \<Rightarrow> bool" where
  "less_eq_log_level a b \<longleftrightarrow> log_rank a \<le> log_rank b"

definition less_log_level :: "log_level \<Rightarrow> log_level \<Rightarrow> bool" where
  "less_log_level a b \<longleftrightarrow> log_rank a < log_rank b"

instance
  by standard (auto simp: less_eq_log_level_def less_log_level_def intro: log_rank_inj)

end

fun slog_level :: "level \<Rightarrow> log_level" where
  "slog_level LevelInfo = LogInfo"
| "slog_level LevelWarn = LogWarn"
| "slog_level LevelError = LogError"

definition setupLogger :: "string \<Rightarrow> string \<Rightarrow> log_level \<times> log_format" where
  "setupLogger level fmt =
     (let l = ToLower level in
      (if l = ''debug'' then LogDebug else if l = ''warn'' then LogWarn else if l = ''error'' then LogError else LogInfo,
       if EqualFold fmt ''text'' then LogText else LogJSON))"

definition with_logger :: "log_level \<times> log_format \<Rightarrow> ('i, 'w, 'r) platform \<Rightarrow> ('i, 'w, 'r) platform" where
  "with_logger logger pf =
     pf\<lparr>pf_log := (\<lambda>e w. if fst logger \<le> slog_level (le_level e) then pf_log pf e w else w)\<rparr>"

lemma with_logger_sel:
  "pf_log (with_logger logger pf) e w = (if fst logger \<le> slog_level (le_level e) then pf_log pf e w else w)"
  "pf_now (with_logger logger pf) = pf_now pf" "pf_route (with_logger logger pf) = pf_route pf"
  "pf_pre (with_logger logger pf) = pf_pre pf" "pf_fallback (with_logger logger pf) = pf_fallback pf"
  "pf_encode (with_logger logger pf) = pf_encode pf"
  by (simp_all add: with_logger_def)

text \<open>Whatever level is configured, an answer that is a server error is logged.\<close>

lemma server_errors_logged:
  assumes "500 \<le> status" and "le_level e = fst (access_level status)"
  shows "pf_log (with_logger (setupLogger level fmt) pf) e w = pf_log pf e w"
proof -
  have "a \<le> LogError" for a by (cases a) (simp_all add: less_eq_log_level_def)
  with assms show ?thesis by (simp add: with_logger_sel access_level_def)
qed

datatype start_error =
    SecretsFailed secrets_error
  | ConfigFailed config_error
  | MigrateFailed migrate_error
  | DatabaseFailed db_error
  | AuthFailed auth_setup_error
  | HandlerFailed string

datatype served = SignalReceived | ListenError | ListenClosed

record ('k, 'u, 'w) boot =
  bt_dotenv :: "environ \<Rightarrow> environ"
  bt_aws :: aws
  bt_order :: "(string \<times> json) list \<Rightarrow> (string \<times> json) list"
  bt_sql :: "'w sql_driver"
  bt_db :: "'w db_driver"
  bt_oidc :: "('k, 'u, 'w) oidc_world"
  bt_shutdown :: "'w \<Rightarrow> bool \<times> 'w"

text \<open>From the environment to the handler; every failure ends the program with exit code 1.\<close>

definition api_start ::
    "('k, 'u, 'w) boot \<Rightarrow> ('k, 'w) backend \<Rightarrow> environ \<Rightarrow> 'w
      \<Rightarrow> (start_error + Config \<times> (log_level \<times> log_format) \<times> ('w world, doc_result) Server) \<times> 'w" where
  "api_start bt b env0 w =
     (case MustLoad (bt_aws bt) (bt_order bt) (bt_dotenv bt env0) of
        (Some e, env) \<Rightarrow> (Inl (SecretsFailed e), w)
      | (None, env) \<Rightarrow>
          (case Load env of
             Inl e \<Rightarrow> (Inl (ConfigFailed e), w)
           | Inr cfg \<Rightarrow>
               let logger = setupLogger (cf_LogLevel cfg) (cf_LogFormat cfg) in
               case migrate_Up (bt_sql bt) (cf_DatabaseURL cfg) (Some (cf_DBSearchPath cfg)) w of
                 (Some e, w1) \<Rightarrow> (Inl (MigrateFailed e), w1)
               | (None, w1) \<Rightarrow>
                   (case Connect (bt_db bt) (cf_DatabaseURL cfg) (Some (cf_DBSearchPath cfg)) w1 of
                      (Some e, w2) \<Rightarrow> (Inl (DatabaseFailed e), w2)
                    | (None, w2) \<Rightarrow>
                        (case NewAuthenticator (bt_oidc bt) (auth_options_of cfg)
                            (snd (cache_Ping (Some (fst (api_cache b cfg))) w2)) of
                           (Inl e, w3) \<Rightarrow> (Inl (AuthFailed e), w3)
                         | (Inr a, w3) \<Rightarrow>
                             (case NewServer (api_deps b cfg a) of
                                Inl m \<Rightarrow> (Inl (HandlerFailed m), w3)
                              | Inr s \<Rightarrow> (Inr (cfg, logger, s), w3))))))"

text \<open>
  The deferred calls close Redis and then the pool; \<^verbatim>\<open>os.Exit\<close> does not run them. The second argument is how
  serving ends.
\<close>

definition api_stop ::
    "('k, 'u, 'w) boot \<Rightarrow> ('k, 'w) backend \<Rightarrow> Config \<Rightarrow> served \<Rightarrow> 'w \<Rightarrow> nat \<times> 'w" where
  "api_stop bt b cfg ev w =
     (let close_all = (\<lambda>w. dd_Close (bt_db bt) (cache_Close (Some (fst (api_cache b cfg))) w)) in
      case ev of
        ListenError \<Rightarrow> (1, w)
      | ListenClosed \<Rightarrow> (0, close_all w)
      | SignalReceived \<Rightarrow>
          (case bt_shutdown bt w of
             (False, w') \<Rightarrow> (1, w')
           | (True, w') \<Rightarrow> (0, close_all w')))"

definition api_main ::
    "('k, 'u, 'w) boot \<Rightarrow> ('k, 'w) backend \<Rightarrow> ('i, 'w world, doc_result) platform \<Rightarrow> environ \<Rightarrow> request list \<Rightarrow> served
      \<Rightarrow> 'w world \<Rightarrow> nat \<times> doc_result response list \<times> 'w world" where
  "api_main bt b pf env rs ev wd =
     (case outer (api_start bt b env) wd of
        (Inl e, wd1) \<Rightarrow> (1, [], wd1)
      | (Inr (cfg, logger, s), wd1) \<Rightarrow>
          (case serve_all (with_logger logger pf) s rs wd1 of
             (resps, wd2) \<Rightarrow> (case outer (api_stop bt b cfg ev) wd2 of (code, wd3) \<Rightarrow> (code, resps, wd3))))"

section \<open>cmd/migrate\<close>

definition migrate_main :: "('k, 'u, 'w) boot \<Rightarrow> environ \<Rightarrow> 'w \<Rightarrow> nat \<times> 'w" where
  "migrate_main bt env0 w =
     (let env = bt_dotenv bt env0; databaseURL = os_Getenv env ''DATABASE_URL'';
          searchPath = os_Getenv env ''DB_SEARCH_PATH'' in
      if databaseURL = [] then (1, w)
      else case migrate_Up (bt_sql bt) databaseURL (Some (if searchPath = [] then ''pde'' else searchPath)) w of
        (Some e, w') \<Rightarrow> (1, w')
      | (None, w') \<Rightarrow> (0, w'))"

section \<open>Laws\<close>

text \<open>A search path with blanks around it is trimmed by the configuration and refused by \<^verbatim>\<open>cmd/migrate\<close>.\<close>

lemma search_path_blanks:
  "NormalizeSearchPath (getenv [''DB_SEARCH_PATH'' \<mapsto> '' pde''] ''DB_SEARCH_PATH'' ''pde'') = Some ''pde''"
  "NormalizeSearchPath (os_Getenv [''DB_SEARCH_PATH'' \<mapsto> '' pde''] ''DB_SEARCH_PATH'') = None"
  by code_simp+

lemma api_deps_sel:
  "dp_Extractor (api_deps b cfg a) = Some (service_iface (api_service b cfg))"
  "dp_Pool (api_deps b cfg a) = Some (outer (bk_ping b))"
  "dp_Cache (api_deps b cfg a) = Some (cache_iface (snd (api_cache b cfg)))"
  "dp_Extractions (api_deps b cfg a) = Some (NewExtractions b)"
  "dp_Consents (api_deps b cfg a) = Some (NewConsents b)"
  "dp_TrustedProxies (api_deps b cfg a) = cf_TrustedProxies cfg"
  "dp_CORSOrigins (api_deps b cfg a) = cf_CORSOrigins cfg"
  "dp_Auth (api_deps b cfg a) = Some (auth_iface (bk_auth b) a)"
  "dp_RateLimit (api_deps b cfg a) =
     Some (limiter_iface (bk_now b) (New_limiter (Some (rd_counter (fst (api_cache b cfg)))) (cf_RateLimitPerMinute cfg)))"
  "dp_M2MUserForwardSecret (api_deps b cfg a) = cf_M2MUserForwardSecret cfg"
  by (simp_all add: api_deps_def case_prod_beta Let_def)

definition api_server :: "('k, 'w) backend \<Rightarrow> Config \<Rightarrow> 'k authenticator \<Rightarrow> ('w world, doc_result) Server" where
  "api_server b cfg a =
     \<lparr>sv_extractor = service_iface (api_service b cfg), sv_pool = Some (outer (bk_ping b)),
      sv_cache = Some (cache_iface (snd (api_cache b cfg))), sv_extractions = Some (NewExtractions b),
      sv_consents = Some (NewConsents b), sv_trustedProxies = cf_TrustedProxies cfg, sv_corsOrigins = cf_CORSOrigins cfg,
      sv_auth = Some (auth_iface (bk_auth b) a),
      sv_limiter = Some (limiter_iface (bk_now b) (New_limiter (Some (rd_counter (fst (api_cache b cfg)))) (cf_RateLimitPerMinute cfg))),
      sv_m2mUserForwardSecret = TrimSpace (cf_M2MUserForwardSecret cfg)\<rparr>"

text \<open>The last check of the start never fails.\<close>

lemma NewServer_api: "NewServer (api_deps b cfg a) = Inr (api_server b cfg a)"
  by (simp add: NewServer_def api_deps_sel api_server_def)

lemma api_start_ok:
  assumes "api_start bt b env w = (Inr (cfg, logger, s), w')"
  obtains env' w1 w2 a where "MustLoad (bt_aws bt) (bt_order bt) (bt_dotenv bt env) = (None, env')"
    and "Load env' = Inr cfg" and "logger = setupLogger (cf_LogLevel cfg) (cf_LogFormat cfg)"
    and "migrate_Up (bt_sql bt) (cf_DatabaseURL cfg) (Some (cf_DBSearchPath cfg)) w = (None, w1)"
    and "Connect (bt_db bt) (cf_DatabaseURL cfg) (Some (cf_DBSearchPath cfg)) w1 = (None, w2)"
    and "NewAuthenticator (bt_oidc bt) (auth_options_of cfg) (snd (cache_Ping (Some (fst (api_cache b cfg))) w2)) = (Inr a, w')"
    and "s = api_server b cfg a"
  using assms unfolding api_start_def Let_def NewServer_api
  by (auto split: prod.splits option.splits sum.splits)

lemma api_start_no_handler_error: "fst (api_start bt b env w) \<noteq> Inl (HandlerFailed m)"
  unfolding api_start_def Let_def NewServer_api by (auto split: prod.splits option.splits sum.splits)

lemma Connect_tables:
  assumes "Connect d databaseURL (Some path) w = (None, w')"
  shows "\<exists>schema w1 w2 t c. NormalizeSearchPath path = Some schema \<and> dd_regclass d w1 = (Some (Some t, Some c), w2)"
proof -
  from assms obtain schema where s: "NormalizeSearchPath path = Some schema"
    and l: "fst (connect_loop d (set_search_path d schema) maxAttempts w) = None"
    by (auto simp: Connect_def Let_def split: if_splits option.splits)
  from l obtain w1 where "fst (EnsureTables d w1) = None" unfolding connect_loop_exact by blast
  then obtain t c w2 where "dd_regclass d w1 = (Some (Some t, Some c), w2)"
    by (auto simp: EnsureTables_def split: prod.splits option.splits if_splits)
  with s show ?thesis by blast
qed

lemma Load_audience: "Load env = Inr cfg \<Longrightarrow> TrimSpace (cf_OIDCAudience cfg) = cf_OIDCAudience cfg"
  by (erule Load_cases) (simp add: load_fields_sel trimmed_def)

lemma NewAuthenticator_audience:
  "NewAuthenticator env (auth_options_of cfg) w = (Inr a, w') \<Longrightarrow>
     au_jwtEnabled a \<and> au_audience a = TrimSpace (cf_OIDCAudience cfg)"
proof (erule NewAuthenticator_ok)
  fix i
  assume "a = \<lparr>au_jwtEnabled = True, au_audience = TrimSpace (ao_Audience (auth_options_of cfg)),
      au_issuer = trusted_issuer (auth_options_of cfg) i, au_jwks = au_jwks a,
      au_introspectURL = TrimSpace (ao_IntrospectURL (auth_options_of cfg)),
      au_introspectSecret = TrimSpace (ao_IntrospectSecret (auth_options_of cfg))\<rparr>"
  then have "au_jwtEnabled a" "au_audience a = TrimSpace (ao_Audience (auth_options_of cfg))"
    by (cases a, simp)+
  then show ?thesis by (simp add: auth_options_of_def)
qed

section \<open>Properties\<close>


end
