(* ===== verification/Isolation.thy ===== *)
theory Isolation
  imports Startup Http_Laws
begin

text \<open>
  End to end: what the service shows to one user never comes from another. A condition on the world that the
  dependencies of the server keep is kept by every request; the condition that every stored row was made by a
  request of its owner is one.
\<close>

section \<open>Conditions that requests keep\<close>

definition bearer :: "request \<Rightarrow> string" where
  "bearer r = TrimSpace (TrimPrefix (TrimSpace (rq_Header r ''Authorization'')) ''Bearer '')"

text \<open>The subject in whose name a request acts when its token is accepted with the scope that is needed.\<close>

definition acts_for :: "('w, 'r) Server \<Rightarrow> request \<Rightarrow> string \<Rightarrow> bool" where
  "acts_for s r u \<longleftrightarrow>
     (\<exists>auth w p. sv_auth s = Some auth \<and> fst (auth (bearer r) w) = Some p \<and> HasScope p ScopeExtractWrite
        \<and> u = actor_subject s (WithPrincipal r p))"

text \<open>The records a request may store.\<close>

definition issues :: "('w, 'r) Server \<Rightarrow> request \<Rightarrow> 'r extraction_record \<Rightarrow> bool" where
  "issues s r rec \<longleftrightarrow>
     acts_for s r (er_AuthSubject rec) \<and> er_RequestID rec = rq_RequestID r
     \<and> (\<exists>data. acceptable r (er_DocType rec) data \<and> er_ContentSHA256 rec = shaHex data)"

locale server_condition =
  fixes pf :: "('i, 'w, 'r) platform" and s :: "('w, 'r) Server" and I :: "'w \<Rightarrow> bool"
    and A :: "'r extraction_record \<Rightarrow> bool"
  assumes keep_log: "I w \<Longrightarrow> I (pf_log pf e w)"
    and keep_auth: "sv_auth s = Some auth \<Longrightarrow> I w \<Longrightarrow> I (snd (auth tok w))"
    and keep_ping: "sv_pool s = Some ping_db \<Longrightarrow> I w \<Longrightarrow> I (snd (ping_db w))"
    and keep_consent: "sv_consents s = Some cons \<Longrightarrow> I w \<Longrightarrow> I (snd (cons c w))"
    and keep_get: "sv_cache s = Some ca \<Longrightarrow> I w \<Longrightarrow> I (snd (rc_Get ca d h w))"
    and keep_set: "sv_cache s = Some ca \<Longrightarrow> I w \<Longrightarrow> I (rc_Set ca d h x w)"
    and keep_delete: "sv_cache s = Some ca \<Longrightarrow> I w \<Longrightarrow> I (rc_Delete ca d h w)"
    and keep_limiter: "sv_limiter s = Some limiter \<Longrightarrow> I w \<Longrightarrow> I (snd (limiter k i w))"
    and keep_extract: "I w \<Longrightarrow> I (snd (ex_Extract (sv_extractor s) d doc w))"
    and keep_insert: "sv_extractions s = Some es \<Longrightarrow> A rec \<Longrightarrow> I w \<Longrightarrow> I (snd (es_Insert es rec w))"
    and keep_replace: "sv_extractions s = Some es \<Longrightarrow> A rec \<Longrightarrow> I w \<Longrightarrow> I (snd (es_Replace es rec w))"
    and keep_list: "sv_extractions s = Some es \<Longrightarrow> I w \<Longrightarrow> I (snd (es_ListBySubject es u d n w))"
    and keep_read: "sv_extractions s = Some es \<Longrightarrow> I w \<Longrightarrow> I (snd (es_GetByIDForSubject es j u w))"
begin

definition keeps :: "('w \<Rightarrow> 'x \<times> 'w) \<Rightarrow> bool" where
  "keeps m \<longleftrightarrow> (\<forall>w. I w \<longrightarrow> I (snd (m w)))"

lemma keepsI: "(\<And>w. I w \<Longrightarrow> I (snd (m w))) \<Longrightarrow> keeps m"
  by (simp add: keeps_def)

lemma keepsD: "keeps m \<Longrightarrow> I w \<Longrightarrow> I (snd (m w))"
  by (simp add: keeps_def)

lemma keeps_return: "keeps (\<lambda>w. (x, w))"
  by (simp add: keeps_def)

lemma keeps_bind: "keeps m \<Longrightarrow> (\<And>x. keeps (k x)) \<Longrightarrow> keeps (\<lambda>w. case m w of (x, w') \<Rightarrow> k x w')"
  by (simp add: keeps_def case_prod_beta)

lemma keep_persist:
  assumes "A (record_of a)" and "I w"
  shows "I (server_persist s a w)"
proof -
  have st: "I (snd (store_extraction s a w))"
    using assms by (auto simp: store_extraction_def intro: keep_insert keep_replace split: option.split)
  then show ?thesis
    by (auto simp: server_persist_def intro: keep_set split: prod.splits option.splits)
qed

lemma keep_invalidate: "I w \<Longrightarrow> I (invalidateCache s d h w)"
  by (auto simp: invalidateCache_def intro: keep_delete split: option.split)

lemma keep_recordConsent: "I w \<Longrightarrow> I (recordConsent s c w)"
  by (auto simp: recordConsent_def intro: keep_consent split: option.split)

lemma keeps_lookup: "keeps (lookupCache s d h)"
  by (rule keepsI) (auto simp: lookupCache_def intro: keep_get split: option.split)

lemma keeps_limit: "keeps (enforceLLMRateLimit s r h)"
proof (rule keepsI)
  fix w assume I: "I w"
  have "I w'" if "sv_limiter s = Some limiter" "limiter k i w = (x, w')" for limiter k i x w'
    using keep_limiter [OF that(1) I, of k i] that(2) by simp
  then show "I (snd (enforceLLMRateLimit s r h w))"
    using I by (auto simp: enforceLLMRateLimit_def Let_def split: option.split prod.split)
qed

lemma keeps_hit:
  assumes "\<And>n. A (record_of (args_of s r j (jb_mime j) (stamp (shaHex (jb_data j)) ''hit'' x) False n))"
  shows "keeps (extract_hit pf s r h j x)"
  by (rule keepsI) (simp add: extract_hit_def Let_def keep_persist assms)

lemma keeps_miss:
  assumes A: "\<And>mime x b n. A (record_of (args_of s r j mime x b n))"
  shows "keeps (extract_miss pf s r h j)"
  unfolding extract_miss_def [abs_def]
proof (rule keeps_bind [OF keeps_limit], goal_cases)
  case (1 x)
  show ?case
  proof (cases x)
    case (Inl resp)
    then show ?thesis by (simp add: keeps_return)
  next
    case (Inr h')
    have "keeps (\<lambda>w. case ex_Extract (sv_extractor s) (jb_docType j) doc w of
        (Inl err, w1) \<Rightarrow> (let (status, msg) = mapExtractError err in (writeErr h' status msg, w1))
      | (Inr x, w1) \<Rightarrow>
          (let result = stamp (shaHex (jb_data j)) ''miss'' x;
               w2 = server_persist s (args_of s r j (pd_MIME doc) result (jb_refresh j) (pf_now pf w1)) w1 in
           (writeJSON h' 200 (toExtractResponse result), w2)))" for doc
    proof (rule keeps_bind, goal_cases)
      case 1
      show ?case by (rule keepsI) (rule keep_extract)
    next
      case (2 y)
      show ?case by (rule keepsI) (simp add: Let_def case_prod_beta keep_persist A split: sum.split)
    qed
    then show ?thesis
      by (cases "PrepareWithOptions (pf_pre pf) (jb_filename j) (jb_data j) (prefers_vision (jb_docType j))")
        (simp_all add: Inr case_prod_beta keeps_return)
  qed
qed

lemma keeps_job:
  assumes A: "\<And>mime x b n. A (record_of (args_of s r j mime x b n))"
  shows "keeps (extract_job pf s r h j)"
proof (rule keepsI)
  fix w0 assume "I w0"
  let ?w = "recordConsent s (consent_of s r j (pf_now pf w0)) w0"
  have w: "I ?w" using \<open>I w0\<close> by (rule keep_recordConsent)
  show "I (snd (extract_job pf s r h j w0))"
  proof (cases "jb_refresh j")
    case True
    then show ?thesis
      using keepsD [OF keeps_miss [OF A] keep_invalidate [OF w]] by (simp add: extract_job_def Let_def)
  next
    case False
    obtain x w' where l: "lookupCache s (jb_docType j) (shaHex (jb_data j)) ?w = (x, w')" by fastforce
    have w': "I w'" using keepsD [OF keeps_lookup w, of "jb_docType j" "shaHex (jb_data j)"] l by simp
    show ?thesis
      using False l keepsD [OF keeps_miss [OF A] w'] keepsD [OF keeps_hit [OF A] w']
      by (simp add: extract_job_def Let_def split: option.split)
  qed
qed

lemma keeps_list: "keeps (listExtractions s r h)"
proof (rule keepsI)
  fix w assume I: "I w"
  have "I w'" if "sv_extractions s = Some es" "es_ListBySubject es u d n w = (x, w')" for es u d n x w'
    using keep_list [OF that(1) I, of u d n] that(2) by simp
  then show "I (snd (listExtractions s r h w))"
    using I by (auto simp: listExtractions_def Let_def split: option.split prod.split sum.split)
qed

lemma keeps_read: "keeps (getExtraction s r i h)"
proof (rule keepsI)
  fix w assume I: "I w"
  have "I w'" if "sv_extractions s = Some es" "es_GetByIDForSubject es i u w = (x, w')" for es u x w'
    using keep_read [OF that(1) I, of i u] that(2) by simp
  then show "I (snd (getExtraction s r i h w))"
    using I by (auto simp: getExtraction_def Let_def split: option.split prod.split sum.split)
qed

lemma keeps_ready: "keeps (ready s h)"
proof (rule keepsI)
  fix w assume I: "I w"
  have "I w'" if "sv_pool s = Some png" "png w = (x, w')" for png x w'
    using keep_ping [OF that(1) I] that(2) by simp
  then show "I (snd (ready s h w))"
    using I by (auto simp: ready_def Let_def split: option.split prod.split)
qed

lemma keeps_authenticate:
  assumes "\<And>auth w p h. sv_auth s = Some auth \<Longrightarrow> fst (auth (bearer r) w) = Some p \<Longrightarrow>
      HasScope p ScopeExtractWrite \<Longrightarrow> keeps (n (WithPrincipal r p) h)"
  shows "keeps (authenticate s n r h)"
proof (rule keepsI)
  fix w assume I: "I w"
  show "I (snd (authenticate s n r h w))"
  proof (cases "sv_auth s")
    case None
    with I show ?thesis by (simp add: authenticate_def)
  next
    case (Some auth)
    obtain x w' where a: "auth (bearer r) w = (x, w')" by fastforce
    have w': "I w'" using keep_auth [OF Some I, of "bearer r"] a by simp
    have "I (snd (n (WithPrincipal r p) h w'))" if "x = Some p" "HasScope p ScopeExtractWrite" for p
      using assms [OF Some _ that(2), of w h] a that(1) w' by (simp add: keepsD)
    with Some I a w' show ?thesis
      by (simp add: authenticate_def Let_def bearer_def split: option.split)
  qed
qed

lemma args_issued:
  assumes "sv_auth s = Some auth" and "fst (auth (bearer r) w) = Some p" and "HasScope p ScopeExtractWrite"
    and "accept_request pf (WithPrincipal r p) h w1 = Inr j"
  shows "issues s r (record_of (args_of s (WithPrincipal r p) j mime x b n))"
proof -
  have "acceptable r (jb_docType j) (jb_data j)" by (rule accept_request_acceptable [OF assms(4)])
  moreover have "er_RequestID (record_of (args_of s (WithPrincipal r p) j mime x b n)) = rq_RequestID r"
    by (simp add: record_of_def args_of_def case_prod_beta Let_def WithPrincipal_sel)
  ultimately show ?thesis
    using assms(1-3) by (auto simp: issues_def acts_for_def record_of_sel args_of_sel)
qed

lemma ServeHTTP_keeps:
  assumes "\<And>rec. issues s r rec \<Longrightarrow> A rec"
  shows "keeps (ServeHTTP pf s r)"
proof -
  have ex: "keeps (extract_handler pf s (WithPrincipal r p) h)"
    if "sv_auth s = Some auth" "fst (auth (bearer r) w) = Some p" "HasScope p ScopeExtractWrite" for auth w p h
  proof (rule keepsI)
    fix w1 assume I: "I w1"
    show "I (snd (extract_handler pf s (WithPrincipal r p) h w1))"
    proof (cases "accept_request pf (WithPrincipal r p) h w1")
      case (Inl resp)
      with I show ?thesis by (simp add: extract_handler_def)
    next
      case (Inr j)
      have "A (record_of (args_of s (WithPrincipal r p) j mime x b n))" for mime x b n
        by (rule assms) (rule args_issued [OF that Inr])
      from keepsD [OF keeps_job [OF this] I] Inr show ?thesis by (simp add: extract_handler_def)
    qed
  qed
  have d: "keeps (dispatch pf s r h)" for h
  proof (cases "pf_route pf (rq_Method r) (rq_Path r)")
    case RExtract
    then show ?thesis unfolding dispatch_def [abs_def] by (simp add: keeps_authenticate ex)
  qed (simp_all add: dispatch_def [abs_def] health_def keeps_return keeps_ready keeps_authenticate keeps_list keeps_read)
  have "keeps (accessLog pf (dispatch pf s) r h)" for h
  proof (rule keepsI)
    fix w assume I: "I w"
    let ?h = "if rq_RequestID r = [] then h else h(''X-Request-ID'' \<mapsto> rq_RequestID r)"
    obtain resp w' where r: "dispatch pf s r ?h w = (resp, w')" by fastforce
    have "I w'" using keepsD [OF d I, of ?h] r by simp
    then show "I (snd (accessLog pf (dispatch pf s) r h w))"
      by (simp add: accessLog_def Let_def r case_prod_beta keep_log)
  qed
  then show ?thesis
    by (simp add: ServeHTTP_def [abs_def] cors_def Let_def keeps_def)
qed

end

section \<open>What a response shows\<close>

fun shown :: "'r body \<Rightarrow> summary set" where
  "shown (ListBody xs) = set xs"
| "shown (ItemBody x) = {x}"
| "shown _ = {}"

text \<open>The answer of the router to a request it does not match shows no extraction.\<close>

definition plain_fallback :: "('i, 'w, 'r) platform \<Rightarrow> bool" where
  "plain_fallback pf \<longleftrightarrow> (\<forall>m q h. shown (rp_Body (pf_fallback pf m q h)) = {})"

lemma shown_written:
  "rp_Body (writeJSON h n v) = v" "rp_Body (writeErr h n m) = ErrorBody m"
  "shown (rp_Body (writeUploadError h e)) = {}" "shown (toExtractResponse x) = {}"
  by (simp_all add: writeErr_def writeJSON_def writeUploadError_def toExtractResponse_def split: upload_error.split)

lemma shown_accept: "accept_request pf r h w = Inl resp \<Longrightarrow> shown (rp_Body resp) = {}"
  by (auto simp: accept_request_def Let_def shown_written
      split: if_splits sum.splits prod.splits option.splits)

lemma shown_limit: "fst (enforceLLMRateLimit s r h w) = Inl resp \<Longrightarrow> shown (rp_Body resp) = {}"
  by (auto simp: enforceLLMRateLimit_def Let_def shown_written split: option.splits prod.splits if_splits)

lemma shown_miss: "shown (rp_Body (fst (extract_miss pf s r h j w))) = {}"
proof -
  obtain x w' where x: "enforceLLMRateLimit s r h w = (x, w')" by fastforce
  then show ?thesis
    using shown_limit [of s r h w]
    by (auto simp: extract_miss_def shown_written Let_def split: sum.split prod.split)
qed

lemma shown_extract: "shown (rp_Body (fst (extract_handler pf s r h w))) = {}"
proof (cases "accept_request pf r h w")
  case (Inl resp)
  then show ?thesis using shown_accept by (simp add: extract_handler_def)
next
  case (Inr j)
  then show ?thesis
    by (simp add: extract_handler_def extract_job_def Let_def shown_miss extract_hit_def shown_written
        split: option.split prod.split)
qed

text \<open>What is read satisfies a condition on the subject that reads it; so does what a response shows.\<close>

locale server_reading = server_condition +
  fixes P :: "string \<Rightarrow> summary \<Rightarrow> bool"
  assumes list_shows: "sv_extractions s = Some es \<Longrightarrow> I w \<Longrightarrow> fst (es_ListBySubject es u d n w) = Inr xs \<Longrightarrow>
      x \<in> set xs \<Longrightarrow> P u x"
    and get_shows: "sv_extractions s = Some es \<Longrightarrow> I w \<Longrightarrow> fst (es_GetByIDForSubject es j u w) = Inr x \<Longrightarrow> P u x"
begin

lemma shown_list:
  "I w \<Longrightarrow> x \<in> shown (rp_Body (fst (listExtractions s r h w))) \<Longrightarrow> P (actor_subject s r) x"
  by (auto simp: listExtractions_def Let_def case_prod_beta shown_written intro: list_shows
      split: option.splits if_splits sum.splits)

lemma shown_get:
  "I w \<Longrightarrow> x \<in> shown (rp_Body (fst (getExtraction s r j h w))) \<Longrightarrow> P (actor_subject s r) x"
  by (auto simp: getExtraction_def Let_def case_prod_beta shown_written intro: get_shows
      split: option.splits if_splits sum.splits)

lemma shown_authenticate:
  assumes "I w" and "x \<in> shown (rp_Body (fst (authenticate s n r h w)))"
  obtains p w' where "acts_for s r (actor_subject s (WithPrincipal r p))" and "I w'"
    and "x \<in> shown (rp_Body (fst (n (WithPrincipal r p) h w')))"
proof -
  obtain auth where auth: "sv_auth s = Some auth"
    using assms(2) by (auto simp: authenticate_def shown_written split: option.splits)
  obtain y w' where y: "auth (bearer r) w = (y, w')" by fastforce
  have w': "I w'" using keep_auth [OF auth assms(1), of "bearer r"] y by simp
  from assms(2) y auth obtain p where p: "y = Some p" "HasScope p ScopeExtractWrite"
    and x: "x \<in> shown (rp_Body (fst (n (WithPrincipal r p) h w')))"
    by (auto simp: authenticate_def Let_def bearer_def shown_written split: if_splits option.splits)
  have "acts_for s r (actor_subject s (WithPrincipal r p))"
    unfolding acts_for_def using p y auth by (intro exI [of _ auth] exI [of _ w] exI [of _ p]) simp
  from that [OF this w' x] show thesis .
qed

lemma shown_reads:
  assumes f: "\<And>m q h. shown (rp_Body (pf_fallback pf m q h)) = {}" and I: "I w"
    and x: "x \<in> shown (rp_Body (fst (ServeHTTP pf s r w)))"
  shows "\<exists>u. acts_for s r u \<and> P u x"
proof -
  obtain h where h: "x \<in> shown (rp_Body (fst (dispatch pf s r h w)))"
    using x by (auto simp: ServeHTTP_def cors_def accessLog_def Let_def case_prod_beta split: if_splits)
  show ?thesis
  proof (cases "pf_route pf (rq_Method r) (rq_Path r)")
    case RExtract
    with h have "x \<in> shown (rp_Body (fst (authenticate s (extract_handler pf s) r h w)))" by (simp add: dispatch_def)
    then show ?thesis by (rule shown_authenticate [OF I]) (simp add: shown_extract)
  next
    case RList
    with h have "x \<in> shown (rp_Body (fst (authenticate s (listExtractions s) r h w)))" by (simp add: dispatch_def)
    then show ?thesis by (rule shown_authenticate [OF I]) (blast dest: shown_list)
  next
    case (RGet j)
    with h have "x \<in> shown (rp_Body (fst (authenticate s (\<lambda>r. getExtraction s r j) r h w)))" by (simp add: dispatch_def)
    then show ?thesis by (rule shown_authenticate [OF I]) (blast dest: shown_get)
  next
    case RUnmatchedV1
    with h have "x \<in> shown (rp_Body (fst (authenticate s
        (\<lambda>r h w. (pf_fallback pf (rq_Method r) (rq_Path r) h, w)) r h w)))" by (simp add: dispatch_def)
    then show ?thesis by (rule shown_authenticate [OF I]) (simp add: f)
  next
    case RReady
    with h show ?thesis by (simp add: dispatch_def ready_def Let_def case_prod_beta shown_written split: if_splits)
  qed (use h f in \<open>simp_all add: dispatch_def health_def shown_written\<close>)
qed

end

section \<open>The rows of the service\<close>

text \<open>The clock and the log belong to the rest of the world.\<close>

definition api_platform :: "('i, 'w, 'r) platform \<Rightarrow> ('i, 'w world, 'r) platform" where
  "api_platform pf =
     \<lparr>pf_now = (\<lambda>wd. pf_now pf (wd_rest wd)), pf_pre = pf_pre pf, pf_route = pf_route pf, pf_fallback = pf_fallback pf,
      pf_encode = pf_encode pf, pf_log = (\<lambda>e. outer_unit (pf_log pf e))\<rparr>"

definition made_by :: "('w, 'r) Server \<Rightarrow> request \<Rightarrow> string \<Rightarrow> row \<Rightarrow> bool" where
  "made_by s r u row \<longleftrightarrow>
     acts_for s r u \<and> row_auth_subject row = nullIfEmpty u \<and> row_request_id row = rq_RequestID r
     \<and> (\<exists>data. acceptable r (row_doc_type row) data \<and> row_content_sha256 row = shaHex data)"

definition rows_made :: "('w, 'r) Server \<Rightarrow> request set \<Rightarrow> 'v world \<Rightarrow> bool" where
  "rows_made s R wd \<longleftrightarrow> (\<forall>row \<in> set (wd_rows wd). \<exists>r \<in> R. \<exists>u. made_by s r u row)"

lemma made_by_mark_deleted: "made_by s r u (mark_deleted now row) = made_by s r u row"
  by (simp add: made_by_def mark_deleted_def)

lemma made_by_new: "issues s r rec \<Longrightarrow> made_by s r (er_AuthSubject rec) (new_row tx p rec)"
  by (auto simp: issues_def made_by_def new_row_def)

lemma rows_made_rows: "wd_rows wd' = wd_rows wd \<Longrightarrow> rows_made s R wd \<Longrightarrow> rows_made s R wd'"
  by (simp add: rows_made_def)

lemma outer_rows: "wd_rows (snd (outer f wd)) = wd_rows wd" "wd_rows (outer_unit g wd) = wd_rows wd"
  by (simp_all add: outer_def outer_unit_def case_prod_beta)

lemma db_read_rows: "wd_rows (snd (db_read b op wd)) = wd_rows wd"
  by (simp add: db_read_def case_prod_beta)

lemma NewConsents_rows: "wd_rows (snd (NewConsents b c wd)) = wd_rows wd"
  by (simp add: NewConsents_def case_prod_beta)

lemma db_write_made:
  assumes "rows_made s R wd" and "\<exists>r \<in> R. issues s r rec"
  shows "rows_made s R (snd (db_write b (\<lambda>tx. persist True m tx rec rep) wd))"
proof -
  obtain tx w' where tx: "bk_tx b (wd_rest wd) = (tx, w')" by fastforce
  have "\<exists>r \<in> R. \<exists>u. made_by s r u row" if "row \<in> set (snd (persist True m tx rec rep (wd_rows wd)))" for row
  proof (cases rule: persist_cases [of True m tx rec rep "wd_rows wd"])
    case (failed e)
    with that assms(1) show ?thesis by (simp add: rows_made_def)
  next
    case (stored p)
    from that stored(2) consider row0 where "row0 \<in> set (wd_rows wd)" "row = row0 \<or> row = mark_deleted (tx_now tx) row0"
      | "row = new_row tx p rec"
      by (auto simp: soft_delete_def split: if_splits)
    then show ?thesis
    proof cases
      case (1 row0)
      with assms(1) show ?thesis by (auto simp: rows_made_def made_by_mark_deleted)
    next
      case 2
      with assms(2) made_by_new [of s _ rec tx p] show ?thesis by blast
    qed
  qed
  then show ?thesis by (simp add: db_write_def tx rows_made_def case_prod_beta)
qed

lemma api_server_sel:
  "sv_extractor (api_server b cfg a) = service_iface (api_service b cfg)"
  "sv_pool (api_server b cfg a) = Some (outer (bk_ping b))"
  "sv_cache (api_server b cfg a) = Some (cache_iface (snd (api_cache b cfg)))"
  "sv_extractions (api_server b cfg a) = Some (NewExtractions b)"
  "sv_consents (api_server b cfg a) = Some (NewConsents b)"
  "sv_auth (api_server b cfg a) = Some (auth_iface (bk_auth b) a)"
  "sv_limiter (api_server b cfg a) =
     Some (limiter_iface (bk_now b) (New_limiter (Some (rd_counter (fst (api_cache b cfg)))) (cf_RateLimitPerMinute cfg)))"
  "sv_m2mUserForwardSecret (api_server b cfg a) = TrimSpace (cf_M2MUserForwardSecret cfg)"
  by (simp_all add: api_server_def)

lemmas iface_defs = service_iface_def cache_iface_def limiter_iface_def auth_iface_def

text \<open>What a subject may be shown: what a request of that subject, without blanks around it, has made.\<close>

definition shows_own :: "('w, 'r) Server \<Rightarrow> request set \<Rightarrow> string \<Rightarrow> summary \<Rightarrow> bool" where
  "shows_own s R u x \<longleftrightarrow>
     (\<exists>r \<in> R. \<exists>row. made_by s r (TrimSpace u) row \<and> row_auth_subject row = Some (TrimSpace u) \<and> x = summary_of row)"

lemma owned_made: "rows_made s R wd \<Longrightarrow> x \<in> owned_rows (TrimSpace u) (wd_rows wd) \<Longrightarrow> shows_own s R u x"
  unfolding rows_made_def owned_rows_def visible_def shows_own_def
  by (clarsimp, drule (1) bspec) (auto simp: made_by_def nullIfEmpty_def split: if_splits)

interpretation rows: server_reading "api_platform pf" "api_server b cfg a" "rows_made (api_server b cfg a) R"
  "\<lambda>rec. \<exists>r \<in> R. issues (api_server b cfg a) r rec" "shows_own (api_server b cfg a) R"
  for pf :: "('i, 'w, doc_result) platform" and b :: "('k, 'w) backend" and cfg a R
proof unfold_locales
  show "shows_own (api_server b cfg a) R u x"
    if "sv_extractions (api_server b cfg a) = Some es" "rows_made (api_server b cfg a) R w"
      "fst (es_ListBySubject es u d n w) = Inr xs" "x \<in> set xs" for es w u d n xs x
    using that ListBySubject_owned by (fastforce simp: api_server_sel NewExtractions_def db_read_def case_prod_beta intro: owned_made)
  show "shows_own (api_server b cfg a) R u x"
    if "sv_extractions (api_server b cfg a) = Some es" "rows_made (api_server b cfg a) R w"
      "fst (es_GetByIDForSubject es j u w) = Inr x" for es w u j x
    using that GetByID_owned by (fastforce simp: api_server_sel NewExtractions_def db_read_def case_prod_beta intro: owned_made)
  show "rows_made (api_server b cfg a) R (snd (es_Insert es rec w))"
    if "sv_extractions (api_server b cfg a) = Some es" "\<exists>r \<in> R. issues (api_server b cfg a) r rec"
      "rows_made (api_server b cfg a) R w" for es rec w
    using that db_write_made [OF that(3,2), of b "bk_marshal b" False]
    by (auto simp: api_server_sel NewExtractions_def Insert_def [abs_def])
  show "rows_made (api_server b cfg a) R (snd (es_Replace es rec w))"
    if "sv_extractions (api_server b cfg a) = Some es" "\<exists>r \<in> R. issues (api_server b cfg a) r rec"
      "rows_made (api_server b cfg a) R w" for es rec w
    using that db_write_made [OF that(3,2), of b "bk_marshal b" True]
    by (auto simp: api_server_sel NewExtractions_def Replace_def [abs_def])
qed (erule rows_made_rows [rotated]; auto simp: api_platform_def api_server_sel iface_defs NewExtractions_def
  outer_rows db_read_rows NewConsents_rows)+

lemma ServeHTTP_made:
  "rows_made (api_server b cfg a) R wd \<Longrightarrow> r \<in> R \<Longrightarrow>
     rows_made (api_server b cfg a) R (snd (ServeHTTP (api_platform pf) (api_server b cfg a) r wd))"
  by (rule rows.keepsD [OF rows.ServeHTTP_keeps]) auto

lemma serve_all_made:
  "rows_made (api_server b cfg a) R wd \<Longrightarrow> set rs \<subseteq> R \<Longrightarrow>
     rows_made (api_server b cfg a) R (snd (serve_all (api_platform pf) (api_server b cfg a) rs wd))"
proof (induction rs arbitrary: wd)
  case (Cons r rs)
  obtain resp wd' where s: "ServeHTTP (api_platform pf) (api_server b cfg a) r wd = (resp, wd')" by fastforce
  have "rows_made (api_server b cfg a) R wd'"
    using ServeHTTP_made [OF Cons.prems(1), of r pf] Cons.prems(2) s by simp
  from Cons.IH [OF this] Cons.prems(2) s show ?case by (simp add: case_prod_beta)
qed simp

lemma serve_all_nth:
  "i < length rs \<Longrightarrow>
     fst (serve_all pf s rs w) ! i = fst (ServeHTTP pf s (rs ! i) (snd (serve_all pf s (take i rs) w)))"
  by (induction rs arbitrary: w i) (auto simp: case_prod_beta nth_Cons' take_Cons')

text \<open>
  Reading trims the subject and storing does not: a subject with blanks around it does not see what it stored,
  and sees what the subject without them stored.
\<close>

lemma subject_blanks:
  "ListBySubject True True '' ana'' [] 20
     (snd (Insert True (\<lambda>_. Some []) sample_tx (sample_record '' ana'') [])) = Inr []"
  "\<exists>x. ListBySubject True True '' ana'' [] 20
     (snd (Insert True (\<lambda>_. Some []) sample_tx (sample_record ''ana'') [])) = Inr [x]"
proof -
  have t: "TrimSpace '' ana'' = ''ana''" by code_simp
  show "ListBySubject True True '' ana'' [] 20
     (snd (Insert True (\<lambda>_. Some []) sample_tx (sample_record '' ana'') [])) = Inr []"
    "\<exists>x. ListBySubject True True '' ana'' [] 20
     (snd (Insert True (\<lambda>_. Some []) sample_tx (sample_record ''ana'') [])) = Inr [x]"
    by (simp_all add: ListBySubject_def t Insert_def persist_def sample_tx_def sample_record_def new_row_def nullIfEmpty_def
        visible_def Let_def)
qed

section \<open>Properties\<close>


text \<open>An example: an upload that is answered from the cache, and then a list.\<close>

definition cached_result :: "doc_result extract_result" where
  "cached_result = \<lparr>rs_DocType = ''rg'', rs_Data = AddressResult empty_address, rs_Meta = rs_Meta sample_result\<rparr>"

definition sample_backend_on :: "'w redis_client \<Rightarrow> (unit, 'w) backend" where
  "sample_backend_on rdb =
     \<lparr>bk_net = \<lparr>net_post = \<lambda>_ w. (DoFailed [], w), net_wait = \<lambda>_ w. (None, w)\<rparr>,
      bk_json_error = \<lambda>_. [], bk_msg = \<lambda>_. [], bk_mail = \<lambda>_. None, bk_order = \<lambda>m. m,
      bk_redis = \<lambda>_. rdb,
      bk_auth = \<lparr>aw_introspect = \<lambda>_ _ _ w. (None, w),
        aw_parse_jwt = \<lambda>_ _ _ _ _. Some (\<lparr>oc_Permissions = [''extract:write''], oc_Scope = [], oc_Email = [], oc_Azp = [],
          oc_Subject = ''u1''\<rparr>, True)\<rparr>,
      bk_now = \<lambda>_. 0, bk_ping = \<lambda>w. (True, w), bk_tx = \<lambda>w. (sample_tx, w), bk_query = \<lambda>w. (True, w),
      bk_exec = \<lambda>w. (True, w), bk_uuid = Some, bk_marshal = \<lambda>_. Some ''{}'', bk_cache_marshal = \<lambda>_. None,
      bk_cache_unmarshal = \<lambda>_. Some cached_result\<rparr>"

definition full_cache :: "'w redis_kv" where
  "full_cache = \<lparr>kv_get = \<lambda>_ _. GetBytes ''x'', kv_set = \<lambda>_ _ _ w. w, kv_del = \<lambda>_ w. w\<rparr>"

definition sample_backend :: "(unit, unit) backend" where
  "sample_backend = sample_backend_on \<lparr>rd_kv = full_cache,
     rd_counter = \<lparr>rc_incr = \<lambda>_ w. (Some 1, w), rc_expire = \<lambda>_ _ w. w\<rparr>, rd_ping = \<lambda>w. (True, w), rd_close = \<lambda>w. w\<rparr>"

lemmas sample_backend_defs = sample_backend_def sample_backend_on_def full_cache_def

definition sample_authenticator :: "unit authenticator" where
  "sample_authenticator = \<lparr>au_jwtEnabled = True, au_audience = ''pde'', au_issuer = ''idp'', au_jwks = (),
     au_introspectURL = [], au_introspectSecret = []\<rparr>"

definition sample_api :: "Config \<Rightarrow> (unit world, doc_result) Server" where
  "sample_api cfg = api_server sample_backend cfg sample_authenticator"

definition routes :: "(unit, unit, doc_result) platform" where
  "routes = \<lparr>pf_now = \<lambda>_. 0, pf_pre = pf_pre (sample_platform RExtract),
     pf_route = \<lambda>m _. if m = ''POST'' then RExtract else RList,
     pf_fallback = \<lambda>_ _ h. writeErr h 404 ''not found'', pf_encode = \<lambda>_. [], pf_log = \<lambda>_ w. w\<rparr>"

definition list_request :: request where
  "list_request = sample_request\<lparr>rq_Method := ''GET'', rq_Query := []\<rparr>"

definition no_rows :: "unit world" where "no_rows = \<lparr>wd_rows = [], wd_consents = [], wd_rest = ()\<rparr>"

definition u1 :: principal where
  "u1 = \<lparr>pr_Subject = ''u1'', pr_Client = [], pr_Email = [], pr_Kind = KindJWT, pr_Scopes = [''extract:write'']\<rparr>"

lemma sample_api_auth: "auth_iface (bk_auth sample_backend) sample_authenticator ''t'' wd = (Some u1, wd)"
proof -
  have "Authenticate (bk_auth sample_backend) sample_authenticator ''t'' w = (Some u1, w)" for w :: unit
    by (cases w) code_simp
  then show ?thesis by (simp add: auth_iface_def outer_def)
qed

lemma sample_api_actor: "actor_subject (sample_api cfg) (WithPrincipal r u1) = ''u1''"
proof -
  have "\<not> isM2MPrincipal u1" by code_simp
  moreover have "pr_Subject u1 = ''u1''" by (simp add: u1_def)
  ultimately show ?thesis by (simp add: actor_subject_def resolveActor_direct WithPrincipal_sel)
qed

lemma sample_api_pure:
  "TrimSpace (TrimPrefix ''Bearer t'' ''Bearer '') = ''t''" "HasScope u1 ScopeExtractWrite" "TrimSpace ''u1'' = ''u1''"
  "TrimSpace [] = []"
  by code_simp+

lemma sample_api_job:
  "accept_request (api_platform routes) (WithPrincipal sample_request p) h w = Inr sample_job"
  by (simp add: accept_request_def WithPrincipal_sel WithPrincipal_pure sample_readUpload sample_pure sample_sel
      values_Get_def sample_job_def Let_def api_platform_def routes_def)

lemma sample_api_hit: "lookupCache (sample_api cfg) d h wd = (Some cached_result, wd)"
  by (simp add: lookupCache_def sample_api_def api_server_sel cache_iface_def api_cache_def cache_New_def
      sample_backend_defs cache_Get_def outer_def Let_def)

lemma sample_consent_rows: "wd_rows (recordConsent (sample_api cfg) c wd) = wd_rows wd"
  by (simp add: recordConsent_def sample_api_def api_server_sel NewConsents_rows)

lemma sample_store:
  "pa_authSubject a = ''u1'' \<Longrightarrow> wd_rows wd = [] \<Longrightarrow>
     \<exists>row. wd_rows (server_persist (sample_api cfg) a wd) = [row] \<and> visible ''u1'' row"
  by (cases "pa_refresh a")
    (auto simp: server_persist_def store_extraction_def sample_api_def api_server_sel NewExtractions_def db_write_def
      sample_backend_defs Insert_def Replace_def persist_def sample_tx_def cache_iface_def outer_rows soft_delete_def
      visible_def new_row_def nullIfEmpty_def record_of_def)

lemma sample_upload:
  "\<exists>row. wd_rows (snd (ServeHTTP (api_platform routes) (sample_api cfg) sample_request no_rows)) = [row] \<and> visible ''u1'' row"
proof -
  let ?s = "sample_api cfg" and ?pf = "api_platform routes" and ?r = "WithPrincipal sample_request u1"
  have auth: "sv_auth ?s = Some (auth_iface (bk_auth sample_backend) sample_authenticator)"
    by (simp add: sample_api_def api_server_sel)
  have route: "pf_route ?pf ''POST'' q = RExtract" for q by (simp add: api_platform_def routes_def)
  have pf: "wd_rows (pf_log ?pf e wd) = wd_rows wd" for e wd by (simp add: api_platform_def outer_rows)
  obtain a wd where a: "pa_authSubject a = ''u1''" "wd_rows wd = []"
    and h: "snd (extract_handler ?pf ?s ?r h no_rows) = server_persist ?s a wd" for h
  proof -
    let ?wd = "recordConsent ?s (consent_of ?s ?r sample_job (pf_now ?pf no_rows)) no_rows"
    let ?a = "args_of ?s ?r sample_job (jb_mime sample_job) (stamp (shaHex sample_png) ''hit'' cached_result) False (pf_now ?pf ?wd)"
    have "snd (extract_handler ?pf ?s ?r h no_rows) = server_persist ?s ?a ?wd" for h
      by (simp add: extract_handler_def sample_api_job extract_job_def sample_job_sel sample_api_hit extract_hit_def Let_def)
    moreover have "pa_authSubject ?a = ''u1''" by (simp add: args_of_sel sample_api_actor)
    moreover have "wd_rows ?wd = []" by (simp add: sample_consent_rows no_rows_def)
    ultimately show thesis by (rule that [rotated 2])
  qed
  from sample_store [OF a, of cfg] h show ?thesis
    by (simp add: ServeHTTP_def cors_def accessLog_def dispatch_def sample_sel route authenticate_def auth sample_pure
        sample_api_pure sample_api_auth pf Let_def case_prod_beta)
qed

lemma sample_list:
  assumes "wd_rows wd = [row]" and "visible ''u1'' row"
  shows "shown (rp_Body (fst (ServeHTTP (api_platform routes) (sample_api cfg) list_request wd))) = {summary_of row}"
proof -
  let ?s = "sample_api cfg" and ?pf = "api_platform routes" and ?r = "WithPrincipal list_request u1"
  have auth: "sv_auth ?s = Some (auth_iface (bk_auth sample_backend) sample_authenticator)"
    by (simp add: sample_api_def api_server_sel)
  have route: "pf_route ?pf ''GET'' q = RList" for q by (simp add: api_platform_def routes_def)
  have es: "sv_extractions ?s = Some (NewExtractions sample_backend)" by (simp add: sample_api_def api_server_sel)
  have l: "ListBySubject True True ''u1'' [] 20 [row] = Inr [summary_of row]"
    using assms(2) by (simp add: ListBySubject_def sample_api_pure Let_def)
  have "rp_Body (fst (listExtractions ?s ?r h wd)) = ListBody [summary_of row]" for h
    using l assms(1)
    by (simp add: listExtractions_def es sample_api_actor WithPrincipal_sel list_request_def values_Get_def sample_api_pure
        NewExtractions_def db_read_def sample_backend_defs shown_written Let_def)
  then show ?thesis
    by (simp add: ServeHTTP_def cors_def accessLog_def dispatch_def list_request_def sample_sel route authenticate_def auth
        sample_pure sample_api_pure sample_api_auth Let_def case_prod_beta)
qed

definition sample_cfg :: Config where
  "sample_cfg = load_fields sample_env 86400000000000 0 60 []"


end
