(* ===== verification/Quota.thy ===== *)
theory Quota
  imports Isolation
begin

text \<open>
  End to end: the requests of one user cannot make more calls to the model in a minute than the configured limit,
  whatever tokens, headers and documents they come with. The number of grants in the calls of the requests is
  weighed against the counter in Redis.
\<close>

section \<open>Operations that leave the counters alone\<close>

definition leaves :: "(string \<Rightarrow> 'w \<Rightarrow> int) \<Rightarrow> ('w \<Rightarrow> 'x \<times> 'w) \<Rightarrow> bool" where
  "leaves cnt f \<longleftrightarrow> (\<forall>j w. cnt j (snd (f w)) = cnt j w)"

lemma leavesD: "leaves cnt f \<Longrightarrow> f w = (x, w') \<Longrightarrow> \<forall>j. cnt j w' = cnt j w"
  by (metis leaves_def snd_conv)

lemma leavesI: "(\<And>j w x w'. f w = (x, w') \<Longrightarrow> cnt j w' = cnt j w) \<Longrightarrow> leaves cnt f"
  unfolding leaves_def by (metis prod.collapse)

text \<open>
  What is needed of the outside: INCR counts, other keys and the other parts of the world leave the counters as
  they are. A counter is the number of INCRs of its key, which contains the minute; it lives for two.
\<close>

definition counters_apart :: "('k, 'w) backend \<Rightarrow> Config \<Rightarrow> (string \<Rightarrow> 'w \<Rightarrow> int) \<Rightarrow> bool" where
  "counters_apart b cfg cnt \<longleftrightarrow>
     counting (rd_counter (fst (api_cache b cfg))) cnt
     \<and> (\<forall>j k v t w. j \<noteq> k \<longrightarrow> cnt j (kv_set (rd_kv (fst (api_cache b cfg))) k v t w) = cnt j w)
     \<and> (\<forall>j k w. j \<noteq> k \<longrightarrow> cnt j (kv_del (rd_kv (fst (api_cache b cfg))) k w) = cnt j w)
     \<and> (\<forall>r. leaves cnt (net_post (bk_net b) r)) \<and> (\<forall>n. leaves cnt (net_wait (bk_net b) n))
     \<and> (\<forall>u key tok. leaves cnt (aw_introspect (bk_auth b) u key tok))
     \<and> leaves cnt (bk_ping b) \<and> leaves cnt (bk_tx b) \<and> leaves cnt (bk_query b) \<and> leaves cnt (bk_exec b)"

lemma chat_loop_leaves:
  assumes "\<forall>r. leaves cnt (net_post net r)" and "\<forall>n. leaves cnt (net_wait net n)"
  shows "leaves cnt (chat_loop n jerr net c msgs j)"
proof (induction n)
  case 0
  show ?case by (simp add: leaves_def)
next
  case (Suc n)
  show ?case
  proof (rule leavesI)
    fix k w x w'
    assume r: "chat_loop (Suc n) jerr net c msgs j w = (x, w')"
    obtain out w1 where o: "net_post net (chat_request_of c msgs j) w = (out, w1)" by fastforce
    obtain e w2 where e: "net_wait net ((3 - n) * 3) w1 = (e, w2)" by fastforce
    have "\<forall>k. cnt k w1 = cnt k w" by (rule leavesD [where f = "net_post net (chat_request_of c msgs j)", OF _ o]) (use assms in blast)
    moreover have "\<forall>k. cnt k w2 = cnt k w1" by (rule leavesD [where f = "net_wait net ((3 - n) * 3)", OF _ e]) (use assms in blast)
    moreover have "\<forall>k. cnt k w' = cnt k w2" if "chat_loop n jerr net c msgs j w2 = (x, w')" by (rule leavesD [OF Suc.IH that])
    ultimately have "cnt k w1 = cnt k w" "cnt k w2 = cnt k w1" "chat_loop n jerr net c msgs j w2 = (x, w') \<Longrightarrow> cnt k w' = cnt k w2"
      by blast+
    with r o e show "cnt k w' = cnt k w"
      by (cases "chat_reply jerr out") (auto simp: chatOnce_def split: if_splits option.splits)
  qed
qed

lemma Extract_leaves:
  assumes "\<And>p u m. leaves cnt (llm_Chat (sv_llm svc) p u m)"
  shows "leaves cnt (Extract svc d doc)"
proof -
  have *: "\<forall>j. cnt j w' = cnt j w" if "llm_Chat (sv_llm svc) p u m w = (x, w')" for w p u m x w'
    by (rule leavesD [OF assms that])
  show ?thesis
    by (rule leavesI) (auto simp: Extract_def repairJSON_def Let_def split: option.splits prod.splits sum.splits dest!: *)
qed

section \<open>Grants and the counter\<close>

fun is_grant :: "string \<Rightarrow> string \<Rightarrow> 'r event \<Rightarrow> bool" where
  "is_grant k i (EvAllow k' i' (Some l)) \<longleftrightarrow> k' = k \<and> i' = i \<and> lr_Allowed l"
| "is_grant k i _ \<longleftrightarrow> False"

definition grants :: "string \<Rightarrow> string \<Rightarrow> 'r event list \<Rightarrow> nat" where
  "grants k i es = length (filter (is_grant k i) es)"

lemma grants_simps: "grants k i [] = 0" "grants k i (es @ [e]) = grants k i es + (if is_grant k i e then 1 else 0)"
  by (simp_all add: grants_def)

text \<open>What the calls so far were granted has been paid for with the counter, up to the limit.\<close>

definition paid ::
    "(string \<Rightarrow> 'w \<Rightarrow> int) \<Rightarrow> string \<Rightarrow> int \<Rightarrow> string \<Rightarrow> string \<Rightarrow> int \<Rightarrow> ('w world, 'r) traced \<Rightarrow> bool" where
  "paid cnt key limit k i c wt \<longleftrightarrow>
     int (grants k i (snd wt)) + c \<le> min limit (cnt key (wd_rest (fst wt)))"

lemma paid_event:
  assumes "paid cnt key limit k i c (wd, t)" and "\<not> is_grant k i e"
    and "cnt key (wd_rest wd') = cnt key (wd_rest wd)"
  shows "paid cnt key limit k i c (wd', t @ [e])"
  using assms by (simp add: paid_def grants_simps)

lemma outer_leaves:
  "leaves cnt f \<Longrightarrow> cnt j (wd_rest (snd (outer f wd))) = cnt j (wd_rest wd)"
  by (simp add: outer_def case_prod_beta leaves_def)

lemma db_leaves:
  "leaves cnt (bk_tx b) \<Longrightarrow> cnt j (wd_rest (snd (db_write b op1 wd))) = cnt j (wd_rest wd)"
  "leaves cnt (bk_query b) \<Longrightarrow> cnt j (wd_rest (snd (db_read b op2 wd))) = cnt j (wd_rest wd)"
  "leaves cnt (bk_exec b) \<Longrightarrow> cnt j (wd_rest (snd (NewConsents b c wd))) = cnt j (wd_rest wd)"
  by (simp_all add: db_write_def db_read_def NewConsents_def case_prod_beta leaves_def)

lemma Authenticate_leaves:
  assumes "\<forall>u key tok. leaves cnt (aw_introspect env u key tok)"
  shows "leaves cnt (Authenticate env a tok)"
proof (rule leavesI)
  fix j w x w'
  assume r: "Authenticate env a tok w = (x, w')"
  obtain y w1 where y: "aw_introspect env (au_introspectURL a) (au_introspectSecret a) (TrimSpace tok) w = (y, w1)" by fastforce
  have "\<forall>j. cnt j w1 = cnt j w"
    by (rule leavesD [where f = "aw_introspect env (au_introspectURL a) (au_introspectSecret a) (TrimSpace tok)", OF _ y])
      (use assms in blast)
  with r y show "cnt j w' = cnt j w"
    by (auto simp: Authenticate_def authenticatePAT_def Let_def split: if_splits option.splits prod.splits)
qed

lemma cache_leaves:
  assumes "\<forall>j k v t w. j \<noteq> k \<longrightarrow> cnt j (kv_set rdb k v t w) = cnt j w" and "\<forall>j k w. j \<noteq> k \<longrightarrow> cnt j (kv_del rdb k w) = cnt j w"
    and "ca_rdb c = Some rdb" and "key = limiter_key kind i m"
  shows "cnt key (snd (cache_Get c d h w)) = cnt key w" "cnt key (cache_Set c d h x w) = cnt key w"
    "cnt key (cache_Delete c d h w) = cnt key w"
proof -
  have "key \<noteq> Key d h" using Key_not_limiter unfolding assms(4) by metis
  with assms(1-3) show "cnt key (snd (cache_Get c d h w)) = cnt key w" "cnt key (cache_Set c d h x w) = cnt key w"
    "cnt key (cache_Delete c d h w) = cnt key w"
    by (auto simp: cache_Get_def cache_Set_def cache_Delete_def split: get_outcome.split option.split)
qed

lemma api_extract_leaves:
  assumes "counters_apart b cfg cnt"
  shows "leaves cnt (Extract (api_service b cfg) d doc)"
proof (rule Extract_leaves)
  show "leaves cnt (llm_Chat (sv_llm (api_service b cfg)) p u m)" for p u m
    using assms chat_loop_leaves [of cnt "bk_net b"]
    by (simp add: counters_apart_def api_service_def NewService_def groq_llm_def Chat_def [abs_def])
qed

lemma limiter_pays:
  assumes "counters_apart b cfg cnt" and "\<And>w. truncate_minute (bk_now b w) = m"
    and "paid cnt (limiter_key k i (m div second)) limit k i c (wd, t)"
    and "0 < limit" and "cf_RateLimitPerMinute cfg = limit"
  defines "l \<equiv> limiter_iface (bk_now b) (New_limiter (Some (rd_counter (fst (api_cache b cfg)))) (cf_RateLimitPerMinute cfg))"
  shows "paid cnt (limiter_key k i (m div second)) limit k i c (snd (tap (l k' i') (EvAllow k' i') (wd, t)))"
proof -
  let ?L = "New_limiter (Some (rd_counter (fst (api_cache b cfg)))) (cf_RateLimitPerMinute cfg)"
  let ?K = "limiter_key k i (m div second)"
  have c: "lm_rdb ?L = Some (rd_counter (fst (api_cache b cfg)))" "counting (rd_counter (fst (api_cache b cfg))) cnt"
    and lim: "lm_limit ?L = limit"
    using assms(1,4,5) by (simp_all add: New_limiter_def counters_apart_def)
  obtain r w' where r: "Allow (Some ?L) (bk_now b (wd_rest wd)) k' i' (wd_rest wd) = (Some r, w')"
    and g: "lr_Allowed r \<longleftrightarrow> cnt (limiter_key k' i' (m div second)) (wd_rest wd) + 1 \<le> limit"
    and w': "\<And>j. cnt j w' = (if j = limiter_key k' i' (m div second) then cnt j (wd_rest wd) + 1 else cnt j (wd_rest wd))"
    using Allow_counting [OF c, of "bk_now b (wd_rest wd)" k' i' "wd_rest wd"] assms(2) lim by metis
  have out: "snd (tap (l k' i') (EvAllow k' i') (wd, t)) = (wd\<lparr>wd_rest := w'\<rparr>, t @ [EvAllow k' i' (Some r)])"
    by (simp add: tap_apply l_def limiter_iface_def outer_def r)
  show ?thesis
  proof (cases "k' = k \<and> i' = i")
    case True
    with assms(3) g w' [of ?K] show ?thesis unfolding out by (auto simp: paid_def grants_simps)
  next
    case False
    with assms(3) w' [of ?K] show ?thesis unfolding out by (auto simp: paid_def grants_simps)
  qed
qed

text \<open>Every dependency of the traced service keeps the balance.\<close>

lemma paid_tap:
  assumes "paid cnt key limit k i c wt" and "\<And>x. \<not> is_grant k i (ev x)"
    and "\<And>wd. cnt key (wd_rest (snd (f wd))) = cnt key (wd_rest wd)"
  shows "paid cnt key limit k i c (snd (tap f ev wt))"
  using assms by (cases wt) (auto simp: tap_apply intro: paid_event)

lemma paid_tap_unit:
  assumes "paid cnt key limit k i c wt" and "\<not> is_grant k i ev"
    and "\<And>wd. cnt key (wd_rest (f wd)) = cnt key (wd_rest wd)"
  shows "paid cnt key limit k i c (tap_unit f ev wt)"
  using assms by (cases wt) (auto simp: tap_unit_apply intro: paid_event)

lemma counters_apartD:
  assumes "counters_apart b cfg cnt"
  shows "leaves cnt (bk_ping b)" "leaves cnt (bk_tx b)" "leaves cnt (bk_query b)" "leaves cnt (bk_exec b)"
    "leaves cnt (Authenticate (bk_auth b) a tok)"
  using assms by (auto simp: counters_apart_def intro: Authenticate_leaves)

lemma paid_cache:
  assumes "counters_apart b cfg cnt" and "paid cnt (limiter_key kind j m) limit k i c wt"
  defines "ca \<equiv> traced_cache (cache_iface (snd (api_cache b cfg)))"
  shows "paid cnt (limiter_key kind j m) limit k i c (snd (rc_Get ca d h wt))"
    "paid cnt (limiter_key kind j m) limit k i c (rc_Set ca d h x wt)"
    "paid cnt (limiter_key kind j m) limit k i c (rc_Delete ca d h wt)"
proof -
  let ?K = "limiter_key kind j m"
  have ca: "ca_rdb (snd (api_cache b cfg)) = Some (rd_kv (fst (api_cache b cfg)))"
    by (simp add: api_cache_def cache_New_def Let_def)
  have cache: "cnt ?K (snd (cache_Get (snd (api_cache b cfg)) d h w)) = cnt ?K w"
    "cnt ?K (cache_Set (snd (api_cache b cfg)) d h x w) = cnt ?K w"
    "cnt ?K (cache_Delete (snd (api_cache b cfg)) d h w) = cnt ?K w" for d h x w
    by (rule cache_leaves [OF _ _ ca refl]; use assms(1) in \<open>simp add: counters_apart_def\<close>)+
  show "paid cnt ?K limit k i c (snd (rc_Get ca d h wt))"
    by (simp add: ca_def traced_cache_def cache_iface_def)
      (rule paid_tap [OF assms(2)], simp_all add: outer_def case_prod_beta cache)
  show "paid cnt ?K limit k i c (rc_Set ca d h x wt)" "paid cnt ?K limit k i c (rc_Delete ca d h wt)"
    by (simp_all add: ca_def traced_cache_def cache_iface_def)
      (rule paid_tap_unit [OF assms(2)], simp_all add: outer_unit_def cache)+
qed

lemma paid_store:
  assumes "counters_apart b cfg cnt" and "paid cnt key limit k i c wt"
  defines "es \<equiv> traced_store (NewExtractions b)"
  shows "paid cnt key limit k i c (snd (es_Insert es rec wt))" "paid cnt key limit k i c (snd (es_Replace es rec wt))"
    "paid cnt key limit k i c (snd (es_ListBySubject es u d n wt))" "paid cnt key limit k i c (snd (es_GetByIDForSubject es j u wt))"
  by (simp_all add: es_def traced_store_def)
    (rule paid_tap [OF assms(2)], simp_all add: NewExtractions_def db_leaves counters_apartD [OF assms(1)])+

lemma paid_calls:
  assumes "counters_apart b cfg cnt" and "paid cnt key limit k i c wt"
  shows "paid cnt key limit k i c (snd (tap (auth_iface (bk_auth b) a tok) (EvAuth tok) wt))"
    "paid cnt key limit k i c (snd (tap (outer (bk_ping b)) EvPing wt))"
    "paid cnt key limit k i c (snd (tap (NewConsents b rec) (EvConsent rec) wt))"
    "paid cnt key limit k i c (snd (ex_Extract (traced_extractor (service_iface (api_service b cfg))) d doc wt))"
proof -
  note lv = counters_apartD [OF assms(1)] api_extract_leaves [OF assms(1)]
  show "paid cnt key limit k i c (snd (tap (auth_iface (bk_auth b) a tok) (EvAuth tok) wt))"
    by (rule paid_tap [OF assms(2)]) (simp_all add: auth_iface_def outer_leaves lv)
  show "paid cnt key limit k i c (snd (tap (outer (bk_ping b)) EvPing wt))"
    by (rule paid_tap [OF assms(2)]) (simp_all add: outer_leaves lv)
  show "paid cnt key limit k i c (snd (tap (NewConsents b rec) (EvConsent rec) wt))"
    by (rule paid_tap [OF assms(2)]) (simp_all add: db_leaves lv)
  show "paid cnt key limit k i c (snd (ex_Extract (traced_extractor (service_iface (api_service b cfg))) d doc wt))"
    by (simp add: traced_extractor_def service_iface_def)
      (rule paid_tap [OF assms(2)], simp_all add: outer_leaves lv)
qed

lemma paid_condition:
  assumes "counters_apart b cfg cnt" and "\<And>w. truncate_minute (bk_now b w) = m"
    and "0 < limit" and "cf_RateLimitPerMinute cfg = limit" and log: "\<And>e w j. cnt j (pf_log pf e w) = cnt j w"
  shows "server_condition (traced_platform (api_platform pf)) (traced_server (api_server b cfg a))
    (paid cnt (limiter_key k i (m div second)) limit k i c) (\<lambda>rec. True)"
proof unfold_locales
  fix wt :: "('b world, doc_result) traced" assume I: "paid cnt (limiter_key k i (m div second)) limit k i c wt"
  show "paid cnt (limiter_key k i (m div second)) limit k i c (pf_log (traced_platform (api_platform pf)) e wt)" for e
    unfolding traced_platform_def platform.simps
    by (rule paid_tap_unit [OF I]) (simp_all add: api_platform_def outer_unit_def log)
  show "paid cnt (limiter_key k i (m div second)) limit k i c (snd (l k' i' wt))"
    if "sv_limiter (traced_server (api_server b cfg a)) = Some l" for l k' i'
    using that limiter_pays [OF assms(1,2) _ assms(3,4), of k i c "fst wt" "snd wt" k' i'] I
    by (auto simp: traced_server_sel api_server_sel)
qed (auto simp: traced_server_sel api_server_sel paid_cache [OF assms(1)] paid_store [OF assms(1)] paid_calls [OF assms(1)])

section \<open>Requests\<close>

fun request_calls ::
    "('i, 'w, 'r) platform \<Rightarrow> ('w, 'r) Server \<Rightarrow> request list \<Rightarrow> 'w \<Rightarrow> 'r event list list" where
  "request_calls pf s [] w = []"
| "request_calls pf s (r # rs) w = calls pf s r w # request_calls pf s rs (snd (ServeHTTP pf s r w))"

fun is_extract :: "'r event \<Rightarrow> bool" where
  "is_extract (EvExtract _ _ _) \<longleftrightarrow> True"
| "is_extract _ \<longleftrightarrow> False"

text \<open>The calls of the model that a request makes with a grant to this identity.\<close>

definition charged :: "string \<Rightarrow> string \<Rightarrow> 'r event list \<Rightarrow> nat" where
  "charged k i es = (if list_ex (is_grant k i) es then length (filter is_extract es) else 0)"

lemma at_most_one:
  assumes "sorted_wrt (<) (map f es)" and "\<And>e. P e \<Longrightarrow> f e = (c::nat)"
  shows "length (filter P es) \<le> 1"
  using assms(1)
proof (induction es)
  case (Cons e es)
  have "filter P es = []" if "P e"
    using Cons.prems assms(2) that by (auto simp: filter_empty_conv)
  with Cons show ?case by auto
qed simp

lemma grants_pos: "list_ex (is_grant k i) es \<Longrightarrow> 1 \<le> grants k i es"
  by (induction es) (auto simp: grants_def)

lemma charged_le_grants: "charged k i (calls pf s r w) \<le> grants k i (calls pf s r w)"
proof -
  have "length (filter is_extract (calls pf s r w)) \<le> 1"
    by (rule at_most_one [OF calls_sorted, where c = 4]) (erule is_extract.elims, simp_all)
  then show ?thesis using grants_pos [of k i "calls pf s r w"] by (auto simp: charged_def)
qed

lemma traced_result:
  "ServeHTTP (traced_platform pf) (traced_server s) r (w, []) =
     (fst (ServeHTTP pf s r w), snd (ServeHTTP pf s r w), calls pf s r w)"
proof -
  obtain es l where "traced_serve pf s r w = (fst (ServeHTTP pf s r w), snd (ServeHTTP pf s r w), calls pf s r w)"
    by (rule ServeHTTP_traced)
  then show ?thesis by (simp add: traced_serve_def)
qed

lemma request_pays:
  assumes "counters_apart b cfg cnt" and "\<And>w. truncate_minute (bk_now b w) = m"
    and "0 < limit" and "cf_RateLimitPerMinute cfg = limit" and "\<And>e w j. cnt j (pf_log pf e w) = cnt j w"
    and "key = limiter_key k i (m div second)" and "s = api_server b cfg a"
  shows "int (charged k i (calls (api_platform pf) s r wd)) + min limit (cnt key (wd_rest wd))
    \<le> min limit (cnt key (wd_rest (snd (ServeHTTP (api_platform pf) s r wd))))"
proof -
  let ?pay = "paid cnt key limit k i (min limit (cnt key (wd_rest wd)))"
  have cond: "server_condition (traced_platform (api_platform pf)) (traced_server s) ?pay (\<lambda>rec. True)"
    unfolding assms(6,7) by (rule paid_condition [OF assms(1-5)])
  have "?pay (wd, [])" by (simp add: paid_def grants_simps)
  then have "?pay (snd (ServeHTTP (traced_platform (api_platform pf)) (traced_server s) r (wd, [])))"
    by (rule server_condition.keepsD [OF cond server_condition.ServeHTTP_keeps [OF cond], rotated]) (rule TrueI)
  then have "int (grants k i (calls (api_platform pf) s r wd)) + min limit (cnt key (wd_rest wd))
      \<le> min limit (cnt key (wd_rest (snd (ServeHTTP (api_platform pf) s r wd))))"
    by (simp only: traced_result paid_def fst_conv snd_conv)
  with charged_le_grants [of k i "api_platform pf" s r wd] show ?thesis by linarith
qed

lemma requests_pay:
  assumes "counters_apart b cfg cnt" and "\<And>w. truncate_minute (bk_now b w) = m"
    and "0 < limit" and "cf_RateLimitPerMinute cfg = limit" and "\<And>e w j. cnt j (pf_log pf e w) = cnt j w"
    and "key = limiter_key k i (m div second)" and "s = api_server b cfg a"
  shows "int (sum_list (map (charged k i) (request_calls (api_platform pf) s rs wd))) + min limit (cnt key (wd_rest wd)) \<le> limit"
proof (induction rs arbitrary: wd)
  case (Cons r rs)
  from request_pays [OF assms, of r wd] Cons.IH [of "snd (ServeHTTP (api_platform pf) s r wd)"] show ?case
    unfolding request_calls.simps list.map sum_list.Cons of_nat_add by linarith
qed simp

section \<open>Properties\<close>


definition counting_redis :: "(string \<Rightarrow> int) redis_client" where
  "counting_redis = \<lparr>rd_kv = \<lparr>kv_get = \<lambda>_ _. GetNil, kv_set = \<lambda>_ _ _ w. w, kv_del = \<lambda>_ w. w\<rparr>,
     rd_counter = \<lparr>rc_incr = \<lambda>k w. (Some (w k + 1), w(k := w k + 1)), rc_expire = \<lambda>_ _ w. w\<rparr>,
     rd_ping = \<lambda>w. (True, w), rd_close = \<lambda>w. w\<rparr>"

definition quiet_routes :: "(unit, 'w, doc_result) platform" where
  "quiet_routes = \<lparr>pf_now = \<lambda>_. 0, pf_pre = pf_pre (sample_platform RExtract), pf_route = \<lambda>_ _. RExtract,
     pf_fallback = \<lambda>_ _ h. writeErr h 404 ''not found'', pf_encode = \<lambda>_. [], pf_log = \<lambda>_ w. w\<rparr>"

lemma sample_counters: "counters_apart (sample_backend_on counting_redis) cfg (\<lambda>k w. w k)"
  by (auto simp: counters_apart_def leaves_def api_cache_def cache_New_def sample_backend_on_def counting_redis_def
      counting_def Let_def)


end
