(* ===== verification/Interleaving.thy ===== *)
theory Interleaving
  imports Quota
begin

text \<open>
  Requests that run at the same time. The HTTP server runs every request in a goroutine of its own, so between two
  calls of one request the others may make calls of theirs. Here such steps of the others are put before
  every call of a request; nothing is assumed about how many there are or in which order they come.
\<close>

section \<open>A request among others\<close>

text \<open>The world, and what the others do before each of the calls to come.\<close>

type_synonym 'w shared = "'w \<times> ('w \<Rightarrow> 'w) list"

definition others_first :: "'w shared \<Rightarrow> 'w shared" where
  "others_first wg = (case wg of (w, []) \<Rightarrow> (w, []) | (w, g # gs) \<Rightarrow> (g w, gs))"

definition amid :: "('w \<Rightarrow> 'x \<times> 'w) \<Rightarrow> 'w shared \<Rightarrow> 'x \<times> 'w shared" where
  "amid f wg = (case others_first wg of (w, gs) \<Rightarrow> (case f w of (x, w') \<Rightarrow> (x, w', gs)))"

definition amid_unit :: "('w \<Rightarrow> 'w) \<Rightarrow> 'w shared \<Rightarrow> 'w shared" where
  "amid_unit f wg = (case others_first wg of (w, gs) \<Rightarrow> (f w, gs))"

definition shared_server :: "('w, 'r) Server \<Rightarrow> ('w shared, 'r) Server" where
  "shared_server s =
     \<lparr>sv_extractor = \<lparr>ex_KnownTypes = ex_KnownTypes (sv_extractor s),
        ex_Extract = (\<lambda>d doc. amid (ex_Extract (sv_extractor s) d doc))\<rparr>,
      sv_pool = map_option amid (sv_pool s),
      sv_cache = map_option (\<lambda>c. \<lparr>rc_Get = (\<lambda>d h. amid (rc_Get c d h)), rc_Set = (\<lambda>d h x. amid_unit (rc_Set c d h x)),
        rc_Delete = (\<lambda>d h. amid_unit (rc_Delete c d h))\<rparr>) (sv_cache s),
      sv_extractions = map_option (\<lambda>es. \<lparr>es_Insert = (\<lambda>rec. amid (es_Insert es rec)),
        es_Replace = (\<lambda>rec. amid (es_Replace es rec)), es_ListBySubject = (\<lambda>u d n. amid (es_ListBySubject es u d n)),
        es_GetByIDForSubject = (\<lambda>j u. amid (es_GetByIDForSubject es j u))\<rparr>) (sv_extractions s),
      sv_consents = map_option (\<lambda>c rec. amid (c rec)) (sv_consents s),
      sv_trustedProxies = sv_trustedProxies s, sv_corsOrigins = sv_corsOrigins s,
      sv_auth = map_option (\<lambda>a tok. amid (a tok)) (sv_auth s),
      sv_limiter = map_option (\<lambda>l k i. amid (l k i)) (sv_limiter s),
      sv_m2mUserForwardSecret = sv_m2mUserForwardSecret s\<rparr>"

definition shared_platform :: "('i, 'w, 'r) platform \<Rightarrow> ('i, 'w shared, 'r) platform" where
  "shared_platform pf =
     \<lparr>pf_now = (\<lambda>wg. pf_now pf (fst wg)), pf_pre = pf_pre pf, pf_route = pf_route pf, pf_fallback = pf_fallback pf,
      pf_encode = pf_encode pf, pf_log = (\<lambda>e. amid_unit (pf_log pf e))\<rparr>"

section \<open>What the others do\<close>

text \<open>The single calls that requests make of the service, and sequences of them.\<close>

inductive calls_of :: "('i, 'w, 'r) platform \<Rightarrow> ('w, 'r) Server \<Rightarrow> request set \<Rightarrow> ('w \<Rightarrow> 'w) \<Rightarrow> bool"
  for pf s R where
  no_call: "calls_of pf s R (\<lambda>w. w)"
| then_call: "calls_of pf s R f \<Longrightarrow> calls_of pf s R g \<Longrightarrow> calls_of pf s R (\<lambda>w. g (f w))"
| log_call: "calls_of pf s R (pf_log pf e)"
| auth_call: "sv_auth s = Some auth \<Longrightarrow> calls_of pf s R (\<lambda>w. snd (auth tok w))"
| ping_call: "sv_pool s = Some png \<Longrightarrow> calls_of pf s R (\<lambda>w. snd (png w))"
| consent_call: "sv_consents s = Some cons \<Longrightarrow> calls_of pf s R (\<lambda>w. snd (cons c w))"
| get_call: "sv_cache s = Some ca \<Longrightarrow> calls_of pf s R (\<lambda>w. snd (rc_Get ca d h w))"
| set_call: "sv_cache s = Some ca \<Longrightarrow> calls_of pf s R (rc_Set ca d h x)"
| delete_call: "sv_cache s = Some ca \<Longrightarrow> calls_of pf s R (rc_Delete ca d h)"
| limiter_call: "sv_limiter s = Some l \<Longrightarrow> calls_of pf s R (\<lambda>w. snd (l k i w))"
| extract_call: "calls_of pf s R (\<lambda>w. snd (ex_Extract (sv_extractor s) d doc w))"
| insert_call: "sv_extractions s = Some es \<Longrightarrow> r \<in> R \<Longrightarrow> issues s r rec \<Longrightarrow> calls_of pf s R (\<lambda>w. snd (es_Insert es rec w))"
| replace_call: "sv_extractions s = Some es \<Longrightarrow> r \<in> R \<Longrightarrow> issues s r rec \<Longrightarrow> calls_of pf s R (\<lambda>w. snd (es_Replace es rec w))"
| list_call: "sv_extractions s = Some es \<Longrightarrow> calls_of pf s R (\<lambda>w. snd (es_ListBySubject es u d n w))"
| read_call: "sv_extractions s = Some es \<Longrightarrow> calls_of pf s R (\<lambda>w. snd (es_GetByIDForSubject es j u w))"

text \<open>A condition that every call keeps is kept by all calls of others.\<close>

lemma condition_calls:
  assumes "server_condition pf s I (\<lambda>rec. \<exists>r \<in> R. issues s r rec)"
  shows "calls_of pf s R g \<Longrightarrow> I w \<Longrightarrow> I (g w)"
proof (induction arbitrary: w rule: calls_of.induct)
  case (insert_call es r rec)
  then show ?case by (intro server_condition.keep_insert [OF assms]) auto
next
  case (replace_call es r rec)
  then show ?case by (intro server_condition.keep_replace [OF assms]) auto
qed (auto intro: server_condition.keep_log [OF assms] server_condition.keep_auth [OF assms]
  server_condition.keep_ping [OF assms] server_condition.keep_consent [OF assms] server_condition.keep_get [OF assms]
  server_condition.keep_set [OF assms] server_condition.keep_delete [OF assms] server_condition.keep_limiter [OF assms]
  server_condition.keep_extract [OF assms] server_condition.keep_list [OF assms] server_condition.keep_read [OF assms])

text \<open>Conversely, whatever a request does to the world is a sequence of its own calls: nothing else can come between.\<close>

lemma ServeHTTP_calls:
  assumes "r \<in> R"
  shows "\<exists>g. calls_of pf s R g \<and> snd (ServeHTTP pf s r w) = g w"
proof -
  let ?I = "\<lambda>w'. \<exists>g. calls_of pf s R g \<and> w' = g w"
  have step: "?I (g w')" if "?I w'" "calls_of pf s R g" for g w'
    using that(1) then_call [OF _ that(2)] by blast
  have cond: "server_condition pf s ?I (\<lambda>rec. \<exists>r \<in> R. issues s r rec)"
    by unfold_locales (erule step; auto intro: log_call auth_call ping_call consent_call get_call set_call delete_call
      limiter_call extract_call insert_call replace_call list_call read_call)+
  have "?I w" by (intro exI [of _ "\<lambda>w. w"]) (simp add: no_call)
  then show ?thesis
    by (rule server_condition.keepsD [OF cond server_condition.ServeHTTP_keeps [OF cond], rotated]) (use assms in auto)
qed

definition kept_amid :: "('w \<Rightarrow> bool) \<Rightarrow> (('w \<Rightarrow> 'w) \<Rightarrow> bool) \<Rightarrow> 'w shared \<Rightarrow> bool" where
  "kept_amid I G wg \<longleftrightarrow> I (fst wg) \<and> list_all G (snd wg)"

lemma kept_first:
  assumes "kept_amid I G wg" and "\<And>g w. G g \<Longrightarrow> I w \<Longrightarrow> I (g w)"
  shows "I (fst (others_first wg))" "list_all G (snd (others_first wg))"
  using assms by (auto simp: kept_amid_def others_first_def split: prod.split list.split)

lemma amid_apply:
  "fst (amid f wg) = fst (f (fst (others_first wg)))"
  "snd (amid f wg) = (snd (f (fst (others_first wg))), snd (others_first wg))"
  "amid_unit g wg = (g (fst (others_first wg)), snd (others_first wg))"
  by (simp_all add: amid_def amid_unit_def case_prod_beta)

lemma shared_server_sel:
  "sv_extractor (shared_server s) = \<lparr>ex_KnownTypes = ex_KnownTypes (sv_extractor s),
     ex_Extract = (\<lambda>d doc. amid (ex_Extract (sv_extractor s) d doc))\<rparr>"
  "sv_pool (shared_server s) = map_option amid (sv_pool s)"
  "sv_cache (shared_server s) = map_option (\<lambda>c. \<lparr>rc_Get = (\<lambda>d h. amid (rc_Get c d h)),
     rc_Set = (\<lambda>d h x. amid_unit (rc_Set c d h x)), rc_Delete = (\<lambda>d h. amid_unit (rc_Delete c d h))\<rparr>) (sv_cache s)"
  "sv_extractions (shared_server s) = map_option (\<lambda>es. \<lparr>es_Insert = (\<lambda>rec. amid (es_Insert es rec)),
     es_Replace = (\<lambda>rec. amid (es_Replace es rec)), es_ListBySubject = (\<lambda>u d n. amid (es_ListBySubject es u d n)),
     es_GetByIDForSubject = (\<lambda>j u. amid (es_GetByIDForSubject es j u))\<rparr>) (sv_extractions s)"
  "sv_consents (shared_server s) = map_option (\<lambda>c rec. amid (c rec)) (sv_consents s)"
  "sv_auth (shared_server s) = map_option (\<lambda>a tok. amid (a tok)) (sv_auth s)"
  "sv_limiter (shared_server s) = map_option (\<lambda>l k i. amid (l k i)) (sv_limiter s)"
  "sv_m2mUserForwardSecret (shared_server s) = sv_m2mUserForwardSecret s"
  by (simp_all add: shared_server_def)

lemma shared_forward: "acceptsUserForward (shared_server s) r = acceptsUserForward s r"
  unfolding acceptsUserForward_def shared_server_sel ..

lemma shared_actor: "actor_subject (shared_server s) r = actor_subject s r"
  unfolding actor_subject_def resolveActor_def shared_forward ..

text \<open>In whose name a request acts does not depend on the others.\<close>

lemma shared_acts_for: "acts_for (shared_server s) r u \<longleftrightarrow> acts_for s r u"
proof
  assume "acts_for (shared_server s) r u"
  then obtain auth wg p where a: "sv_auth s = Some auth" "fst (amid (auth (bearer r)) wg) = Some p"
    "HasScope p ScopeExtractWrite" "u = actor_subject s (WithPrincipal r p)"
    by (auto simp: acts_for_def shared_server_sel shared_actor)
  then show "acts_for s r u"
    unfolding acts_for_def
    by (intro exI [of _ auth] exI [of _ "fst (others_first wg)"] exI [of _ p]) (simp add: amid_apply)
next
  assume "acts_for s r u"
  then obtain auth w p where a: "sv_auth s = Some auth" "fst (auth (bearer r) w) = Some p" "HasScope p ScopeExtractWrite"
    "u = actor_subject s (WithPrincipal r p)" by (auto simp: acts_for_def)
  then show "acts_for (shared_server s) r u"
    unfolding acts_for_def
    by (intro exI [of _ "\<lambda>tok. amid (auth tok)"] exI [of _ "(w, [])"] exI [of _ p])
      (simp add: shared_server_sel shared_actor amid_apply others_first_def)
qed

lemma shared_issues: "issues (shared_server s) r rec \<longleftrightarrow> issues s r rec"
  by (simp add: issues_def shared_acts_for)

text \<open>A condition that every call keeps is kept by a request among others, and what it reads then is shown.\<close>

lemma shared_keeps:
  assumes c: "server_condition pf s I (\<lambda>rec. \<exists>r \<in> R. issues s r rec)"
  shows "server_condition (shared_platform pf) (shared_server s) (kept_amid I (calls_of pf s R))
    (\<lambda>rec. \<exists>r \<in> R. issues s r rec)"
proof -
  have first: "I (fst (others_first wg))" "list_all (calls_of pf s R) (snd (others_first wg))"
    if "kept_amid I (calls_of pf s R) wg" for wg
    by (rule kept_first [OF that], erule (1) condition_calls [OF c])+
  have keep: "kept_amid I (calls_of pf s R) (snd (amid f wg))"
    if "kept_amid I (calls_of pf s R) wg" "\<And>w. I w \<Longrightarrow> I (snd (f w))" for f :: "'b \<Rightarrow> 'y \<times> 'b" and wg
    using first [OF that(1)] that(2) by (simp add: amid_apply kept_amid_def)
  have keep_unit: "kept_amid I (calls_of pf s R) (amid_unit f wg)"
    if "kept_amid I (calls_of pf s R) wg" "\<And>w. I w \<Longrightarrow> I (f w)" for f wg
    using first [OF that(1)] that(2) by (simp add: amid_apply kept_amid_def)
  show ?thesis
    by unfold_locales (auto simp: shared_server_sel shared_platform_def intro!: keep keep_unit
      intro: server_condition.keep_log [OF c] server_condition.keep_auth [OF c]
      server_condition.keep_ping [OF c] server_condition.keep_consent [OF c] server_condition.keep_get [OF c]
      server_condition.keep_set [OF c] server_condition.keep_delete [OF c] server_condition.keep_limiter [OF c]
      server_condition.keep_extract [OF c] server_condition.keep_list [OF c] server_condition.keep_read [OF c]
      server_condition.keep_insert [OF c _ bexI] server_condition.keep_replace [OF c _ bexI])
qed

lemma shared_condition:
  assumes "server_reading pf s I (\<lambda>rec. \<exists>r \<in> R. issues s r rec) P"
  shows "server_reading (shared_platform pf) (shared_server s) (kept_amid I (calls_of pf s R))
    (\<lambda>rec. \<exists>r \<in> R. issues s r rec) P"
proof -
  have c: "server_condition pf s I (\<lambda>rec. \<exists>r \<in> R. issues s r rec)" using assms by (simp add: server_reading_def)
  have first: "I (fst (others_first wg))" if "kept_amid I (calls_of pf s R) wg" for wg
    by (rule kept_first(1) [OF that], erule (1) condition_calls [OF c])
  show ?thesis
    by (intro server_reading.intro server_reading_axioms.intro shared_keeps c)
      (auto simp: shared_server_sel amid_apply dest!: first
        intro: server_reading.list_shows [OF assms] server_reading.get_shows [OF assms])
qed

text \<open>What a request has done to the world when it ends, with the calls of the others.\<close>

lemma shared_kept:
  assumes "server_condition pf s I (\<lambda>rec. \<exists>r \<in> R. issues s r rec)" and "r \<in> R"
    and "I w" and "list_all (calls_of pf s R) gs"
  shows "I (fst (snd (ServeHTTP (shared_platform pf) (shared_server s) r (w, gs))))"
proof -
  note c = shared_keeps [OF assms(1)]
  have "kept_amid I (calls_of pf s R) (snd (ServeHTTP (shared_platform pf) (shared_server s) r (w, gs)))"
    by (rule server_condition.keepsD [OF c server_condition.ServeHTTP_keeps [OF c]])
      (use assms(2-4) in \<open>auto simp: shared_issues kept_amid_def\<close>)
  then show ?thesis by (simp add: kept_amid_def)
qed

text \<open>
  The quota holds for requests that run at the same time: in the calls of all of them, taken together in the order
  in which they were made, at most the configured number of grants goes to one identity in one minute.
\<close>

lemma grants_among_others:
  assumes "counters_apart b cfg cnt" and "\<And>w. truncate_minute (bk_now b w) = m"
    and "0 < cf_RateLimitPerMinute cfg" and "\<And>e w j. cnt j (pf_log pf e w) = cnt j w"
    and "cnt (limiter_key k i (m div second)) (wd_rest wd) = 0"
    and "list_all (calls_of (traced_platform (api_platform pf)) (traced_server (api_server b cfg a)) UNIV) gs"
  shows "int (grants k i (snd (fst (snd (ServeHTTP (shared_platform (traced_platform (api_platform pf)))
    (shared_server (traced_server (api_server b cfg a))) r ((wd, []), gs)))))) \<le> cf_RateLimitPerMinute cfg"
proof -
  let ?I = "paid cnt (limiter_key k i (m div second)) (cf_RateLimitPerMinute cfg) k i 0"
  let ?s = "traced_server (api_server b cfg a)"
  note paid = paid_condition [OF assms(1,2,3) refl assms(4), where k = k and i = i and c = 0 and a = a]
  have "server_condition (traced_platform (api_platform pf)) ?s ?I (\<lambda>rec. \<exists>r \<in> UNIV. issues ?s r rec)"
    using paid by (simp add: server_condition_def)
  then have "?I (fst (snd (ServeHTTP (shared_platform (traced_platform (api_platform pf))) (shared_server ?s) r ((wd, []), gs))))"
    by (rule shared_kept) (use assms(3,5,6) in \<open>simp_all add: paid_def grants_simps\<close>)
  then show ?thesis by (simp add: paid_def)
qed

section \<open>Properties\<close>


text \<open>An example: while a list is authenticated, an upload of the same user comes in between, and the list shows it.\<close>

lemma shared_list:
  assumes "wd_rows (g wd) = [row]" and "visible ''u1'' row"
  shows "shown (rp_Body (fst (ServeHTTP (shared_platform (api_platform routes)) (shared_server (sample_api cfg))
    list_request (wd, [g])))) = {summary_of row}"
proof -
  let ?s = "shared_server (sample_api cfg)" and ?pf = "shared_platform (api_platform routes)"
  let ?r = "WithPrincipal list_request u1"
  have auth: "sv_auth ?s = Some (\<lambda>tok. amid (auth_iface (bk_auth sample_backend) sample_authenticator tok))"
    by (simp add: shared_server_sel sample_api_def api_server_sel)
  have route: "pf_route ?pf ''GET'' q = RList" for q by (simp add: shared_platform_def api_platform_def routes_def)
  have l: "ListBySubject True True ''u1'' [] 20 [row] = Inr [summary_of row]"
    using assms(2) by (simp add: ListBySubject_def sample_api_pure Let_def)
  have es: "sv_extractions (sample_api cfg) = Some (NewExtractions sample_backend)" by (simp add: sample_api_def api_server_sel)
  have "rp_Body (fst (listExtractions ?s ?r h (g wd, []))) = ListBody [summary_of row]" for h
    using l assms(1)
    by (simp add: listExtractions_def shared_server_sel(4) es shared_actor sample_api_actor WithPrincipal_sel list_request_def
        values_Get_def sample_api_pure NewExtractions_def db_read_def sample_backend_defs shown_written others_first_def
        amid_def Let_def)
  then show ?thesis
    by (simp add: ServeHTTP_def cors_def accessLog_def dispatch_def list_request_def sample_sel route authenticate_def auth
        sample_pure sample_api_pure sample_api_auth amid_def others_first_def Let_def case_prod_beta)
qed


end
