(* ===== verification/Spec2Isabelle.thy ===== *)
theory Spec2Isabelle
  imports Schema_Hints Quota Interleaving
begin

text \<open>
  A verification of the personal document extractor: a Go service that takes the picture or the PDF of a
  personal document over HTTP, has a language model read it, normalises what the model answers, and keeps the
  result. This theory imports the whole development; it holds this guide and nothing else.

  \<^bold>\<open>The program and its parts.\<close> A request passes the router, CORS and the access log
  (\<^verbatim>\<open>internal/httpapi\<close>), then authentication (\<^verbatim>\<open>internal/auth\<close>: opaque tokens by introspection, JWTs by the
  keys of the issuer). \<^verbatim>\<open>POST /v1/extract\<close> checks consent and the upload (\<^verbatim>\<open>internal/preprocess\<close>), records the
  consent (\<^verbatim>\<open>internal/store\<close>), looks the hash of the file up in Redis (\<^verbatim>\<open>internal/cache\<close>), and only on a miss
  asks the rate limiter (\<^verbatim>\<open>internal/ratelimit\<close>, the same Redis), prepares text or pictures, and calls
  \<^verbatim>\<open>internal/extract\<close>, which prompts the model (\<^verbatim>\<open>internal/llm/groq\<close>), repairs and decodes its JSON and
  hands it to the document type (\<^verbatim>\<open>internal/doctypes\<close>, over \<^verbatim>\<open>internal/normalize\<close>). The result is stored in
  PostgreSQL and, if that worked, cached. \<^verbatim>\<open>GET /v1/extractions\<close> reads it back. \<^verbatim>\<open>cmd/api\<close> loads secrets
  and configuration, migrates and connects the database, builds all of this and serves it; \<^verbatim>\<open>cmd/migrate\<close> only
  migrates.

  \<^bold>\<open>How code is modelled.\<close> A Go string or byte slice is a list of bytes (\<open>string\<close>), also where the bytes are not
  UTF-8; an \<open>int\<close> is an \<open>int\<close> where the code bounds it (counters, sizes, durations in nanoseconds) and words
  are used where bits matter (SHA-256, floating point numbers). A struct is a record, a list of errors a datatype,
  a call that can fail a sum or an option. State is passed explicitly: every operation on the outside takes
  a world of arbitrary type \<open>'w\<close> and returns the next one. Code outside this repository is a field of a
  record of parameters, and what is relied on stands in the hypotheses of the theorem that relies on it.

  \<^bold>\<open>The Go library that the code uses.\<close>
  \<^item> \<open>Prelude\<close>: names of types, collections of rules, lists and options. \<open>Unicode_Tables\<close>: character classes and case.
  \<^item> \<open>Go_Strings\<close> (\<^verbatim>\<open>strings\<close>, \<^verbatim>\<open>unicode/utf8\<close>), \<open>Go_Time\<close> (numerals, \<^verbatim>\<open>time.Parse\<close> for the layouts in use),
    \<open>Go_Float\<close> and \<open>Go_Number\<close> (\<^verbatim>\<open>float64\<close>, its rounding and decoding), \<open>Go_JSON\<close> (\<^verbatim>\<open>encoding/json\<close>, decoding),
    \<open>Go_Net\<close> and \<open>Go_Parse\<close> (addresses, prefixes, \<^verbatim>\<open>Atoi\<close>, durations), \<open>Content_Sniff\<close>
    (\<^verbatim>\<open>http.DetectContentType\<close>), \<open>Sha256\<close> (\<^verbatim>\<open>crypto/sha256\<close>).

  \<^bold>\<open>The components.\<close>
  \<^item> \<open>Normalize\<close>: \<^verbatim>\<open>normalize.go\<close>. CPF and CNPJ are one scheme of check digits, the locale \<open>mod11_identifier\<close>, that
    both interpret; dates reach a normal form.
  \<^item> \<open>Doc_Types\<close> (address proof, identity document, invoice), \<open>Curriculum_Vitae\<close> and \<open>Curriculum_Laws\<close>: results and
    \<^verbatim>\<open>Normalize\<close> of the four document types; \<open>Prompts\<close>: their prompts and schema hints; \<open>Registry\<close>: their
    decoders by JSON tag and the values registered, which interpret the locale \<open>document_type\<close>;
    \<open>Schema_Hints\<close>: every hint, read as JSON, names exactly the fields the decoder takes.
  \<^item> \<open>Preprocess\<close>: \<^verbatim>\<open>validate.go\<close>, \<^verbatim>\<open>image.go\<close>, \<^verbatim>\<open>pdf.go\<close>, \<^verbatim>\<open>pdf_render.go\<close>, \<^verbatim>\<open>document.go\<close>: which uploads are
    accepted, what a prepared document looks like, sizes of pictures.
  \<^item> \<open>Extract_Service\<close>: \<^verbatim>\<open>extract/service.go\<close>: registry, prompts, fences and reasoning cut from a reply, one repair.
    \<open>Groq_Client\<close>: \<^verbatim>\<open>llm/groq/client.go\<close>: the request, the reply, the retries.
  \<^item> \<open>Auth\<close> (\<^verbatim>\<open>Authenticate\<close> and principals) and \<open>OIDC\<close> (\<^verbatim>\<open>NewAuthenticator\<close>, discovery of keys).
  \<^item> \<open>Rate_Limit\<close>, \<open>Result_Cache\<close>, \<open>Store\<close>: the counters, the entries and the two tables. \<open>Store\<close> refines the
    locale \<open>extraction_store\<close>, rows seen only by their subject.
  \<^item> \<open>Http_Types\<close> (requests, responses, the interfaces of \<^verbatim>\<open>deps.go\<close>) and \<open>Http_Server\<close> (every handler and middleware,
    \<open>ServeHTTP\<close>). \<open>Http_Trace\<close> wraps each dependency so that its calls are written down, proves that the wrapped
    server answers as the server does, and that its traces are runs of a protocol, an inductive step relation.
    \<open>Http_Laws\<close> reads the properties of requests off that protocol.
  \<^item> \<open>Config\<close>, \<open>Secrets\<close>, \<open>Database\<close> (\<^verbatim>\<open>internal/db\<close> and \<^verbatim>\<open>internal/migrate\<close>) and \<open>Startup\<close> (\<^verbatim>\<open>cmd/api\<close> and
    \<^verbatim>\<open>cmd/migrate\<close>): from the environment to a running server, \<open>api_server\<close>.

  \<^bold>\<open>The whole service.\<close> The locale \<open>server_condition\<close> (\<open>Isolation\<close>) is the contract between the HTTP layer and what it is
  built on: a condition on the world that every single call keeps, each insert only of a record that the request may
  issue. Every request keeps it (\<open>ServeHTTP_keeps\<close>); its extension \<open>server_reading\<close> says what such a world shows. Three
  uses of it, on the server as \<^verbatim>\<open>cmd/api\<close> builds it:
  \<^item> \<open>Isolation\<close>: every row was made by a request of its owner, hence a response shows only what earlier requests of the
    same user made.
  \<^item> \<open>Quota\<close>: the counter in Redis pays for every grant, hence a user has no more calls of the model in a
    minute than the configured limit.
  \<^item> \<open>Interleaving\<close>: the world a request leaves is a sequence of its own calls; put before every call of a request any
    calls of others, and the users are still isolated, and the grants of all together within the limit.

  \<^bold>\<open>Kinds of results.\<close> Besides these: exact descriptions of functions on all branches (uploads, skills, proxies, the
  limiter, error statuses), normal forms and fixed points of the normalisers, equivalence with simple
  definitions (check digits, months in any order, secrets in any order), round trips of the store and of the cache,
  bounds (pictures, model calls, \<^verbatim>\<open>Retry-After\<close>), and liveness of the start. Witnesses next to the properties
  evaluate them on concrete inputs.

  \<^bold>\<open>Bounds and fuel.\<close> Loops are recursions on a list or on a measure and are total; fuel is used only where it is
  the code's own bound or proved to be enough. Connecting and pinging the database are tried 30 times, as in
  the code. \<open>Chat\<close> makes at most 3 attempts, with pauses of 3 and 6 seconds, and always returns when the
  network does. The JSON decoder has more fuel than twice the length of its input, which
  \<open>parse_fuel\<close> proves to be enough. Uploads are at most 32 MiB, user agents 512 bytes,
  lists 50 rows, windows of the limiter one minute. Blocking calls of the outside are functions of the world: that they
  return is the assumption, timeouts and cancellation are their failures.

  \<^bold>\<open>Parameters.\<close> The network and the model, Redis, what PostgreSQL decides (transactions, identifiers, time stamps),
  the image codecs and the PDF tools, chi's routing, the multipart reader, \<^verbatim>\<open>net/mail\<close>, \<^verbatim>\<open>net/url\<close>, the JWT and key
  libraries, AWS, the JSON encoders, the clock, and the order in which Go visits a map.

  \<^bold>\<open>Not modelled.\<close> Log lines inside the handlers and the attributes of the logger (they are written and never read; the
  access log is modelled); the timeouts of the HTTP server and of contexts (no time passes inside a call); memory
  and panics of libraries; the SQL migrations of \<^verbatim>\<open>migrations\<close>, which goose runs, so that the schema of the two tables
  is taken from the statements of \<^verbatim>\<open>internal/store\<close>. \<open>serve_all\<close> serves requests one after the other; \<open>Interleaving\<close>
  mixes their calls, each of which is one step, as a Redis command or a database transaction is.

  \<^bold>\<open>What is left.\<close> Entries of the cache and counters that expire (the limiter's quota is stated within one minute, and a
  counter lives for two), and the SQL of the migrations.
\<close>

end
